(* ===== verification/Prelude.thy ===== *)
theory Prelude
  imports Main "HOL-Library.Word" "HOL-Library.AList" "HOL-Library.Char_ord"
    "HOL-Library.List_Lexorder" "HOL-Library.Product_Lexorder"
begin

text \<open>
  What every component of the development shares: Python's byte strings as lists of 8-bit words,
  the exceptions of the package as one datatype, fallible calls as sums with the error on the
  left, the fixed-width integer codecs of Python's \<open>int\<close> (\<open>to_bytes\<close>, \<open>from_bytes\<close>), hexadecimal
  text, and insertion-ordered dictionaries as association lists.  The collections \<open>codec\<close>,
  \<open>dict\<close> and \<open>result\<close> gather the facts the component proofs simplify with.
\<close>

unbundle bit_operations_syntax

named_theorems codec \<open>integer and hexadecimal codecs\<close>
named_theorems dict \<open>dictionaries as association lists\<close>
named_theorems result \<open>fallible computations\<close>

section \<open>Bytes and exceptions\<close>

type_synonym byte = "8 word"
type_synonym bytes = "8 word list"

text \<open>
  The exception classes of \<open>exceptions.py\<close>, then the built-in ones (and the libraries'
  \<open>CScriptInvalidError\<close>, \<open>MalformedPointError\<close>, \<open>InvalidTag\<close>, \<open>IntegrityError\<close> and \<open>HTTPError\<close>) the package raises or lets through.  Messages and context dictionaries are dropped.
\<close>

datatype py_error =
    PaymentCommunityError
  | InsufficientBalanceError
  | HTLCExpiredError
  | InvalidPreimageError
  | ChannelStateError
  | RevokedStateBroadcastError
  | ScriptVerificationError
  | RouteNotFoundError
  | NetworkError
  | ValueError
  | IndexError
  | KeyError
  | OverflowError
  | TypeError
  | ConnectionError
  | OSError
  | CScriptInvalidError
  | MalformedPointError
  | RuntimeError
  | InvalidTag
  | AttributeError
  | IntegrityError
  | HTTPError
  | TimeoutError
  | AssertionError

text \<open>
  \<open>issubclass(e, PaymentCommunityError)\<close>: the domain errors, as the decorators test them.
\<close>

fun is_domain_error :: "py_error \<Rightarrow> bool" where
  "is_domain_error ValueError = False"
| "is_domain_error IndexError = False"
| "is_domain_error KeyError = False"
| "is_domain_error OverflowError = False"
| "is_domain_error TypeError = False"
| "is_domain_error ConnectionError = False"
| "is_domain_error OSError = False"
| "is_domain_error CScriptInvalidError = False"
| "is_domain_error MalformedPointError = False"
| "is_domain_error RuntimeError = False"
| "is_domain_error InvalidTag = False"
| "is_domain_error AttributeError = False"
| "is_domain_error IntegrityError = False"
| "is_domain_error HTTPError = False"
| "is_domain_error TimeoutError = False"
| "is_domain_error AssertionError = False"
| "is_domain_error _ = True"

section \<open>Fallible computations\<close>

type_synonym 'a res = "py_error + 'a"

text \<open>Sequencing: an exception ends the computation, as it does when nothing catches it.\<close>

definition rbind :: "'e + 'a \<Rightarrow> ('a \<Rightarrow> 'e + 'b) \<Rightarrow> 'e + 'b" where
  "rbind m f = (case m of Inl e \<Rightarrow> Inl e | Inr x \<Rightarrow> f x)"

definition guard_res :: "bool \<Rightarrow> 'e \<Rightarrow> 'e + unit" where
  "guard_res b e = (if b then Inr () else Inl e)"

lemma rbind_simps [simp, result]:
  "rbind (Inl e) f = Inl e"
  "rbind (Inr x) f = f x"
  by (simp_all add: rbind_def)

lemma rbind_eq_Inr [result]: "rbind m f = Inr y \<longleftrightarrow> (\<exists>x. m = Inr x \<and> f x = Inr y)"
  by (cases m) simp_all

lemma rbind_eq_Inl [result]:
  "rbind m f = Inl e \<longleftrightarrow> m = Inl e \<or> (\<exists>x. m = Inr x \<and> f x = Inl e)"
  by (cases m) simp_all

lemma rbind_assoc [result]: "rbind (rbind m f) g = rbind m (\<lambda>x. rbind (f x) g)"
  by (cases m) simp_all

lemma guard_res_simps [simp, result]:
  "guard_res True e = Inr ()"
  "guard_res False e = Inl e"
  by (simp_all add: guard_res_def)

text \<open>Running a fallible step along a list, stopping at the first exception.\<close>

fun fold_res :: "('a \<Rightarrow> 's \<Rightarrow> 'e + 's) \<Rightarrow> 'a list \<Rightarrow> 's \<Rightarrow> 'e + 's" where
  "fold_res f [] s = Inr s"
| "fold_res f (x # xs) s = rbind (f x s) (fold_res f xs)"

lemma fold_res_append: "fold_res f (xs @ ys) s = rbind (fold_res f xs s) (fold_res f ys)"
  by (induction xs arbitrary: s) (auto simp: rbind_def split: sum.splits)

lemma fold_res_invariant:
  assumes "fold_res f xs s = Inr t" and "P s"
    and "\<And>x s t. x \<in> set xs \<Longrightarrow> P s \<Longrightarrow> f x s = Inr t \<Longrightarrow> P t"
  shows "P t"
  using assms by (induction xs arbitrary: s) (auto simp: rbind_eq_Inr)

lemma fold_res_error:
  assumes "fold_res f xs s = Inl e" and "\<And>x s. x \<in> set xs \<Longrightarrow> f x s = Inl e \<Longrightarrow> Q"
  shows Q
  using assms by (induction xs arbitrary: s) (auto simp: rbind_eq_Inl)

text \<open>Python's \<open>a or b\<close> on an optional string: \<open>None\<close> and the empty string are falsy.\<close>

definition str_or :: "string option \<Rightarrow> string \<Rightarrow> string" where
  "str_or a b = (case a of None \<Rightarrow> b | Some s \<Rightarrow> (if s = [] then b else s))"

lemma str_or_simps [simp]:
  "str_or None b = b"
  "str_or (Some []) b = b"
  "s \<noteq> [] \<Longrightarrow> str_or (Some s) b = s"
  by (simp_all add: str_or_def)

section \<open>Integer codecs\<close>

text \<open>\<open>int.from_bytes(bs, "little")\<close> and \<open>int.from_bytes(bs, "big")\<close>.\<close>

fun uint_le :: "bytes \<Rightarrow> int" where
  "uint_le [] = 0"
| "uint_le (b # bs) = uint b + 256 * uint_le bs"

definition uint_be :: "bytes \<Rightarrow> int" where
  "uint_be bs = uint_le (rev bs)"

text \<open>\<open>int.from_bytes(bs, "little", signed=True)\<close>: two's complement at the width of the input.\<close>

definition sint_le :: "bytes \<Rightarrow> int" where
  "sint_le bs =
     (let u = uint_le bs; w = 8 * length bs
      in if bs \<noteq> [] \<and> 2 ^ (w - 1) \<le> u then u - 2 ^ w else u)"

text \<open>The \<open>n\<close> low bytes of an integer, least significant first.\<close>

fun le_digits :: "nat \<Rightarrow> int \<Rightarrow> bytes" where
  "le_digits 0 i = []"
| "le_digits (Suc n) i = word_of_int (i mod 256) # le_digits n (i div 256)"

text \<open>\<open>i.to_bytes(n, "little")\<close> and \<open>i.to_bytes(n, "big")\<close>: an OverflowError out of range.\<close>

definition to_bytes_le :: "nat \<Rightarrow> int \<Rightarrow> bytes res" where
  "to_bytes_le n i = (if 0 \<le> i \<and> i < 256 ^ n then Inr (le_digits n i) else Inl OverflowError)"

definition to_bytes_be :: "nat \<Rightarrow> int \<Rightarrow> bytes res" where
  "to_bytes_be n i = (if 0 \<le> i \<and> i < 256 ^ n then Inr (rev (le_digits n i)) else Inl OverflowError)"

definition to_bytes_le_signed :: "nat \<Rightarrow> int \<Rightarrow> bytes res" where
  "to_bytes_le_signed n i =
     (if - (2 ^ (8 * n - 1)) \<le> i \<and> i < 2 ^ (8 * n - 1)
      then Inr (le_digits n (i mod 256 ^ n)) else Inl OverflowError)"

lemma length_le_digits [simp, codec]: "length (le_digits n i) = n"
  by (induction n arbitrary: i) simp_all

lemma uint_le_nonneg [simp]: "0 \<le> uint_le bs"
  by (induction bs) simp_all

lemma uint_le_less: "uint_le bs < 256 ^ length bs"
proof (induction bs)
  case Nil
  then show ?case by simp
next
  case (Cons b bs)
  have "uint b < 256"
    using uint_lt2p [of b] by simp
  with Cons show ?case by simp
qed

lemma uint_be_nonneg [simp]: "0 \<le> uint_be bs"
  by (simp add: uint_be_def)

lemma uint_be_less: "uint_be bs < 256 ^ length bs"
  using uint_le_less [of "rev bs"] by (simp add: uint_be_def)

lemma uint_byte_of_int [simp]: "uint (word_of_int (i mod 256) :: byte) = i mod 256"
  by (simp add: uint_word_of_int)

lemma uint_le_digits: "uint_le (le_digits n i) = i mod 256 ^ n"
proof (induction n arbitrary: i)
  case 0
  then show ?case by simp
next
  case (Suc n)
  have "i mod (256 * 256 ^ n) = 256 * (i div 256 mod 256 ^ n) + i mod 256"
    by (rule zmod_zmult2_eq) simp
  with Suc show ?case by simp
qed

lemma uint_le_digits_id [codec]: "0 \<le> i \<Longrightarrow> i < 256 ^ n \<Longrightarrow> uint_le (le_digits n i) = i"
  by (simp add: uint_le_digits)

lemma le_digits_uint_le [codec]: "le_digits (length bs) (uint_le bs) = bs"
proof (induction bs)
  case Nil
  then show ?case by simp
next
  case (Cons b bs)
  have "uint b < 256"
    using uint_lt2p [of b] by simp
  then have "(uint b + 256 * uint_le bs) div 256 = uint_le bs"
    and "(uint b + 256 * uint_le bs) mod 256 = uint b"
    by simp_all
  with Cons show ?case by simp
qed

lemma uint_le_inj: "length xs = length ys \<Longrightarrow> uint_le xs = uint_le ys \<Longrightarrow> xs = ys"
  by (metis le_digits_uint_le)

lemma uint_be_inj: "length xs = length ys \<Longrightarrow> uint_be xs = uint_be ys \<Longrightarrow> xs = ys"
  unfolding uint_be_def by (metis length_rev rev_is_rev_conv uint_le_inj)

lemma to_bytes_le_roundtrip [codec]: "to_bytes_le n i = Inr bs \<Longrightarrow> uint_le bs = i"
  by (auto simp: to_bytes_le_def uint_le_digits_id split: if_splits)

lemma to_bytes_be_roundtrip [codec]: "to_bytes_be n i = Inr bs \<Longrightarrow> uint_be bs = i"
  by (auto simp: to_bytes_be_def uint_be_def uint_le_digits_id split: if_splits)

lemma length_to_bytes_le [codec]: "to_bytes_le n i = Inr bs \<Longrightarrow> length bs = n"
  by (auto simp: to_bytes_le_def split: if_splits)

lemma length_to_bytes_be [codec]: "to_bytes_be n i = Inr bs \<Longrightarrow> length bs = n"
  by (auto simp: to_bytes_be_def split: if_splits)

lemma to_bytes_be_ok: "0 \<le> i \<Longrightarrow> i < 256 ^ n \<Longrightarrow> \<exists>bs. to_bytes_be n i = Inr bs \<and> length bs = n"
  by (simp add: to_bytes_be_def)

lemma sint_le_eq_uint_le: "uint_le bs < 2 ^ (8 * length bs - 1) \<Longrightarrow> sint_le bs = uint_le bs"
  by (auto simp: sint_le_def Let_def)

section \<open>Exclusive or of byte strings\<close>

text \<open>\<open>bytes(x ^ y for x, y in zip(a, b))\<close>: as long as the shorter one.\<close>

definition bytes_xor :: "bytes \<Rightarrow> bytes \<Rightarrow> bytes" where
  "bytes_xor a b = map (\<lambda>(x, y). x XOR y) (zip a b)"

lemma length_bytes_xor [simp, codec]: "length (bytes_xor a b) = min (length a) (length b)"
  by (simp add: bytes_xor_def)

lemma nth_bytes_xor: "i < length a \<Longrightarrow> i < length b \<Longrightarrow> bytes_xor a b ! i = a ! i XOR b ! i"
  by (simp add: bytes_xor_def)

lemma byte_xor_cancel [simp]: "(x XOR y) XOR y = (x :: byte)"
  by (simp add: xor.assoc)

lemma bytes_xor_cancel [simp]: "length a \<le> length b \<Longrightarrow> bytes_xor (bytes_xor a b) b = a"
  by (intro nth_equalityI) (simp_all add: nth_bytes_xor)

section \<open>Hexadecimal text\<close>

text \<open>\<open>bytes.hex()\<close>: two lower-case digits per byte.\<close>

definition hex_digit :: "nat \<Rightarrow> char" where
  "hex_digit n = ''0123456789abcdef'' ! n"

definition hex_byte :: "byte \<Rightarrow> string" where
  "hex_byte b = [hex_digit (unat b div 16), hex_digit (unat b mod 16)]"

definition hexlify :: "bytes \<Rightarrow> string" where
  "hexlify bs = concat (map hex_byte bs)"

text \<open>The value of one digit, either case.\<close>

definition unhex_digit :: "char \<Rightarrow> nat option" where
  "unhex_digit c =
     (let n = (of_char c :: nat)
      in if 48 \<le> n \<and> n \<le> 57 then Some (n - 48)
         else if 97 \<le> n \<and> n \<le> 102 then Some (n - 87)
         else if 65 \<le> n \<and> n \<le> 70 then Some (n - 55)
         else None)"

text \<open>
  \<open>bytes.fromhex(s)\<close> on text without white space, \<open>None\<close> for its ValueError.  (Python also skips
  ASCII white space between bytes, which no text the package produces contains.)
\<close>

fun unhexlify :: "string \<Rightarrow> bytes option" where
  "unhexlify [] = Some []"
| "unhexlify [c] = None"
| "unhexlify (c # d # cs) =
     (case unhex_digit c of None \<Rightarrow> None
      | Some h \<Rightarrow> (case unhex_digit d of None \<Rightarrow> None
         | Some l \<Rightarrow> (case unhexlify cs of None \<Rightarrow> None
            | Some bs \<Rightarrow> Some (word_of_nat (16 * h + l) # bs))))"

lemma unhex_hex_digit:
  assumes "n < 16"
  shows "unhex_digit (hex_digit n) = Some n"
proof -
  have "list_all (\<lambda>n. unhex_digit (hex_digit n) = Some n) [0..<16]"
    by code_simp
  with assms show ?thesis by (simp add: list_all_iff)
qed

lemma unhexlify_hexlify [codec]: "unhexlify (hexlify bs) = Some bs"
proof (induction bs)
  case Nil
  then show ?case by (simp add: hexlify_def)
next
  case (Cons b bs)
  have "unat b < 256"
    using unsigned_less [of b, where 'a = nat] by simp
  then have "unat b div 16 < 16" by simp
  moreover have "16 * (unat b div 16) + unat b mod 16 = unat b"
    by simp
  ultimately show ?case
    using Cons by (simp add: hexlify_def hex_byte_def unhex_hex_digit)
qed

lemma hexlify_inj: "hexlify xs = hexlify ys \<longleftrightarrow> xs = ys"
  by (metis option.inject unhexlify_hexlify)

lemma length_hexlify [codec]: "length (hexlify bs) = 2 * length bs"
  by (induction bs) (simp_all add: hexlify_def hex_byte_def)

text \<open>\<open>bytes.fromhex\<close> as a call that may raise.\<close>

definition bytes_fromhex :: "string \<Rightarrow> bytes res" where
  "bytes_fromhex s = (case unhexlify s of None \<Rightarrow> Inl ValueError | Some b \<Rightarrow> Inr b)"

lemma bytes_fromhex_hexlify [simp, codec]: "bytes_fromhex (hexlify bs) = Inr bs"
  by (simp add: bytes_fromhex_def unhexlify_hexlify)

section \<open>Dictionaries\<close>

text \<open>
  A Python \<open>dict\<close> keeps the order of insertion, and assigning to a present key keeps its place:
  \<open>AList.update\<close> is that assignment, \<open>AList.delete\<close> is \<open>del\<close> and \<open>map_of\<close> the lookup.
\<close>

type_synonym ('k, 'v) pydict = "('k \<times> 'v) list"

abbreviation dict_set :: "'k \<Rightarrow> 'v \<Rightarrow> ('k, 'v) pydict \<Rightarrow> ('k, 'v) pydict" where
  "dict_set \<equiv> AList.update"

abbreviation dict_del :: "'k \<Rightarrow> ('k, 'v) pydict \<Rightarrow> ('k, 'v) pydict" where
  "dict_del \<equiv> AList.delete"

abbreviation dict_get :: "('k, 'v) pydict \<Rightarrow> 'k \<Rightarrow> 'v option" where
  "dict_get \<equiv> map_of"

definition dict_keys :: "('k, 'v) pydict \<Rightarrow> 'k list" where
  "dict_keys d = map fst d"

definition wf_dict :: "('k, 'v) pydict \<Rightarrow> bool" where
  "wf_dict d \<longleftrightarrow> distinct (map fst d)"

lemma dict_get_set [simp, dict]: "dict_get (dict_set k v d) = (dict_get d)(k \<mapsto> v)"
  by (rule update_conv')

lemma dict_get_del [simp, dict]: "dict_get (dict_del k d) = (dict_get d)(k := None)"
  by (rule delete_conv')

lemma wf_dict_Nil [simp, dict]: "wf_dict []"
  by (simp add: wf_dict_def)

lemma wf_dict_set [simp, dict]: "wf_dict d \<Longrightarrow> wf_dict (dict_set k v d)"
  by (simp add: wf_dict_def distinct_update)

lemma wf_dict_del [simp, dict]: "wf_dict d \<Longrightarrow> wf_dict (dict_del k d)"
  by (simp add: wf_dict_def distinct_delete)

lemma dict_get_SomeD [dict]: "dict_get d k = Some v \<Longrightarrow> (k, v) \<in> set d"
  by (rule map_of_SomeD)

lemma dict_get_iff [dict]: "wf_dict d \<Longrightarrow> dict_get d k = Some v \<longleftrightarrow> (k, v) \<in> set d"
  by (simp add: wf_dict_def)

lemma dict_get_None [dict]: "dict_get d k = None \<longleftrightarrow> k \<notin> set (dict_keys d)"
  by (simp add: map_of_eq_None_iff dict_keys_def)

lemma set_dict_set: "set (dict_set k v d) \<subseteq> insert (k, v) (set d)"
  by (induction d) auto

lemma set_dict_set_fresh [dict]: "dict_get d k = None \<Longrightarrow> dict_set k v d = d @ [(k, v)]"
  by (induction d) (auto split: if_splits)

text \<open>Summing a quantity over the values of a dictionary, through assignment and deletion.\<close>

definition dict_sum :: "('v \<Rightarrow> int) \<Rightarrow> ('k, 'v) pydict \<Rightarrow> int" where
  "dict_sum f d = sum_list (map (f \<circ> snd) d)"

lemma dict_sum_Nil [simp, dict]: "dict_sum f [] = 0"
  by (simp add: dict_sum_def)

lemma dict_sum_set [dict]:
  assumes "wf_dict d"
  shows "dict_sum f (dict_set k v d) =
    dict_sum f d + f v - (case dict_get d k of None \<Rightarrow> 0 | Some u \<Rightarrow> f u)"
  using assms by (induction d) (auto simp: dict_sum_def wf_dict_def split: option.splits)

lemma dict_sum_del [dict]:
  assumes "wf_dict d"
  shows "dict_sum f (dict_del k d) =
    dict_sum f d - (case dict_get d k of None \<Rightarrow> 0 | Some u \<Rightarrow> f u)"
proof -
  have absent: "k \<notin> fst ` set d' \<Longrightarrow> dict_del k d' = d'" for d'
    by (simp add: delete_idem)
  show ?thesis
    using assms by (induction d) (auto simp: dict_sum_def wf_dict_def absent split: option.splits)
qed

lemma dict_sum_nonneg: "(\<And>k v. (k, v) \<in> set d \<Longrightarrow> 0 \<le> f v) \<Longrightarrow> 0 \<le> dict_sum f d"
  by (induction d) (fastforce simp: dict_sum_def)+

end
