(* ===== verification/Sha256.thy ===== *)
theory Sha256
  imports Prelude
begin

text \<open>
  \<open>hashlib.sha256\<close> of the standard library, after FIPS 180-4, on 32-bit words.  The components use
  \<open>sha256\<close> and the fact that a digest has 32 bytes; the known answer at the end is a test of the
  transcription (the digest of the three bytes \<open>abc\<close>).
\<close>

type_synonym w32 = "32 word"

definition rotr :: "nat \<Rightarrow> w32 \<Rightarrow> w32" where
  "rotr n w = drop_bit n w OR push_bit (32 - n) w"

text \<open>
  The round constants, eight to a row: a row is one 256-bit numeral, cut into 32-bit words from its
  most significant end.
\<close>

fun cut_words :: "nat \<Rightarrow> int \<Rightarrow> w32 list" where
  "cut_words 0 i = []"
| "cut_words (Suc n) i = cut_words n (i div 2 ^ 32) @ [word_of_int i]"

definition round_constants :: "w32 list" where
  "round_constants = concat (map (cut_words 8)
    [0x428a2f9871374491b5c0fbcfe9b5dba53956c25b59f111f1923f82a4ab1c5ed5,
     0xd807aa9812835b01243185be550c7dc372be5d7480deb1fe9bdc06a7c19bf174,
     0xe49b69c1efbe47860fc19dc6240ca1cc2de92c6f4a7484aa5cb0a9dc76f988da,
     0x983e5152a831c66db00327c8bf597fc7c6e00bf3d5a7914706ca635114292967,
     0x27b70a852e1b21384d2c6dfc53380d13650a7354766a0abb81c2c92e92722c85,
     0xa2bfe8a1a81a664bc24b8b70c76c51a3d192e819d6990624f40e3585106aa070,
     0x19a4c1161e376c082748774c34b0bcb5391c0cb34ed8aa4a5b9cca4f682e6ff3,
     0x748f82ee78a5636f84c878148cc7020890befffaa4506cebbef9a3f7c67178f2])"

definition word_of_bytes :: "bytes \<Rightarrow> w32" where
  "word_of_bytes bs = foldl (\<lambda>a b. push_bit 8 a OR ucast b) 0 bs"

definition bytes_of_word :: "w32 \<Rightarrow> bytes" where
  "bytes_of_word w =
    [ucast (drop_bit 24 w), ucast (drop_bit 16 w), ucast (drop_bit 8 w), ucast w]"

fun block_words :: "bytes \<Rightarrow> w32 list" where
  "block_words (a # b # c # d # bs) = word_of_bytes [a, b, c, d] # block_words bs"
| "block_words _ = []"

text \<open>The message schedule, newest word first.\<close>

fun extend_schedule :: "nat \<Rightarrow> w32 list \<Rightarrow> w32 list" where
  "extend_schedule 0 ws = ws"
| "extend_schedule (Suc n) ws =
     (let w2 = ws ! 1; w7 = ws ! 6; w15 = ws ! 14; w16 = ws ! 15;
          s0 = rotr 7 w15 XOR rotr 18 w15 XOR drop_bit 3 w15;
          s1 = rotr 17 w2 XOR rotr 19 w2 XOR drop_bit 10 w2
      in extend_schedule n ((w16 + s0 + w7 + s1) # ws))"

type_synonym sha_state = "w32 \<times> w32 \<times> w32 \<times> w32 \<times> w32 \<times> w32 \<times> w32 \<times> w32"

fun sha_round :: "sha_state \<Rightarrow> w32 \<times> w32 \<Rightarrow> sha_state" where
  "sha_round (a, b, c, d, e, f, g, h) (k, w) =
     (let s1 = rotr 6 e XOR rotr 11 e XOR rotr 25 e;
          ch = (e AND f) XOR (NOT e AND g);
          t1 = h + s1 + ch + k + w;
          s0 = rotr 2 a XOR rotr 13 a XOR rotr 22 a;
          maj = (a AND b) XOR (a AND c) XOR (b AND c)
      in (t1 + (s0 + maj), a, b, c, d + t1, e, f, g))"

fun add_state :: "sha_state \<Rightarrow> sha_state \<Rightarrow> sha_state" where
  "add_state (a, b, c, d, e, f, g, h) (a', b', c', d', e', f', g', h') =
     (a + a', b + b', c + c', d + d', e + e', f + f', g + g', h + h')"

definition compress :: "sha_state \<Rightarrow> bytes \<Rightarrow> sha_state" where
  "compress s block =
     add_state s (foldl sha_round s
       (zip round_constants (rev (extend_schedule 48 (rev (block_words block))))))"

function compress_blocks :: "sha_state \<Rightarrow> bytes \<Rightarrow> sha_state" where
  "compress_blocks s bs =
     (if length bs < 64 then s else compress_blocks (compress s (take 64 bs)) (drop 64 bs))"
  by pat_completeness auto
termination
  by (relation "measure (length \<circ> snd)") auto

declare compress_blocks.simps [simp del]

definition sha_pad :: "bytes \<Rightarrow> bytes" where
  "sha_pad m =
     m @ [0x80] @ replicate ((119 - length m mod 64) mod 64) 0 @
     rev (le_digits 8 (int (8 * length m)))"

fun state_of_words :: "w32 list \<Rightarrow> sha_state" where
  "state_of_words [a, b, c, d, e, f, g, h] = (a, b, c, d, e, f, g, h)"
| "state_of_words _ = (0, 0, 0, 0, 0, 0, 0, 0)"

definition initial_state :: sha_state where
  "initial_state =
     state_of_words (cut_words 8 0x6a09e667bb67ae853c6ef372a54ff53a510e527f9b05688c1f83d9ab5be0cd19)"

fun state_bytes :: "sha_state \<Rightarrow> bytes" where
  "state_bytes (a, b, c, d, e, f, g, h) =
     bytes_of_word a @ bytes_of_word b @ bytes_of_word c @ bytes_of_word d @
     bytes_of_word e @ bytes_of_word f @ bytes_of_word g @ bytes_of_word h"

definition sha256 :: "bytes \<Rightarrow> bytes" where
  "sha256 m = state_bytes (compress_blocks initial_state (sha_pad m))"

lemma length_state_bytes: "length (state_bytes s) = 32"
  by (cases s rule: state_bytes.cases) (simp add: bytes_of_word_def)

lemma length_sha256 [simp, codec]: "length (sha256 m) = 32"
  by (simp add: sha256_def length_state_bytes)

lemma sha256_not_Nil [simp]: "sha256 m \<noteq> []"
  using length_sha256 [of m] by force

lemma sha256_abc:
  "sha256 [0x61, 0x62, 0x63] =
    [0xba, 0x78, 0x16, 0xbf, 0x8f, 0x01, 0xcf, 0xea, 0x41, 0x41, 0x40, 0xde, 0x5d, 0xae, 0x22, 0x23,
     0xb0, 0x03, 0x61, 0xa3, 0x96, 0x17, 0x7a, 0x9c, 0xb4, 0x10, 0xff, 0x61, 0xf2, 0x00, 0x15, 0xad]"
  by code_simp

end
