(* ===== verification/Bitcoin_Lib.thy ===== *)
theory Bitcoin_Lib
  imports Sha256
begin

text \<open>
  The transactions the package builds, and the interface of the library it builds them with
  (\<open>python-bitcoinlib\<close>, whose code is not in the repository).  Every function of that library the
  package calls is a field of the record \<open>btclib\<close>, an argument of the definitions that use it; what
  the package relies on is stated as hypotheses of the theorems, or as the laws of a locale.
\<close>

section \<open>Scripts\<close>

text \<open>
  An element of a script, as \<open>CScript([...])\<close> takes it and as iterating over a \<open>CScript\<close> gives it
  back: an opcode (\<open>CScriptOp\<close>), an integer, or the bytes of a push.
\<close>

datatype script_item = Op nat | Num int | Push bytes

text \<open>The opcodes the package names, with their consensus values.\<close>

abbreviation (input) "OP_0 \<equiv> (0 :: nat)"
abbreviation "OP_1NEGATE \<equiv> (79 :: nat)"
abbreviation "OP_1 \<equiv> (81 :: nat)"
abbreviation "OP_2 \<equiv> (82 :: nat)"
abbreviation "OP_16 \<equiv> (96 :: nat)"
abbreviation "OP_IF \<equiv> (99 :: nat)"
abbreviation "OP_NOTIF \<equiv> (100 :: nat)"
abbreviation "OP_ELSE \<equiv> (103 :: nat)"
abbreviation "OP_ENDIF \<equiv> (104 :: nat)"
abbreviation "OP_VERIFY \<equiv> (105 :: nat)"
abbreviation "OP_RETURN \<equiv> (106 :: nat)"
abbreviation "OP_2DROP \<equiv> (109 :: nat)"
abbreviation "OP_IFDUP \<equiv> (115 :: nat)"
abbreviation "OP_DROP \<equiv> (117 :: nat)"
abbreviation "OP_DUP \<equiv> (118 :: nat)"
abbreviation "OP_EQUAL \<equiv> (135 :: nat)"
abbreviation "OP_EQUALVERIFY \<equiv> (136 :: nat)"
abbreviation "OP_RIPEMD160 \<equiv> (166 :: nat)"
abbreviation "OP_SHA256 \<equiv> (168 :: nat)"
abbreviation "OP_HASH160 \<equiv> (169 :: nat)"
abbreviation "OP_HASH256 \<equiv> (170 :: nat)"
abbreviation "OP_CHECKSIG \<equiv> (172 :: nat)"
abbreviation "OP_CHECKSIGVERIFY \<equiv> (173 :: nat)"
abbreviation "OP_CHECKMULTISIG \<equiv> (174 :: nat)"
abbreviation "OP_CHECKMULTISIGVERIFY \<equiv> (175 :: nat)"
abbreviation "OP_CHECKLOCKTIMEVERIFY \<equiv> (177 :: nat)"
abbreviation "OP_CHECKSEQUENCEVERIFY \<equiv> (178 :: nat)"

section \<open>Transactions\<close>

text \<open>
  The fields of \<open>CMutableTransaction\<close> the package reads and writes.  \<open>wit\<close> holds the stack of each
  \<open>CTxInWitness\<close> in \<open>tx.wit.vtxinwit\<close>.
\<close>

record outpoint =
  out_hash :: bytes
  out_n :: int

record txin =
  prevout :: outpoint
  nSequence :: int

record txout =
  nValue :: int
  scriptPubKey :: bytes

record tx =
  vin :: "txin list"
  vout :: "txout list"
  nLockTime :: int
  wit :: "bytes list list"

definition total_out :: "tx \<Rightarrow> int" where
  "total_out t = sum_list (map nValue (vout t))"

section \<open>The library's functions\<close>

text \<open>
  \<open>lib_x\<close>, \<open>lib_b2x\<close>: \<open>bitcoin.core.x\<close> and \<open>b2x\<close> (\<open>None\<close> is a ValueError); \<open>lib_Hash\<close>, \<open>lib_Hash160\<close>:
  \<open>Hash\<close> and \<open>Hash160\<close>; \<open>lib_ripemd160\<close>: \<open>hashlib.new("ripemd160")\<close>, which depends on the OpenSSL
  build; \<open>lib_outpoint\<close>: \<open>COutPoint(lx(txid), n)\<close>; \<open>lib_cscript\<close>: \<open>CScript([...])\<close>; \<open>lib_script_iter\<close>:
  \<open>list(CScript(b))\<close> (\<open>None\<close> is a CScriptInvalidError); \<open>lib_addr_spk\<close>: the scriptPubKey of the
  segwit address with this version and program; \<open>lib_tx_bytes\<close>:
  \<open>CTransaction(tx.vin, tx.vout, tx.nLockTime).serialize()\<close>; \<open>lib_sighash\<close>: \<open>SignatureHash\<close> at
  \<open>SIGVERSION_WITNESS_V0\<close> of script, transaction, input index, hash type and amount;
  \<open>lib_ecdsa_verify\<close>: \<open>CECKey.set_pubkey\<close> followed by \<open>verify(hash, sig)\<close>; \<open>lib_pub\<close>, \<open>lib_sign\<close>,
  \<open>lib_wif\<close>, \<open>lib_wif_text\<close>: \<open>CBitcoinSecret\<close>'s \<open>pub\<close>, \<open>sign\<close>, its constructor from a WIF text and its text
  (\<open>str(CBitcoinSecret.from_secret_bytes(b))\<close>), with a secret represented by its bytes.
\<close>

record btclib =
  lib_x :: "string \<Rightarrow> bytes option"
  lib_b2x :: "bytes \<Rightarrow> string"
  lib_Hash :: "bytes \<Rightarrow> bytes"
  lib_Hash160 :: "bytes \<Rightarrow> bytes"
  lib_ripemd160 :: "bytes \<Rightarrow> bytes"
  lib_outpoint :: "string \<Rightarrow> int \<Rightarrow> outpoint res"
  lib_cscript :: "script_item list \<Rightarrow> bytes"
  lib_script_iter :: "bytes \<Rightarrow> script_item list option"
  lib_addr_spk :: "int \<Rightarrow> bytes \<Rightarrow> bytes"
  lib_tx_bytes :: "tx \<Rightarrow> bytes"
  lib_sighash :: "bytes \<Rightarrow> tx \<Rightarrow> nat \<Rightarrow> int \<Rightarrow> int \<Rightarrow> bytes"
  lib_ecdsa_verify :: "bytes \<Rightarrow> bytes \<Rightarrow> bytes \<Rightarrow> bool"
  lib_pub :: "bytes \<Rightarrow> bytes"
  lib_sign :: "bytes \<Rightarrow> bytes \<Rightarrow> bytes"
  lib_wif :: "string \<Rightarrow> bytes res"
  lib_wif_text :: "bytes \<Rightarrow> string"

text \<open>\<open>SIGHASH_ALL\<close>.\<close>

abbreviation (input) "SIGHASH_ALL \<equiv> (1 :: int)"

end
