(* ===== verification/Domain_Core.thy ===== *)
theory Domain_Core
  imports Prelude
begin

text \<open>
  The design-pattern layer of \<open>domain/core\<close>: composable specifications (\<open>predicates.py\<close>), the
  \<open>Result\<close> type (\<open>result.py\<close>), the fee, capacity, timelock and revocation policies
  (\<open>policies.py\<close>), and the retry and error-translation decorators (\<open>decorators.py\<close>).  The concrete
  specifications over channels and HTLCs are in the theory \<open>Channel\<close>, beside the records they read.
\<close>

section \<open>Specifications\<close>

text \<open>
  \<open>Specification[T]\<close>: a concrete predicate, or one of the three combinators that \<open>&\<close>, \<open>|\<close> and \<open>~\<close>
  build.  \<open>is_satisfied_by\<close> of a combinator asks its parts, from left to right.
\<close>

datatype 'a spec =
    Concrete "'a \<Rightarrow> bool"
  | AndSpecification "'a spec" "'a spec"
  | OrSpecification "'a spec" "'a spec"
  | NotSpecification "'a spec"

fun is_satisfied_by :: "'a spec \<Rightarrow> 'a \<Rightarrow> bool" where
  "is_satisfied_by (Concrete p) x = p x"
| "is_satisfied_by (AndSpecification l r) x = (is_satisfied_by l x \<and> is_satisfied_by r x)"
| "is_satisfied_by (OrSpecification l r) x = (is_satisfied_by l x \<or> is_satisfied_by r x)"
| "is_satisfied_by (NotSpecification s) x = (\<not> is_satisfied_by s x)"

text \<open>
  Negation normal form: every specification is equivalent to one whose negations stand on concrete
  predicates only, which is how a caller may push \<open>~\<close> inwards.
\<close>

fun spec_nnf :: "bool \<Rightarrow> 'a spec \<Rightarrow> 'a spec" where
  "spec_nnf b (Concrete p) = (if b then Concrete p else NotSpecification (Concrete p))"
| "spec_nnf b (AndSpecification l r) =
     (if b then AndSpecification (spec_nnf b l) (spec_nnf b r)
      else OrSpecification (spec_nnf b l) (spec_nnf b r))"
| "spec_nnf b (OrSpecification l r) =
     (if b then OrSpecification (spec_nnf b l) (spec_nnf b r)
      else AndSpecification (spec_nnf b l) (spec_nnf b r))"
| "spec_nnf b (NotSpecification s) = spec_nnf (\<not> b) s"

lemma is_satisfied_by_nnf: "is_satisfied_by (spec_nnf b s) x = (if b then is_satisfied_by s x else \<not> is_satisfied_by s x)"
  by (induction b s rule: spec_nnf.induct) auto

section \<open>Results\<close>

text \<open>\<open>Ok(value)\<close> and \<open>Err(error)\<close>; \<open>unwrap\<close> raises the stored error.\<close>

datatype ('a, 'e) py_result = Ok 'a | Err 'e

fun is_ok :: "('a, 'e) py_result \<Rightarrow> bool" where
  "is_ok (Ok v) = True"
| "is_ok (Err e) = False"

fun is_err :: "('a, 'e) py_result \<Rightarrow> bool" where
  "is_err (Ok v) = False"
| "is_err (Err e) = True"

fun unwrap :: "('a, 'e) py_result \<Rightarrow> 'e + 'a" where
  "unwrap (Ok v) = Inr v"
| "unwrap (Err e) = Inl e"

fun unwrap_or :: "('a, 'e) py_result \<Rightarrow> 'a \<Rightarrow> 'a" where
  "unwrap_or (Ok v) d = v"
| "unwrap_or (Err e) d = d"

fun result_map :: "('a \<Rightarrow> 'b) \<Rightarrow> ('a, 'e) py_result \<Rightarrow> ('b, 'e) py_result" where
  "result_map f (Ok v) = Ok (f v)"
| "result_map f (Err e) = Err e"

fun and_then :: "('a, 'e) py_result \<Rightarrow> ('a \<Rightarrow> ('b, 'e) py_result) \<Rightarrow> ('b, 'e) py_result" where
  "and_then (Ok v) f = f v"
| "and_then (Err e) f = Err e"

lemma and_then_assoc: "and_then (and_then r f) g = and_then r (\<lambda>x. and_then (f x) g)"
  by (cases r) simp_all

lemma result_map_and_then: "result_map f r = and_then r (\<lambda>x. Ok (f x))"
  by (cases r) simp_all

lemma unwrap_and_then: "unwrap (and_then r f) = rbind (unwrap r) (\<lambda>x. unwrap (f x))"
  by (cases r) simp_all

section \<open>Policies\<close>

text \<open>The constants of \<open>config.py\<close> the policies take as defaults.\<close>

definition DEFAULT_CLTV_DELTA_BLOCKS :: int where "DEFAULT_CLTV_DELTA_BLOCKS = 40"
definition DEFAULT_TO_SELF_DELAY_BLOCKS :: int where "DEFAULT_TO_SELF_DELAY_BLOCKS = 144"
definition DEFAULT_ROUTING_BASE_FEE_SAT :: int where "DEFAULT_ROUTING_BASE_FEE_SAT = 1"
definition DEFAULT_ROUTING_FEE_RATE_PPM :: int where "DEFAULT_ROUTING_FEE_RATE_PPM = 1000"
definition DEFAULT_LEASE_FEE_BASE_SAT :: int where "DEFAULT_LEASE_FEE_BASE_SAT = 500"
definition DEFAULT_LEASE_FEE_BASIS_PPM :: int where "DEFAULT_LEASE_FEE_BASIS_PPM = 2000"
definition MIN_CHANNEL_CAPACITY_SAT :: int where "MIN_CHANNEL_CAPACITY_SAT = 10000"
definition MAX_CHANNEL_CAPACITY_SAT :: int where "MAX_CHANNEL_CAPACITY_SAT = 16777216"

record fee_policy =
  base_fee_sat :: int
  fee_rate_ppm :: int

text \<open>
  \<open>RoutingFeePolicy.calculate_fee\<close> and \<open>LeaseFeePolicy.calculate_fee\<close>, which have the same body;
  \<open>RoutingPolicy\<close> is an alias.
\<close>

definition calculate_fee :: "fee_policy \<Rightarrow> int \<Rightarrow> int" where
  "calculate_fee p amount_sat =
     (let proportional_fee = (amount_sat * fee_rate_ppm p) div 1000000
      in base_fee_sat p + proportional_fee)"

definition is_valid_capacity :: "int \<Rightarrow> int \<Rightarrow> int \<Rightarrow> bool" where
  "is_valid_capacity min_capacity_sat max_capacity_sat capacity_sat \<longleftrightarrow>
     min_capacity_sat \<le> capacity_sat \<and> capacity_sat \<le> max_capacity_sat"

definition calculate_hop_locktime :: "int \<Rightarrow> int \<Rightarrow> int \<Rightarrow> int" where
  "calculate_hop_locktime cltv_delta_blocks current_height hop_distance =
     current_height + hop_distance * cltv_delta_blocks"

definition policy_is_state_revoked :: "int \<Rightarrow> int set \<Rightarrow> bool" where
  "policy_is_state_revoked commitment_number revealed_secrets_set \<longleftrightarrow>
     commitment_number \<in> revealed_secrets_set"

lemma calculate_fee_nonneg:
  "0 \<le> base_fee_sat p \<Longrightarrow> 0 \<le> fee_rate_ppm p \<Longrightarrow> 0 \<le> amount_sat \<Longrightarrow> 0 \<le> calculate_fee p amount_sat"
  by (simp add: calculate_fee_def Let_def pos_imp_zdiv_nonneg_iff)

lemma calculate_fee_mono:
  "0 \<le> fee_rate_ppm p \<Longrightarrow> a \<le> b \<Longrightarrow> calculate_fee p a \<le> calculate_fee p b"
  by (simp add: calculate_fee_def Let_def zdiv_mono1 mult_right_mono)

section \<open>Decorators\<close>

text \<open>
  \<open>retry\<close>: the wrapped call is a state transformer with an outcome, so that attempts may differ.
  \<open>retry_loop n\<close> makes the attempts that are left; \<open>caught e\<close> is \<open>isinstance(e, exceptions)\<close>; the
  sleeps between attempts are the returned list of delays.  With \<open>max_attempts < 1\<close> the loop body
  never runs and the call after the loop is made once, outside any handler.
\<close>

fun retry_loop ::
    "nat \<Rightarrow> ('e \<Rightarrow> bool) \<Rightarrow> ('s \<Rightarrow> ('e + 'a) \<times> 's) \<Rightarrow> 'd \<Rightarrow> ('d \<Rightarrow> 'd) \<Rightarrow> 's \<Rightarrow> ('e + 'a) \<times> 'd list \<times> 's" where
  "retry_loop 0 caught func delay backoff s =
     (let (r, s') = func s in (r, [], s'))"
| "retry_loop (Suc n) caught func delay backoff s =
     (let (r, s') = func s
      in case r of
           Inr v \<Rightarrow> (Inr v, [], s')
         | Inl e \<Rightarrow>
             (if \<not> caught e then (Inl e, [], s')
              else if n = 0 then (Inl e, [], s')
              else (let (r', ds, s'') = retry_loop n caught func (backoff delay) backoff s'
                    in (r', delay # ds, s''))))"

definition retry ::
    "int \<Rightarrow> ('e \<Rightarrow> bool) \<Rightarrow> ('s \<Rightarrow> ('e + 'a) \<times> 's) \<Rightarrow> 'd \<Rightarrow> ('d \<Rightarrow> 'd) \<Rightarrow> 's \<Rightarrow> ('e + 'a) \<times> 'd list \<times> 's" where
  "retry max_attempts caught func delay_seconds backoff s =
     retry_loop (nat max_attempts) caught func delay_seconds backoff s"

text \<open>\<open>log_execution\<close> leaves the call as it is; one that raises is never logged as ended.\<close>

datatype log_entry = Entering | Exited

definition log_execution :: "('s \<Rightarrow> ('e + 'a) \<times> 's) \<Rightarrow> 's \<Rightarrow> ('e + 'a) \<times> log_entry list \<times> 's" where
  "log_execution func s =
     (let (r, s') = func s in (r, case r of Inl e \<Rightarrow> [Entering] | Inr v \<Rightarrow> [Entering, Exited], s'))"

text \<open>
  \<open>handle_domain_errors\<close>: bare or with no argument, every exception that is not a domain error
  becomes \<open>PaymentCommunityError\<close>; with a target exception, every one that is not an instance of the
  target becomes the target (\<open>is_target\<close> is \<open>isinstance(_, target)\<close>).
\<close>

fun handle_domain_errors :: "'a res \<Rightarrow> 'a res" where
  "handle_domain_errors (Inr v) = Inr v"
| "handle_domain_errors (Inl e) = (if is_domain_error e then Inl e else Inl PaymentCommunityError)"

fun handle_domain_errors_as :: "(py_error \<Rightarrow> bool) \<Rightarrow> py_error \<Rightarrow> 'a res \<Rightarrow> 'a res" where
  "handle_domain_errors_as is_target target (Inr v) = Inr v"
| "handle_domain_errors_as is_target target (Inl e) = (if is_target e then Inl e else Inl target)"

lemma handle_domain_errors_domain: "handle_domain_errors r = Inl e \<Longrightarrow> is_domain_error e"
  by (cases r) (auto split: if_splits)

text \<open>
  The attempts of \<open>retry\<close>, seen from outside: a call counter.  \<open>counted\<close> makes any function count its
  calls in the state, so the number of calls is read off the final state.
\<close>

definition counted :: "(nat \<Rightarrow> 'e + 'a) \<Rightarrow> nat \<Rightarrow> ('e + 'a) \<times> nat" where
  "counted outcome k = (outcome k, Suc k)"

lemma retry_loop_again:
  "outcome k = Inl e \<Longrightarrow> caught e \<Longrightarrow> n \<noteq> 0 \<Longrightarrow>
    retry_loop (Suc n) caught (counted outcome) d b k =
      (let (r, ds, s) = retry_loop n caught (counted outcome) (b d) b (Suc k) in (r, d # ds, s))"
  by (simp add: counted_def Let_def split_def)

lemma retry_loop_first_success:
  assumes "\<forall>i<m. \<exists>e. outcome (k + i) = Inl e \<and> caught e" and "outcome (k + m) = Inr v" and "m < n"
  shows "\<exists>ds. retry_loop n caught (counted outcome) d b k = (Inr v, ds, Suc (k + m)) \<and> length ds = m"
  using assms
proof (induction m arbitrary: k n d)
  case 0
  then obtain n' where "n = Suc n'" by (cases n) auto
  with 0 show ?case by (simp add: counted_def)
next
  case (Suc m)
  then obtain n' where n: "n = Suc n'" "n' \<noteq> 0" by (cases n) auto
  obtain e where e: "outcome k = Inl e" "caught e"
    using Suc.prems(1) by (metis add_0_right zero_less_Suc)
  have shift: "\<forall>i<m. \<exists>e. outcome (Suc k + i) = Inl e \<and> caught e"
    using Suc.prems(1) by (metis Suc_less_eq add_Suc add_Suc_right)
  have "outcome (Suc k + m) = Inr v" and "m < n'"
    using Suc.prems n by simp_all
  with shift obtain ds where
    "retry_loop n' caught (counted outcome) (b d) b (Suc k) = (Inr v, ds, Suc (Suc k + m))" "length ds = m"
    using Suc.IH by blast
  with n e show ?case by (simp add: retry_loop_again del: retry_loop.simps)
qed

lemma retry_loop_all_fail:
  assumes "\<forall>i<n. \<exists>e. outcome (k + i) = Inl e \<and> caught e" and "n \<noteq> 0"
  shows "\<exists>ds. retry_loop n caught (counted outcome) d b k = (outcome (k + n - 1), ds, k + n)
    \<and> length ds = n - 1"
  using assms
proof (induction n arbitrary: k d)
  case 0
  then show ?case by simp
next
  case (Suc n)
  obtain e where e: "outcome k = Inl e" "caught e"
    using Suc.prems(1) by (metis add_0_right zero_less_Suc)
  show ?case
  proof (cases "n = 0")
    case True
    with e show ?thesis by (simp add: counted_def)
  next
    case False
    have "\<forall>i<n. \<exists>e. outcome (Suc k + i) = Inl e \<and> caught e"
      using Suc.prems(1) by (metis Suc_less_eq add_Suc add_Suc_right)
    with False obtain ds where
      "retry_loop n caught (counted outcome) (b d) b (Suc k) = (outcome (Suc k + n - 1), ds, Suc k + n)"
      "length ds = n - 1"
      using Suc.IH by blast
    with e False show ?thesis by (simp add: retry_loop_again del: retry_loop.simps)
  qed
qed

end
