(* ===== verification/Channel.thy ===== *)
theory Channel
  imports Bitcoin_Lib Domain_Core
begin

text \<open>
  The payment channel of \<open>domain/channel.py\<close>: its record, the HTLCs it holds, the specifications it
  asks (\<open>domain/core/predicates.py\<close>), the revocation store of \<open>protocols/revocation.py\<close>, and the
  operations \<open>add_htlc\<close>, \<open>redeem_htlc\<close>, \<open>refund_htlc\<close>, \<open>revoke_prior_state\<close>,
  \<open>verify_commitment_not_revoked\<close> and \<open>close_cooperatively\<close>.  An operation that returns \<open>True\<close> or raises
  is a function to \<open>channel res\<close>; when it raises, the channel is unchanged.  \<open>add_htlc\<close> also sets \<open>offerer_alias\<close>
  on the HTLC object passed to it, before its checks; the HTLC entered in the channel has it, the caller's object after a failed
  call is not modelled.  The abstract ledger at
  the end is what the operations implement, and \<open>channel_step\<close> the life of an open channel.
\<close>

section \<open>State\<close>

datatype channel_state = CH_CLOSED | CH_FUNDING | CH_OPEN | CH_DISPUTE | CH_SETTLED

datatype htlc_state = HTLC_OFFERED | HTLC_ACCEPTED | HTLC_SETTLED | HTLC_REFUNDED | HTLC_EXPIRED

record htlc_contract =
  htlc_id :: string
  payment_hash :: string
  htlc_amount_sat :: int
  htlc_locktime :: int
  offerer_alias :: "string option"
  preimage :: "string option"
  settled :: bool
  refunded :: bool
  htlc_status :: htlc_state

text \<open>\<open>RevocationStore\<close>: commitment number to hexadecimal secret.\<close>

record revocation_store =
  local_secrets :: "(int, string) pydict"
  remote_revealed_secrets :: "(int, string) pydict"

record channel =
  channel_id :: string
  sender_alias :: string
  receiver_alias :: string
  sender_pubkey_hex :: string
  receiver_pubkey_hex :: string
  capacity_sat :: int
  balance_sender_sat :: int
  balance_receiver_sat :: int
  channel_status :: channel_state
  funding_txid :: "string option"
  funding_vout :: "int option"
  active_htlcs :: "(string, htlc_contract) pydict"
  sequence_number :: int
  store :: revocation_store

section \<open>Revocation store\<close>

definition empty_store :: revocation_store where
  "empty_store = \<lparr>local_secrets = [], remote_revealed_secrets = []\<rparr>"

definition register_remote_secret :: "int \<Rightarrow> string \<Rightarrow> revocation_store \<Rightarrow> revocation_store" where
  "register_remote_secret commitment_number secret_hex s =
     s\<lparr>remote_revealed_secrets :=
         dict_set commitment_number secret_hex (remote_revealed_secrets s)\<rparr>"

definition is_state_revoked :: "revocation_store \<Rightarrow> int \<Rightarrow> bool" where
  "is_state_revoked s commitment_number =
     policy_is_state_revoked commitment_number (set (dict_keys (remote_revealed_secrets s)))"

definition get_revocation_secret :: "revocation_store \<Rightarrow> int \<Rightarrow> string option" where
  "get_revocation_secret s commitment_number =
     dict_get (remote_revealed_secrets s) commitment_number"

lemma is_state_revoked_iff: "is_state_revoked s n \<longleftrightarrow> get_revocation_secret s n \<noteq> None"
  by (simp add: is_state_revoked_def policy_is_state_revoked_def get_revocation_secret_def dict_get_None)

lemma get_register_remote_secret [simp]:
  "get_revocation_secret (register_remote_secret n x s) m =
     (if m = n then Some x else get_revocation_secret s m)"
  by (simp add: get_revocation_secret_def register_remote_secret_def)

section \<open>Specifications over channels and HTLCs\<close>

definition IsChannelOpen :: "channel spec" where
  "IsChannelOpen = Concrete (\<lambda>c. channel_status c = CH_OPEN)"

definition HasSufficientBalance :: "int \<Rightarrow> channel spec" where
  "HasSufficientBalance required_amount_sat =
     Concrete (\<lambda>c. required_amount_sat \<le> balance_sender_sat c)"

definition IsHTLCActive :: "htlc_contract spec" where
  "IsHTLCActive = Concrete (\<lambda>h. \<not> settled h \<and> \<not> refunded h)"

definition IsTimelockExpired :: "int \<Rightarrow> htlc_contract spec" where
  "IsTimelockExpired current_block_height = Concrete (\<lambda>h. htlc_locktime h \<le> current_block_height)"

text \<open>A text that is not hexadecimal is a ValueError, which the predicate answers with \<open>False\<close>.\<close>

definition IsPreimageValid :: "btclib \<Rightarrow> string \<Rightarrow> htlc_contract spec" where
  "IsPreimageValid L preimage_hex =
     Concrete (\<lambda>h. case lib_x L preimage_hex of
        None \<Rightarrow> False
      | Some p \<Rightarrow> lib_b2x L (sha256 p) = payment_hash h)"

definition is_active :: "htlc_contract \<Rightarrow> bool" where
  "is_active h = is_satisfied_by IsHTLCActive h"

definition is_expired_at :: "htlc_contract \<Rightarrow> int \<Rightarrow> bool" where
  "is_expired_at h block_height = is_satisfied_by (IsTimelockExpired block_height) h"

definition is_preimage_valid :: "btclib \<Rightarrow> htlc_contract \<Rightarrow> string \<Rightarrow> bool" where
  "is_preimage_valid L h preimage_hex = is_satisfied_by (IsPreimageValid L preimage_hex) h"

definition is_open :: "channel \<Rightarrow> bool" where
  "is_open c = is_satisfied_by IsChannelOpen c"

definition has_sufficient_sender_balance_for :: "channel \<Rightarrow> int \<Rightarrow> bool" where
  "has_sufficient_sender_balance_for c amount = is_satisfied_by (HasSufficientBalance amount) c"

lemmas spec_defs = is_active_def IsHTLCActive_def is_expired_at_def IsTimelockExpired_def
  is_preimage_valid_def IsPreimageValid_def is_open_def IsChannelOpen_def
  has_sufficient_sender_balance_for_def HasSufficientBalance_def

section \<open>Operations\<close>

definition get_balance :: "channel \<Rightarrow> string \<Rightarrow> int" where
  "get_balance c node_alias =
     (if node_alias = sender_alias c then balance_sender_sat c
      else if node_alias = receiver_alias c then balance_receiver_sat c
      else 0)"

definition add_htlc :: "channel \<Rightarrow> htlc_contract \<Rightarrow> string option \<Rightarrow> channel res" where
  "add_htlc c htlc offerer_arg =
     (if \<not> is_open c then Inl ChannelStateError
      else
        let offerer = str_or offerer_arg (str_or (offerer_alias htlc) (sender_alias c));
            htlc = htlc\<lparr>offerer_alias := Some offerer\<rparr>;
            record_htlc = (\<lambda>c. c\<lparr>active_htlcs := dict_set (htlc_id htlc) htlc (active_htlcs c),
                                 sequence_number := sequence_number c + 1\<rparr>)
        in if offerer = sender_alias c then
             (if \<not> has_sufficient_sender_balance_for c (htlc_amount_sat htlc)
              then Inl InsufficientBalanceError
              else Inr (record_htlc
                (c\<lparr>balance_sender_sat := balance_sender_sat c - htlc_amount_sat htlc\<rparr>)))
           else if offerer = receiver_alias c then
             (if balance_receiver_sat c < htlc_amount_sat htlc
              then Inl InsufficientBalanceError
              else Inr (record_htlc
                (c\<lparr>balance_receiver_sat := balance_receiver_sat c - htlc_amount_sat htlc\<rparr>)))
           else Inl ChannelStateError)"

text \<open>\<open>del self.active_htlcs[htlc_id]\<close> and the sequence number, as both settlements end.\<close>

definition drop_htlc :: "string \<Rightarrow> channel \<Rightarrow> channel" where
  "drop_htlc hid c =
     c\<lparr>active_htlcs := dict_del hid (active_htlcs c), sequence_number := sequence_number c + 1\<rparr>"

text \<open>
  The settled HTLC object is marked and then removed from the dictionary; the marked object is the
  second component of the result, for the holders of other references to it.
\<close>

definition redeem_htlc :: "btclib \<Rightarrow> channel \<Rightarrow> string \<Rightarrow> string \<Rightarrow> (channel \<times> htlc_contract) res" where
  "redeem_htlc L c hid preimage_hex =
     (case dict_get (active_htlcs c) hid of
        None \<Rightarrow> Inl ChannelStateError
      | Some htlc \<Rightarrow>
          if \<not> is_active htlc then Inl ChannelStateError
          else if \<not> is_preimage_valid L htlc preimage_hex then Inl InvalidPreimageError
          else
            let htlc = htlc\<lparr>preimage := Some preimage_hex, settled := True, htlc_status := HTLC_SETTLED\<rparr>;
                offerer = str_or (offerer_alias htlc) (sender_alias c);
                c = (if offerer = sender_alias c
                     then c\<lparr>balance_receiver_sat := balance_receiver_sat c + htlc_amount_sat htlc\<rparr>
                     else c\<lparr>balance_sender_sat := balance_sender_sat c + htlc_amount_sat htlc\<rparr>)
            in Inr (drop_htlc hid c, htlc))"

definition refund_htlc :: "channel \<Rightarrow> string \<Rightarrow> int \<Rightarrow> (channel \<times> htlc_contract) res" where
  "refund_htlc c hid current_block_height =
     (case dict_get (active_htlcs c) hid of
        None \<Rightarrow> Inl ChannelStateError
      | Some htlc \<Rightarrow>
          if \<not> is_expired_at htlc current_block_height then Inl HTLCExpiredError
          else
            let htlc = htlc\<lparr>refunded := True, htlc_status := HTLC_REFUNDED\<rparr>;
                offerer = str_or (offerer_alias htlc) (sender_alias c);
                c = (if offerer = sender_alias c
                     then c\<lparr>balance_sender_sat := balance_sender_sat c + htlc_amount_sat htlc\<rparr>
                     else c\<lparr>balance_receiver_sat := balance_receiver_sat c + htlc_amount_sat htlc\<rparr>)
            in Inr (drop_htlc hid c, htlc))"

definition revoke_prior_state :: "channel \<Rightarrow> int \<Rightarrow> string \<Rightarrow> channel" where
  "revoke_prior_state c commitment_number secret_hex =
     c\<lparr>store := register_remote_secret commitment_number secret_hex (store c)\<rparr>"

definition verify_commitment_not_revoked :: "channel \<Rightarrow> int \<Rightarrow> unit res" where
  "verify_commitment_not_revoked c commitment_number =
     (if is_state_revoked (store c) commitment_number then Inl RevokedStateBroadcastError else Inr ())"

text \<open>The new channel and the dictionary of final balances, built key by key.\<close>

definition close_cooperatively :: "channel \<Rightarrow> channel \<times> (string, int) pydict" where
  "close_cooperatively c =
     (c\<lparr>channel_status := CH_SETTLED\<rparr>,
      dict_set (receiver_alias c) (balance_receiver_sat c)
        (dict_set (sender_alias c) (balance_sender_sat c) []))"

lemmas channel_ops = add_htlc_def redeem_htlc_def refund_htlc_def drop_htlc_def

section \<open>Value in a channel\<close>

text \<open>Everything the channel accounts for: both balances and the HTLCs in flight.\<close>

definition locked_sat :: "channel \<Rightarrow> int" where
  "locked_sat c = dict_sum htlc_amount_sat (active_htlcs c)"

definition total_sat :: "channel \<Rightarrow> int" where
  "total_sat c = balance_sender_sat c + balance_receiver_sat c + locked_sat c"

lemma total_add_htlc:
  assumes "add_htlc c h off = Inr c'" and "wf_dict (active_htlcs c)"
  shows "total_sat c' = total_sat c -
    (case dict_get (active_htlcs c) (htlc_id h) of None \<Rightarrow> 0 | Some g \<Rightarrow> htlc_amount_sat g)"
  using assms by (auto simp: add_htlc_def Let_def total_sat_def locked_sat_def dict_sum_set split: if_splits)

lemma total_redeem_htlc:
  assumes "redeem_htlc L c hid p = Inr (c', h)" and "wf_dict (active_htlcs c)"
  shows "total_sat c' = total_sat c"
  using assms
  by (auto simp: redeem_htlc_def drop_htlc_def Let_def total_sat_def locked_sat_def dict_sum_del
      split: if_splits option.splits)

lemma total_refund_htlc:
  assumes "refund_htlc c hid n = Inr (c', h)" and "wf_dict (active_htlcs c)"
  shows "total_sat c' = total_sat c"
  using assms
  by (auto simp: refund_htlc_def drop_htlc_def Let_def total_sat_def locked_sat_def dict_sum_del
      split: if_splits option.splits)

end
