(* ===== verification/Channel_Ledger.thy ===== *)
theory Channel_Ledger
  imports Channel
begin

text \<open>
  What the channel of the theory \<open>Channel\<close> promises: it implements a two-party escrow ledger
  (\<open>ledger\<close>, reached through \<open>abs_channel\<close>), and along every life of an open channel no satoshi is
  created or lost (\<open>channel_inv\<close>, \<open>channel_reachable\<close>).  The locale \<open>escrow\<close> is the contract other
  components rely on: operations that keep an invariant and a total; it is interpreted on the
  channel's operations as \<open>chan\<close>.
\<close>

section \<open>The abstract ledger\<close>

datatype party = Sender | Receiver

fun other :: "party \<Rightarrow> party" where
  "other Sender = Receiver"
| "other Receiver = Sender"

record ledger =
  avail :: "party \<Rightarrow> int"
  locked :: "string \<Rightarrow> (party \<times> int) option"

definition ledger_lock :: "party \<Rightarrow> string \<Rightarrow> int \<Rightarrow> ledger \<Rightarrow> ledger option" where
  "ledger_lock p k a l =
     (if a \<le> avail l p
      then Some (l\<lparr>avail := (avail l)(p := avail l p - a), locked := (locked l)(k \<mapsto> (p, a))\<rparr>)
      else None)"

definition ledger_pay :: "(party \<Rightarrow> party) \<Rightarrow> string \<Rightarrow> ledger \<Rightarrow> ledger option" where
  "ledger_pay to k l =
     (case locked l k of
        None \<Rightarrow> None
      | Some (p, a) \<Rightarrow>
          Some (l\<lparr>avail := (avail l)(to p := avail l (to p) + a), locked := (locked l)(k := None)\<rparr>))"

text \<open>A redeemed amount goes to the other party, a refunded one back to the party that locked it.\<close>

abbreviation "ledger_release \<equiv> ledger_pay other"
abbreviation "ledger_refund \<equiv> ledger_pay (\<lambda>p. p)"

definition party_of :: "channel \<Rightarrow> string \<Rightarrow> party" where
  "party_of c offerer = (if offerer = sender_alias c then Sender else Receiver)"

definition offerer_party :: "channel \<Rightarrow> htlc_contract \<Rightarrow> party" where
  "offerer_party c h = party_of c (str_or (offerer_alias h) (sender_alias c))"

definition abs_channel :: "channel \<Rightarrow> ledger" where
  "abs_channel c =
     \<lparr>avail = (\<lambda>p. case p of Sender \<Rightarrow> balance_sender_sat c | Receiver \<Rightarrow> balance_receiver_sat c),
      locked = (\<lambda>k. map_option (\<lambda>h. (offerer_party c h, htlc_amount_sat h)) (dict_get (active_htlcs c) k))\<rparr>"

definition offerer_of :: "channel \<Rightarrow> htlc_contract \<Rightarrow> string option \<Rightarrow> string" where
  "offerer_of c h off = str_or off (str_or (offerer_alias h) (sender_alias c))"

lemma str_or_same [simp]: "str_or (Some a) a = a"
  by (simp add: str_or_def)

lemma str_or_offerer_of: "offerer_of c h off = a \<Longrightarrow> str_or (Some a) (sender_alias c) = a"
  by (auto simp: offerer_of_def str_or_def split: option.splits if_splits)

section \<open>Each operation refines its ledger step\<close>

lemma add_htlc_refines:
  assumes "is_open c" and "offerer_of c h off \<in> {sender_alias c, receiver_alias c}"
  shows "ledger_lock (party_of c (offerer_of c h off)) (htlc_id h) (htlc_amount_sat h) (abs_channel c) =
    (case add_htlc c h off of Inl e \<Rightarrow> None | Inr c' \<Rightarrow> Some (abs_channel c'))"
  using assms
  by (auto simp: add_htlc_def Let_def ledger_lock_def abs_channel_def party_of_def offerer_party_def
      offerer_of_def [symmetric] str_or_offerer_of spec_defs fun_eq_iff split: party.splits)

lemma redeem_htlc_refines:
  assumes "redeem_htlc L c k p = Inr (c', h)"
  shows "ledger_release k (abs_channel c) = Some (abs_channel c')"
  using assms
  by (auto simp: redeem_htlc_def drop_htlc_def Let_def ledger_pay_def abs_channel_def party_of_def
      offerer_party_def fun_eq_iff split: option.splits if_splits party.splits)

lemma refund_htlc_refines:
  assumes "refund_htlc c k n = Inr (c', h)"
  shows "ledger_refund k (abs_channel c) = Some (abs_channel c')"
  using assms
  by (auto simp: refund_htlc_def drop_htlc_def Let_def ledger_pay_def abs_channel_def party_of_def
      offerer_party_def fun_eq_iff split: option.splits if_splits party.splits)

section \<open>Invariant\<close>

text \<open>
  An HTLC in flight is unsettled, carries a non-negative amount, is stored under its own id and was
  offered by one of the two parties.
\<close>

definition live_htlc :: "channel \<Rightarrow> string \<Rightarrow> htlc_contract \<Rightarrow> bool" where
  "live_htlc c k h \<longleftrightarrow> htlc_id h = k \<and> 0 \<le> htlc_amount_sat h \<and> is_active h \<and>
     (\<exists>a. offerer_alias h = Some a \<and> a \<in> {sender_alias c, receiver_alias c})"

definition channel_inv :: "channel \<Rightarrow> bool" where
  "channel_inv c \<longleftrightarrow> wf_dict (active_htlcs c) \<and> 0 \<le> balance_sender_sat c \<and> 0 \<le> balance_receiver_sat c \<and>
     (\<forall>k h. dict_get (active_htlcs c) k = Some h \<longrightarrow> live_htlc c k h)"

text \<open>
  The operations a peer may perform, and when one is admissible: an offered HTLC is fresh (its id is
  not in use), unsettled and not negative.  Nothing in \<open>add_htlc\<close> checks this.
\<close>

datatype channel_op =
    Offer htlc_contract "string option"
  | Redeem string string
  | Refund string int
  | Revoke int string

fun admissible :: "channel_op \<Rightarrow> channel \<Rightarrow> bool" where
  "admissible (Offer h off) c =
     (dict_get (active_htlcs c) (htlc_id h) = None \<and> 0 \<le> htlc_amount_sat h \<and> is_active h)"
| "admissible _ c = True"

fun channel_exec :: "btclib \<Rightarrow> channel_op \<Rightarrow> channel \<Rightarrow> channel res" where
  "channel_exec L (Offer h off) c = add_htlc c h off"
| "channel_exec L (Redeem k p) c = map_sum id fst (redeem_htlc L c k p)"
| "channel_exec L (Refund k n) c = map_sum id fst (refund_htlc c k n)"
| "channel_exec L (Revoke n s) c = Inr (revoke_prior_state c n s)"

fun_cases channel_exec_OfferE: "channel_exec L (Offer h off) c = Inr c'"
fun_cases channel_exec_RedeemE: "channel_exec L (Redeem k p) c = Inr c'"
fun_cases channel_exec_RefundE: "channel_exec L (Refund k n) c = Inr c'"

lemma map_sum_fst_eq_Inr: "map_sum id fst r = Inr c \<longleftrightarrow> (\<exists>h. r = Inr (c, h))"
  by (cases r) auto

text \<open>The parties and the capacity never change.\<close>

lemma add_htlc_frame:
  "add_htlc c h off = Inr c' \<Longrightarrow> sender_alias c' = sender_alias c \<and> receiver_alias c' = receiver_alias c
    \<and> capacity_sat c' = capacity_sat c \<and> channel_status c' = channel_status c \<and> store c' = store c"
  by (auto simp: add_htlc_def Let_def split: if_splits)

lemma redeem_htlc_frame:
  "redeem_htlc L c k p = Inr (c', h) \<Longrightarrow> sender_alias c' = sender_alias c
    \<and> receiver_alias c' = receiver_alias c \<and> capacity_sat c' = capacity_sat c
    \<and> channel_status c' = channel_status c \<and> store c' = store c"
  by (auto simp: redeem_htlc_def drop_htlc_def Let_def split: if_splits option.splits)

lemma refund_htlc_frame:
  "refund_htlc c k n = Inr (c', h) \<Longrightarrow> sender_alias c' = sender_alias c
    \<and> receiver_alias c' = receiver_alias c \<and> capacity_sat c' = capacity_sat c
    \<and> channel_status c' = channel_status c \<and> store c' = store c"
  by (auto simp: refund_htlc_def drop_htlc_def Let_def split: if_splits option.splits)

text \<open>One preservation lemma per operation.\<close>

lemma offerer_of_mem:
  "add_htlc c h off = Inr c' \<Longrightarrow> offerer_of c h off \<in> {sender_alias c, receiver_alias c}"
  by (auto simp: add_htlc_def Let_def offerer_of_def split: if_splits)

lemma add_htlc_active:
  "add_htlc c h off = Inr c' \<Longrightarrow>
    active_htlcs c' = dict_set (htlc_id h) (h\<lparr>offerer_alias := Some (offerer_of c h off)\<rparr>) (active_htlcs c)"
  by (auto simp: add_htlc_def Let_def offerer_of_def split: if_splits)

lemma add_htlc_balances:
  "add_htlc c h off = Inr c' \<Longrightarrow> 0 \<le> balance_sender_sat c \<Longrightarrow> 0 \<le> balance_receiver_sat c \<Longrightarrow>
    0 \<le> balance_sender_sat c' \<and> 0 \<le> balance_receiver_sat c'"
  by (auto simp: add_htlc_def Let_def spec_defs split: if_splits)

lemma add_htlc_inv:
  assumes "channel_inv c" and "admissible (Offer h off) c" and "add_htlc c h off = Inr c'"
  shows "channel_inv c'"
proof -
  note frame = add_htlc_frame [OF assms(3)] and act = add_htlc_active [OF assms(3)]
  have "live_htlc c' k g" if "dict_get (active_htlcs c') k = Some g" for k g
    using that assms(1,2) offerer_of_mem [OF assms(3)] frame
    by (auto simp: act channel_inv_def live_htlc_def spec_defs split: if_splits)
  then show ?thesis
    using assms(1) add_htlc_balances [OF assms(3)] by (simp add: channel_inv_def act)
qed

lemma settled_htlc_inv:
  assumes "channel_inv c" and "dict_get (active_htlcs c) k = Some h"
    and "active_htlcs c' = dict_del k (active_htlcs c)"
    and "sender_alias c' = sender_alias c" and "receiver_alias c' = receiver_alias c"
    and "balance_sender_sat c' \<in> {balance_sender_sat c, balance_sender_sat c + htlc_amount_sat h}"
    and "balance_receiver_sat c' \<in> {balance_receiver_sat c, balance_receiver_sat c + htlc_amount_sat h}"
  shows "channel_inv c'"
proof -
  have "0 \<le> htlc_amount_sat h"
    using assms(1,2) by (auto simp: channel_inv_def live_htlc_def)
  with assms show ?thesis
    by (auto simp: channel_inv_def live_htlc_def split: if_splits)
qed

lemma redeem_htlc_inv:
  assumes "channel_inv c" and "redeem_htlc L c k p = Inr (c', h')"
  shows "channel_inv c'"
proof -
  obtain h where h: "dict_get (active_htlcs c) k = Some h"
    using assms(2) by (auto simp: redeem_htlc_def split: option.splits)
  show ?thesis
    using assms(2) h redeem_htlc_frame [OF assms(2)]
    by (intro settled_htlc_inv [OF assms(1) h])
      (auto simp: redeem_htlc_def drop_htlc_def Let_def split: if_splits)
qed

lemma refund_htlc_inv:
  assumes "channel_inv c" and "refund_htlc c k n = Inr (c', h')"
  shows "channel_inv c'"
proof -
  obtain h where h: "dict_get (active_htlcs c) k = Some h"
    using assms(2) by (auto simp: refund_htlc_def split: option.splits)
  show ?thesis
    using assms(2) h refund_htlc_frame [OF assms(2)]
    by (intro settled_htlc_inv [OF assms(1) h])
      (auto simp: refund_htlc_def drop_htlc_def Let_def split: if_splits)
qed

lemma revoke_prior_state_inv [simp]: "channel_inv (revoke_prior_state c n s) = channel_inv c"
  by (simp add: channel_inv_def revoke_prior_state_def live_htlc_def)

lemma revoke_prior_state_total [simp]: "total_sat (revoke_prior_state c n s) = total_sat c"
  by (simp add: total_sat_def locked_sat_def revoke_prior_state_def)

lemma channel_exec_inv:
  "channel_inv c \<Longrightarrow> admissible op c \<Longrightarrow> channel_exec L op c = Inr c' \<Longrightarrow> channel_inv c'"
  by (cases op) (auto simp: map_sum_fst_eq_Inr intro: add_htlc_inv redeem_htlc_inv refund_htlc_inv)

lemma channel_exec_total:
  assumes "channel_inv c" and "admissible op c" and "channel_exec L op c = Inr c'"
  shows "total_sat c' = total_sat c"
proof -
  have "wf_dict (active_htlcs c)"
    using assms(1) by (simp add: channel_inv_def)
  with assms(2,3) show ?thesis
    by (cases op) (auto simp: map_sum_fst_eq_Inr total_add_htlc total_redeem_htlc total_refund_htlc)
qed

section \<open>The escrow contract\<close>

text \<open>
  What a client of the operations relies on: each admissible operation keeps the invariant and the
  total.  A run stops at the first exception; the run of a list of operations that are admissible
  when they are reached keeps both.
\<close>

locale escrow =
  fixes exec :: "'op \<Rightarrow> 's \<Rightarrow> 'e + 's"
    and ok :: "'op \<Rightarrow> 's \<Rightarrow> bool"
    and inv :: "'s \<Rightarrow> bool"
    and total :: "'s \<Rightarrow> int"
  assumes exec_inv: "inv s \<Longrightarrow> ok op s \<Longrightarrow> exec op s = Inr t \<Longrightarrow> inv t"
    and exec_total: "inv s \<Longrightarrow> ok op s \<Longrightarrow> exec op s = Inr t \<Longrightarrow> total t = total s"
begin

fun run_ok :: "'op list \<Rightarrow> 's \<Rightarrow> bool" where
  "run_ok [] s = True"
| "run_ok (op # ops) s = (ok op s \<and> (\<forall>t. exec op s = Inr t \<longrightarrow> run_ok ops t))"

lemma run_conserves:
  "fold_res exec ops s = Inr t \<Longrightarrow> inv s \<Longrightarrow> run_ok ops s \<Longrightarrow> inv t \<and> total t = total s"
proof (induction ops arbitrary: s)
  case Nil
  then show ?case by simp
next
  case (Cons op ops)
  then obtain u where u: "exec op s = Inr u" "fold_res exec ops u = Inr t"
    by (auto simp: rbind_eq_Inr)
  with Cons.prems have "inv u" "total u = total s" "run_ok ops u"
    using exec_inv exec_total by auto
  with Cons.IH [OF u(2)] show ?case by simp
qed

end

interpretation chan: escrow "channel_exec L" admissible channel_inv total_sat for L
  by unfold_locales (auto intro: channel_exec_inv channel_exec_total)

section \<open>The life of a channel\<close>

text \<open>
  From the channel \<open>Node.open_channel\<close> creates: HTLCs are offered, redeemed and refunded, prior
  states revoked, until the channel is closed cooperatively.
\<close>

definition opened :: "channel \<Rightarrow> bool" where
  "opened c \<longleftrightarrow> channel_status c = CH_OPEN \<and> active_htlcs c = [] \<and> 0 \<le> capacity_sat c \<and>
     balance_sender_sat c = capacity_sat c \<and> balance_receiver_sat c = 0"

inductive channel_step :: "btclib \<Rightarrow> channel \<Rightarrow> channel \<Rightarrow> bool" for L where
  operate: "admissible op c \<Longrightarrow> channel_exec L op c = Inr c' \<Longrightarrow> channel_step L c c'"
| close: "channel_step L c (fst (close_cooperatively c))"

inductive channel_reachable :: "btclib \<Rightarrow> channel \<Rightarrow> bool" for L where
  start: "opened c \<Longrightarrow> channel_reachable L c"
| step: "channel_reachable L c \<Longrightarrow> channel_step L c c' \<Longrightarrow> channel_reachable L c'"

inductive_cases channel_stepE: "channel_step L c c'"

lemma opened_inv: "opened c \<Longrightarrow> channel_inv c \<and> total_sat c = capacity_sat c"
  by (simp add: opened_def channel_inv_def total_sat_def locked_sat_def)

lemma channel_exec_capacity: "channel_exec L op c = Inr c' \<Longrightarrow> capacity_sat c' = capacity_sat c"
  by (cases op) (auto simp: map_sum_fst_eq_Inr revoke_prior_state_def
      dest: add_htlc_frame redeem_htlc_frame refund_htlc_frame)

lemma close_inv [simp]:
  "channel_inv (fst (close_cooperatively c)) = channel_inv c"
  "total_sat (fst (close_cooperatively c)) = total_sat c"
  "capacity_sat (fst (close_cooperatively c)) = capacity_sat c"
  by (simp_all add: close_cooperatively_def channel_inv_def live_htlc_def total_sat_def locked_sat_def)

lemma channel_step_inv:
  "channel_step L c c' \<Longrightarrow> channel_inv c \<and> total_sat c = capacity_sat c \<Longrightarrow>
    channel_inv c' \<and> total_sat c' = capacity_sat c'"
  by (elim channel_stepE) (auto simp: chan.exec_total channel_exec_capacity intro: chan.exec_inv)

lemma channel_reachable_inv:
  "channel_reachable L c \<Longrightarrow> channel_inv c \<and> total_sat c = capacity_sat c"
proof (induction rule: channel_reachable.induct)
  case (start c)
  then show ?case by (rule opened_inv)
next
  case (step c c')
  then show ?case using channel_step_inv by blast
qed

lemma locked_nonneg:
  assumes "channel_inv c"
  shows "0 \<le> locked_sat c"
  unfolding locked_sat_def
proof (rule dict_sum_nonneg)
  fix k h
  assume "(k, h) \<in> set (active_htlcs c)"
  with assms have "dict_get (active_htlcs c) k = Some h"
    by (simp add: channel_inv_def dict_get_iff)
  with assms show "0 \<le> htlc_amount_sat h"
    by (auto simp: channel_inv_def live_htlc_def)
qed

section \<open>Properties\<close>

text \<open>A concrete channel and HTLC for the witnesses: Alice funds 100, and offers 30 to Bob.\<close>

definition alice_bob :: channel where
  "alice_bob =
     \<lparr>channel_id = ''chan'', sender_alias = ''Alice'', receiver_alias = ''Bob'',
      sender_pubkey_hex = ''02'', receiver_pubkey_hex = ''03'', capacity_sat = 100,
      balance_sender_sat = 100, balance_receiver_sat = 0, channel_status = CH_OPEN,
      funding_txid = None, funding_vout = None, active_htlcs = [], sequence_number = 0,
      store = empty_store\<rparr>"

definition offer_30 :: htlc_contract where
  "offer_30 =
     \<lparr>htlc_id = ''h1'', payment_hash = ''aa'', htlc_amount_sat = 30, htlc_locktime = 500,
      offerer_alias = None, preimage = None, settled = False, refunded = False,
      htlc_status = HTLC_OFFERED\<rparr>"

definition alice_bob_30 :: channel where
  "alice_bob_30 = alice_bob\<lparr>balance_sender_sat := 70, sequence_number := 1,
     active_htlcs := [(''h1'', offer_30\<lparr>offerer_alias := Some ''Alice''\<rparr>)]\<rparr>"

lemmas example_defs = alice_bob_def offer_30_def alice_bob_30_def

lemma add_offer_30: "add_htlc alice_bob offer_30 None = Inr alice_bob_30"
  by (simp add: add_htlc_def Let_def example_defs spec_defs)

lemma refund_offer_30:
  "\<exists>h. refund_htlc alice_bob_30 ''h1'' 500 = Inr (alice_bob\<lparr>sequence_number := 2\<rparr>, h)"
  by (simp add: refund_htlc_def drop_htlc_def Let_def example_defs spec_defs)

lemma alice_bob_30_reachable: "channel_reachable L alice_bob_30"
proof (rule channel_reachable.step [OF channel_reachable.start])
  show "opened alice_bob"
    by (simp add: opened_def alice_bob_def)
  show "channel_step L alice_bob alice_bob_30"
    using add_offer_30 by (intro channel_step.operate [of "Offer offer_30 None"])
      (auto simp: example_defs spec_defs)
qed

text \<open>
  Property C1: in every state a channel can reach by admissible operations, both balances are
  non-negative, and the two balances and the HTLCs in flight add up to the funded capacity, so no balance
  exceeds it.  The operations are offers, redemptions, refunds, revocations and closing; an offer is
  admissible if the HTLC is unsettled, its amount is not negative and its id is not in flight on the channel.
  \<open>add_htlc\<close> checks none of the three: an offer of a negative amount or over an id in flight breaks the
  property.
\<close>

theorem channel_conserves_value:
  assumes "channel_reachable L c"
  shows "0 \<le> balance_sender_sat c \<and> 0 \<le> balance_receiver_sat c \<and>
    balance_sender_sat c + balance_receiver_sat c + locked_sat c = capacity_sat c \<and>
    balance_sender_sat c \<le> capacity_sat c \<and> balance_receiver_sat c \<le> capacity_sat c"
proof -
  have inv: "channel_inv c" and total: "total_sat c = capacity_sat c"
    using channel_reachable_inv [OF assms] by simp_all
  have "0 \<le> locked_sat c"
    using inv by (rule locked_nonneg)
  with inv total show ?thesis
    by (simp add: channel_inv_def total_sat_def)
qed

theorem channel_conserves_value_witness:
  "(\<forall>L. channel_reachable L alice_bob_30) \<and>
    balance_sender_sat alice_bob_30 + balance_receiver_sat alice_bob_30 + locked_sat alice_bob_30 =
      capacity_sat alice_bob_30"
  using channel_conserves_value [OF alice_bob_30_reachable] alice_bob_30_reachable by blast

text \<open>
  Property C2: on an open channel, \<open>add_htlc\<close> by one of the two parties is the ledger's lock: it
  succeeds exactly when that party's balance covers the amount, and then moves the amount from the
  balance into the HTLC of that id.
\<close>

theorem add_htlc_implements_lock:
  assumes "channel_status c = CH_OPEN" and "offerer_of c h off \<in> {sender_alias c, receiver_alias c}"
  shows "(case add_htlc c h off of Inl e \<Rightarrow> None | Inr c' \<Rightarrow> Some (abs_channel c')) =
    ledger_lock (party_of c (offerer_of c h off)) (htlc_id h) (htlc_amount_sat h) (abs_channel c)"
proof -
  have "is_open c"
    using assms(1) by (simp add: spec_defs)
  then show ?thesis
    using add_htlc_refines assms(2) by metis
qed

theorem add_htlc_implements_lock_witness:
  "channel_status alice_bob = CH_OPEN \<and>
    offerer_of alice_bob offer_30 None \<in> {sender_alias alice_bob, receiver_alias alice_bob} \<and>
    ledger_lock (party_of alice_bob (offerer_of alice_bob offer_30 None)) (htlc_id offer_30)
      (htlc_amount_sat offer_30) (abs_channel alice_bob) = Some (abs_channel alice_bob_30)"
proof -
  have h: "channel_status alice_bob = CH_OPEN"
    "offerer_of alice_bob offer_30 None \<in> {sender_alias alice_bob, receiver_alias alice_bob}"
    by (simp_all add: example_defs offerer_of_def)
  show ?thesis
    using add_htlc_implements_lock [OF h] h add_offer_30 by simp
qed

text \<open>
  Property C3: \<open>redeem_htlc\<close> is the ledger's release and \<open>refund_htlc\<close> its refund.  Redeeming succeeds
  exactly when the HTLC is in flight and the text given is hexadecimal with the payment hash as its
  SHA-256, and then pays the counterparty of the offerer; refunding succeeds exactly when the HTLC is
  in flight and its locktime is reached, and then pays the offerer back.
\<close>

theorem settlements_implement_ledger:
  assumes "channel_inv c"
  shows "(case redeem_htlc L c k p of Inl e \<Rightarrow> None | Inr (c', h) \<Rightarrow> Some (abs_channel c')) =
      (if \<exists>h x. dict_get (active_htlcs c) k = Some h \<and> lib_x L p = Some x \<and>
            lib_b2x L (sha256 x) = payment_hash h
       then ledger_release k (abs_channel c) else None) \<and>
    (case refund_htlc c k n of Inl e \<Rightarrow> None | Inr (c', h) \<Rightarrow> Some (abs_channel c')) =
      (if \<exists>h. dict_get (active_htlcs c) k = Some h \<and> htlc_locktime h \<le> n
       then ledger_refund k (abs_channel c) else None)"
proof (intro conjI)
  have live: "is_active h" if "dict_get (active_htlcs c) k = Some h" for h
    using assms that by (auto simp: channel_inv_def live_htlc_def)
  show "(case redeem_htlc L c k p of Inl e \<Rightarrow> None | Inr (c', h) \<Rightarrow> Some (abs_channel c')) =
      (if \<exists>h x. dict_get (active_htlcs c) k = Some h \<and> lib_x L p = Some x \<and>
            lib_b2x L (sha256 x) = payment_hash h
       then ledger_release k (abs_channel c) else None)"
  proof (cases "redeem_htlc L c k p")
    case (Inl e)
    then show ?thesis
      using live by (auto simp: redeem_htlc_def spec_defs Let_def split: option.splits if_splits)
  next
    case (Inr r)
    then obtain c' h where r: "redeem_htlc L c k p = Inr (c', h)" by (cases r) simp
    have "\<exists>h x. dict_get (active_htlcs c) k = Some h \<and> lib_x L p = Some x \<and>
        lib_b2x L (sha256 x) = payment_hash h"
      using r by (auto simp: redeem_htlc_def spec_defs Let_def split: option.splits if_splits)
    with redeem_htlc_refines [OF r] r show ?thesis by simp
  qed
  show "(case refund_htlc c k n of Inl e \<Rightarrow> None | Inr (c', h) \<Rightarrow> Some (abs_channel c')) =
      (if \<exists>h. dict_get (active_htlcs c) k = Some h \<and> htlc_locktime h \<le> n
       then ledger_refund k (abs_channel c) else None)"
  proof (cases "refund_htlc c k n")
    case (Inl e)
    then show ?thesis
      by (auto simp: refund_htlc_def spec_defs Let_def split: option.splits if_splits)
  next
    case (Inr r)
    then obtain c' h where r: "refund_htlc c k n = Inr (c', h)" by (cases r) simp
    have "\<exists>h. dict_get (active_htlcs c) k = Some h \<and> htlc_locktime h \<le> n"
      using r by (auto simp: refund_htlc_def spec_defs Let_def split: option.splits if_splits)
    with refund_htlc_refines [OF r] r show ?thesis by simp
  qed
qed

theorem settlements_implement_ledger_witness:
  "channel_inv alice_bob_30 \<and>
    ledger_refund ''h1'' (abs_channel alice_bob_30) = Some (abs_channel (alice_bob\<lparr>sequence_number := 2\<rparr>))"
proof -
  have inv: "channel_inv alice_bob_30"
    using channel_reachable_inv [OF alice_bob_30_reachable] by simp
  have "\<exists>h. dict_get (active_htlcs alice_bob_30) ''h1'' = Some h \<and> htlc_locktime h \<le> 500"
    by (simp add: example_defs)
  then show ?thesis
    using settlements_implement_ledger [OF inv, where k = "''h1''" and n = 500] inv refund_offer_30
    by auto
qed

text \<open>Running a list of operations, stopping at the first exception.\<close>

abbreviation channel_run :: "btclib \<Rightarrow> channel_op list \<Rightarrow> channel \<Rightarrow> channel res" where
  "channel_run L \<equiv> fold_res (channel_exec L)"

fun offers :: "string \<Rightarrow> channel_op \<Rightarrow> bool" where
  "offers k (Offer h off) = (htlc_id h = k)"
| "offers k _ = False"

lemma channel_exec_keeps_absent:
  "channel_exec L op c = Inr c' \<Longrightarrow> \<not> offers k op \<Longrightarrow> dict_get (active_htlcs c) k = None \<Longrightarrow>
    dict_get (active_htlcs c') k = None"
  by (cases op) (auto simp: map_sum_fst_eq_Inr add_htlc_active redeem_htlc_def refund_htlc_def
      drop_htlc_def revoke_prior_state_def Let_def split: option.splits if_splits)

lemma settled_absent:
  "redeem_htlc L c k p = Inr (c', h) \<Longrightarrow> dict_get (active_htlcs c') k = None"
  "refund_htlc c k n = Inr (c', h) \<Longrightarrow> dict_get (active_htlcs c') k = None"
  by (auto simp: redeem_htlc_def refund_htlc_def drop_htlc_def Let_def split: option.splits if_splits)

text \<open>
  Property C4: an HTLC is settled at most once.  After it is redeemed or refunded, and whatever
  operations follow that do not offer its id again, redeeming and refunding it both raise
  \<open>ChannelStateError\<close>.
\<close>

theorem htlc_settles_once:
  assumes "(\<exists>h. redeem_htlc L c k p = Inr (c', h)) \<or> (\<exists>h. refund_htlc c k n = Inr (c', h))"
    and "channel_run L ops c' = Inr d" and "list_all (\<lambda>op. \<not> offers k op) ops"
  shows "redeem_htlc L d k q = Inl ChannelStateError \<and> refund_htlc d k m = Inl ChannelStateError"
proof -
  have "dict_get (active_htlcs c') k = None"
    using assms(1) settled_absent by blast
  then have "dict_get (active_htlcs d) k = None"
  proof (rule fold_res_invariant [OF assms(2), where P = "\<lambda>c. dict_get (active_htlcs c) k = None"])
    fix op s t
    assume "op \<in> set ops"
    then have "\<not> offers k op"
      using assms(3) by (simp add: list_all_iff)
    then show "dict_get (active_htlcs s) k = None \<Longrightarrow> channel_exec L op s = Inr t \<Longrightarrow>
        dict_get (active_htlcs t) k = None"
      using channel_exec_keeps_absent by blast
  qed
  then show ?thesis
    by (simp add: redeem_htlc_def refund_htlc_def)
qed

theorem htlc_settles_once_witness:
  "\<forall>L q m. redeem_htlc L (alice_bob\<lparr>sequence_number := 2\<rparr>) ''h1'' q = Inl ChannelStateError \<and>
    refund_htlc (alice_bob\<lparr>sequence_number := 2\<rparr>) ''h1'' m = Inl ChannelStateError"
  using htlc_settles_once [where ops = "[]", OF disjI2 [OF refund_offer_30]] by simp

lemma channel_exec_store:
  assumes "channel_exec L op c = Inr c'"
  shows "store c' = (case op of Revoke n s \<Rightarrow> register_remote_secret n s (store c) | _ \<Rightarrow> store c)"
proof (cases op)
  case (Offer h off)
  then show ?thesis using assms add_htlc_frame by simp
next
  case (Redeem k p)
  then show ?thesis using assms redeem_htlc_frame by (auto simp: map_sum_fst_eq_Inr)
next
  case (Refund k n)
  then show ?thesis using assms refund_htlc_frame by (auto simp: map_sum_fst_eq_Inr)
next
  case (Revoke n s)
  then show ?thesis using assms by (auto simp: revoke_prior_state_def)
qed

lemma channel_exec_revoked:
  assumes "channel_exec L op c = Inr c'"
  shows "is_state_revoked (store c') n = (is_state_revoked (store c) n \<or> (\<exists>s. op = Revoke n s))"
  by (cases op) (auto simp: channel_exec_store [OF assms] is_state_revoked_iff)

lemma channel_run_revoked:
  "channel_run L ops c = Inr d \<Longrightarrow>
    is_state_revoked (store d) n = (is_state_revoked (store c) n \<or> (\<exists>s. Revoke n s \<in> set ops))"
proof (induction ops arbitrary: c)
  case Nil
  then show ?case by simp
next
  case (Cons op ops)
  then obtain e where e: "channel_exec L op c = Inr e" "channel_run L ops e = Inr d"
    by (auto simp: rbind_eq_Inr)
  show ?case
    using Cons.IH [OF e(2)] channel_exec_revoked [OF e(1), of n] by auto
qed

text \<open>
  Property C5: a commitment is refused for broadcast from the moment its secret is registered, through
  every later operation, and no other commitment is: after a run of operations, verifying commitment
  \<open>n\<close> raises \<open>RevokedStateBroadcastError\<close> exactly when it was revoked before or in the run.
\<close>


theorem revoked_states_stay_refused:
  assumes "channel_run L ops c = Inr d"
  shows "verify_commitment_not_revoked d n =
    (if (\<exists>s. dict_get (remote_revealed_secrets (store c)) n = Some s) \<or> (\<exists>s. Revoke n s \<in> set ops)
     then Inl RevokedStateBroadcastError else Inr ())"
  using channel_run_revoked [OF assms, of n]
  by (auto simp: verify_commitment_not_revoked_def is_state_revoked_iff get_revocation_secret_def)

theorem revoked_states_stay_refused_witness:
  "\<exists>d. channel_run undefined [Offer offer_30 None, Revoke 1 ''ab'', Refund ''h1'' 500] alice_bob = Inr d \<and>
    verify_commitment_not_revoked d 1 = Inl RevokedStateBroadcastError \<and>
    verify_commitment_not_revoked d 2 = Inr ()"
proof -
  let ?ops = "[Offer offer_30 None, Revoke 1 ''ab'', Refund ''h1'' 500]"
  obtain d where d: "channel_run undefined ?ops alice_bob = Inr d"
    using add_offer_30
    by (simp add: rbind_eq_Inr refund_htlc_def revoke_prior_state_def drop_htlc_def Let_def example_defs spec_defs)
  show ?thesis
    using revoked_states_stay_refused [OF d] d by (auto simp: alice_bob_def empty_store_def)
qed

text \<open>
  Offering an HTLC whose id is already in flight overwrites the first one: the channel
  then accounts for less than before, by exactly the first HTLC's amount, which no operation can
  bring back (\<open>channel_conserves_value\<close> therefore asks for fresh ids).
\<close>

theorem reused_htlc_id_loses_value:
  assumes "wf_dict (active_htlcs c)" and "dict_get (active_htlcs c) (htlc_id h) = Some g"
    and "add_htlc c h off = Inr c'"
  shows "total_sat c' = total_sat c - htlc_amount_sat g"
  using total_add_htlc [OF assms(3,1)] assms(2) by simp

theorem reused_htlc_id_loses_value_witness:
  "\<exists>c'. add_htlc alice_bob_30 offer_30 None = Inr c' \<and> total_sat alice_bob_30 = 100 \<and> total_sat c' = 70"
proof -
  obtain c' where c': "add_htlc alice_bob_30 offer_30 None = Inr c'"
    by (simp add: add_htlc_def Let_def example_defs spec_defs)
  have "total_sat c' = total_sat alice_bob_30 - 30"
    using reused_htlc_id_loses_value [OF _ _ c', of "offer_30\<lparr>offerer_alias := Some ''Alice''\<rparr>"]
    by (simp add: example_defs wf_dict_def)
  moreover have "total_sat alice_bob_30 = 100"
    by (simp add: total_sat_def locked_sat_def dict_sum_def example_defs)
  ultimately show ?thesis using c' by simp
qed

end
