(* ===== verification/Script_Codec.thy ===== *)
theory Script_Codec
  imports Bitcoin_Lib
begin

text \<open>
  What the package relies on of \<open>CScript\<close>: iterating over a script built from a list of elements gives
  the elements back, with integers normalised (\<open>cook\<close>).  This is the law of the locale \<open>script_lib\<close>.
  The wire format of Bitcoin scripts (\<open>encode_script\<close>, \<open>decode_script\<close>) satisfies it, and
  \<open>wire_lib\<close>, a library record over that format, is the instance the witnesses run on: its hashes
  other than SHA-256 and its signatures are stand-ins that satisfy the laws the package relies on.
\<close>

section \<open>Script numbers\<close>

text \<open>\<open>bn2vch\<close>: little-endian magnitude, with the sign in the top bit of the last byte.\<close>

fun magnitude :: "nat \<Rightarrow> bytes" where
  "magnitude n = (if n = 0 then [] else word_of_nat (n mod 256) # magnitude (n div 256))"

declare magnitude.simps [simp del]

definition vch :: "int \<Rightarrow> bytes" where
  "vch i =
     (let m = magnitude (nat \<bar>i\<bar>)
      in if m = [] then []
         else if 128 \<le> last m then m @ [if i < 0 then 128 else 0]
         else if i < 0 then butlast m @ [last m OR 128]
         else m)"

lemma uint_le_magnitude [simp]: "uint_le (magnitude n) = int n"
proof (induction n rule: magnitude.induct)
  case (1 n)
  show ?case
  proof (cases "n = 0")
    case True
    then show ?thesis by (subst magnitude.simps) simp
  next
    case False
    have "uint (word_of_nat (n mod 256) :: byte) = int (n mod 256)"
      by (simp add: unsigned_of_nat take_bit_eq_mod zmod_int)
    moreover have "int (n mod 256) + 256 * int (n div 256) = int n"
      by (metis mod_mult_div_eq of_nat_add of_nat_mult of_nat_numeral)
    ultimately show ?thesis
      using False 1 by (subst magnitude.simps) simp
  qed
qed

lemma magnitude_eq_Nil [simp]: "magnitude n = [] \<longleftrightarrow> n = 0"
  by (subst magnitude.simps) simp

lemma uint_le_append: "uint_le (xs @ ys) = uint_le xs + 256 ^ length xs * uint_le ys"
  by (induction xs) (simp_all add: algebra_simps)

lemma uint_le_half:
  assumes "bs \<noteq> []" and "last bs < 128"
  shows "uint_le bs < 2 ^ (8 * length bs - 1)"
proof -
  obtain xs b where bs: "bs = xs @ [b]"
    using assms(1) by (metis append_butlast_last_id)
  have "uint b \<le> 127"
    using assms(2) bs by (simp add: word_less_alt)
  then have "(256 :: int) ^ length xs * uint b \<le> 256 ^ length xs * 127"
    by (intro mult_left_mono) simp_all
  moreover have "uint_le bs = uint_le xs + 256 ^ length xs * uint b"
    by (simp add: bs uint_le_append)
  ultimately have "uint_le bs < 256 ^ length xs * 128"
    using uint_le_less [of xs] by linarith
  also have "(256 :: int) ^ length xs * 128 = 2 ^ (8 * length bs - 1)"
    by (simp add: bs power_add power_mult)
  finally show ?thesis .
qed

text \<open>A non-negative script number is read back by \<open>int.from_bytes(_, "little", signed=True)\<close>.\<close>

lemma sint_le_vch [simp]:
  assumes "0 \<le> i"
  shows "sint_le (vch i) = i"
proof (cases "i = 0")
  case True
  then show ?thesis by (simp add: vch_def sint_le_def)
next
  case False
  let ?m = "magnitude (nat i)"
  have m: "?m \<noteq> []" "uint_le ?m = i"
    using assms False by simp_all
  have "sint_le (?m @ [0]) = i"
    using m uint_le_half [of "?m @ [0]"] by (simp add: sint_le_eq_uint_le uint_le_append)
  moreover have "sint_le ?m = i" if "\<not> 128 \<le> last ?m"
    using that m uint_le_half [of ?m] by (simp add: sint_le_eq_uint_le)
  ultimately show ?thesis
    using assms m by (simp add: vch_def Let_def)
qed

section \<open>The law of \<open>CScript\<close>\<close>

text \<open>
  What iteration yields for an element the constructor was given: \<open>OP_0\<close> to \<open>OP_16\<close> and the integers
  \<open>0\<close> to \<open>16\<close> become integers, \<open>-1\<close> is \<open>OP_1NEGATE\<close>, any other integer is a push of its script
  number, and the push of no bytes is \<open>OP_0\<close>.
\<close>

fun cook :: "script_item \<Rightarrow> script_item" where
  "cook (Op c) = (if c = OP_0 then Num 0 else if OP_1 \<le> c \<and> c \<le> OP_16 then Num (int c - 80) else Op c)"
| "cook (Num i) =
     (if 0 \<le> i \<and> i \<le> 16 then Num i else if i = -1 then Op OP_1NEGATE else Push (vch i))"
| "cook (Push b) = (if b = [] then Num 0 else Push b)"

text \<open>Elements a script can be built from: real opcodes, and pushes below 64 KiB.\<close>

fun wf_item :: "script_item \<Rightarrow> bool" where
  "wf_item (Op c) = (c = OP_0 \<or> (OP_1NEGATE \<le> c \<and> c < 256))"
| "wf_item (Num i) = (length (vch i) < 65536)"
| "wf_item (Push b) = (length b < 65536)"

locale script_lib =
  fixes L :: btclib
  assumes iter_cscript: "list_all wf_item items \<Longrightarrow>
    lib_script_iter L (lib_cscript L items) = Some (map cook items)"

section \<open>The wire format\<close>

definition encode_push :: "bytes \<Rightarrow> bytes" where
  "encode_push d =
     (let n = length d
      in if n < 76 then word_of_nat n # d
         else if n < 256 then 76 # word_of_nat n # d
         else 77 # le_digits 2 (int n) @ d)"

fun encode_item :: "script_item \<Rightarrow> bytes" where
  "encode_item (Op c) = [word_of_nat c]"
| "encode_item (Num i) =
     (if i = 0 then [0] else if 1 \<le> i \<and> i \<le> 16 then [word_of_int (i + 80)]
      else if i = -1 then [79] else encode_push (vch i))"
| "encode_item (Push b) = encode_push b"

definition encode_script :: "script_item list \<Rightarrow> bytes" where
  "encode_script items = concat (map encode_item items)"

function decode_script :: "bytes \<Rightarrow> script_item list option" where
  "decode_script [] = Some []"
| "decode_script (b # bs) =
     (let c = unat b
      in if c = 0 then map_option ((#) (Num 0)) (decode_script bs)
         else if c < 76 then
           (if length bs < c then None
            else map_option ((#) (Push (take c bs))) (decode_script (drop c bs)))
         else if c = 76 then
           (case bs of [] \<Rightarrow> None
            | n # ds \<Rightarrow>
                (if length ds < unat n then None
                 else map_option ((#) (Push (take (unat n) ds))) (decode_script (drop (unat n) ds))))
         else if c = 77 then
           (let n = nat (uint_le (take 2 bs)); ds = drop 2 bs
            in if length bs < 2 \<or> length ds < n then None
               else map_option ((#) (Push (take n ds))) (decode_script (drop n ds)))
         else if c = 78 then
           (let n = nat (uint_le (take 4 bs)); ds = drop 4 bs
            in if length bs < 4 \<or> length ds < n then None
               else map_option ((#) (Push (take n ds))) (decode_script (drop n ds)))
         else if 81 \<le> c \<and> c \<le> 96 then map_option ((#) (Num (int c - 80))) (decode_script bs)
         else map_option ((#) (Op c)) (decode_script bs))"
  by pat_completeness auto
termination
  by (relation "measure length") auto

declare decode_script.simps (2) [simp del]

lemma unat_byte_of_nat: "n < 256 \<Longrightarrow> unat (word_of_nat n :: byte) = n"
  by (simp add: unsigned_of_nat take_bit_eq_mod)

lemma decode_encode_push:
  assumes "d \<noteq> []" and "length d < 65536"
  shows "decode_script (encode_push d @ rest) = map_option ((#) (Push d)) (decode_script rest)"
proof -
  consider "length d < 76" | "76 \<le> length d" "length d < 256" | "256 \<le> length d"
    by linarith
  then show ?thesis
  proof cases
    case 1
    then show ?thesis
      using assms by (simp add: encode_push_def Let_def decode_script.simps(2) unat_byte_of_nat)
  next
    case 2
    then show ?thesis
      using assms by (simp add: encode_push_def Let_def decode_script.simps(2) unat_byte_of_nat)
  next
    case 3
    have "uint_le (le_digits 2 (int (length d))) = int (length d)"
      using assms(2) by (intro uint_le_digits_id) simp_all
    with 3 show ?thesis
      using assms by (simp add: encode_push_def Let_def decode_script.simps(2))
  qed
qed

lemma encode_push_Nil: "decode_script (encode_push [] @ rest) = map_option ((#) (Num 0)) (decode_script rest)"
  by (simp add: encode_push_def decode_script.simps(2))

lemma vch_eq_Nil: "vch i = [] \<longleftrightarrow> i = 0"
  by (auto simp: vch_def Let_def)

text \<open>One byte that is not a push: an opcode or a small integer.\<close>

lemma decode_op:
  assumes "unat b = 79 \<or> unat b = 80 \<or> 97 \<le> unat b"
  shows "decode_script (b # rest) = map_option ((#) (Op (unat b))) (decode_script rest)"
  unfolding decode_script.simps(2) [of b rest] Let_def using assms by auto

lemma decode_small:
  assumes "81 \<le> unat b" "unat b \<le> 96"
  shows "decode_script (b # rest) = map_option ((#) (Num (int (unat b) - 80))) (decode_script rest)"
  unfolding decode_script.simps(2) [of b rest] Let_def using assms by auto

lemma decode_zero: "decode_script (0 # rest) = map_option ((#) (Num 0)) (decode_script rest)"
  unfolding decode_script.simps(2) [of 0 rest] Let_def by simp

lemma decode_encode_item:
  assumes "wf_item x"
  shows "decode_script (encode_item x @ rest) = map_option ((#) (cook x)) (decode_script rest)"
proof (cases x)
  case (Op c)
  with assms have c: "c = 0 \<or> 79 \<le> c" "c < 256" by auto
  then have b: "unat (word_of_nat c :: byte) = c"
    by (simp add: unat_byte_of_nat)
  consider "c = 0" | "c = 79 \<or> c = 80 \<or> 97 \<le> c" | "81 \<le> c" "c \<le> 96"
    using c(1) by linarith
  then show ?thesis
  proof cases
    case 1
    with Op show ?thesis by (simp add: decode_zero)
  next
    case 2
    then have "cook x = Op c" using Op by auto
    with 2 b Op show ?thesis
      using decode_op [of "word_of_nat c" rest] by (simp only: encode_item.simps append.simps)
  next
    case 3
    then have "cook x = Num (int c - 80)" using Op by auto
    with 3 b Op show ?thesis
      using decode_small [of "word_of_nat c" rest] by (simp only: encode_item.simps append.simps)
  qed
next
  case (Num i)
  show ?thesis
  proof (cases "1 \<le> i \<and> i \<le> 16")
    case True
    then have "(word_of_int (i + 80) :: byte) = word_of_nat (nat (i + 80))" and "nat (i + 80) < 256"
      by (simp, linarith)
    then have "unat (word_of_int (i + 80) :: byte) = nat (i + 80)"
      by (metis unat_byte_of_nat)
    moreover have "encode_item x = [word_of_int (i + 80)]" "cook x = Num i"
      using True Num by auto
    moreover have "81 \<le> nat (i + 80)" "nat (i + 80) \<le> 96" "int (nat (i + 80)) - 80 = i"
      using True by linarith+
    ultimately show ?thesis
      using decode_small [of "word_of_int (i + 80)" rest] by (simp only: append.simps)
  next
    case False
    have "decode_script (79 # rest) = map_option ((#) (Op 79)) (decode_script rest)"
      using decode_op [of 79 rest] by simp
    with False assms Num show ?thesis
      by (auto simp: decode_encode_push vch_eq_Nil decode_zero)
  qed
next
  case (Push b)
  with assms show ?thesis
    by (auto simp: decode_encode_push encode_push_Nil)
qed

lemma decode_encode_script:
  "list_all wf_item items \<Longrightarrow> decode_script (encode_script items) = Some (map cook items)"
  by (induction items) (simp_all add: encode_script_def decode_encode_item)

text \<open>Numbers a script is built with: the library's length bound holds for everything below \<open>2 ^ 32\<close>.\<close>

lemma length_magnitude: "n < 256 ^ k \<Longrightarrow> length (magnitude n) \<le> k"
proof (induction k arbitrary: n)
  case 0
  then show ?case by simp
next
  case (Suc k)
  then have "n div 256 < 256 ^ k" by (simp add: div_less_iff_less_mult mult.commute)
  with Suc.IH show ?case by (subst magnitude.simps) simp
qed

lemma wf_num: "0 \<le> i \<Longrightarrow> i < 2 ^ 32 \<Longrightarrow> wf_item (Num i)"
proof -
  assume "0 \<le> i" "i < 2 ^ 32"
  then have "length (magnitude (nat i)) \<le> 4"
    by (intro length_magnitude) (simp add: nat_less_iff)
  then show ?thesis
    using \<open>0 \<le> i\<close> by (auto simp: vch_def Let_def)
qed

declare wf_item.simps(2) [simp del]

section \<open>A library record over the wire format\<close>

definition wire_lib :: btclib where
  "wire_lib =
     \<lparr>lib_x = unhexlify, lib_b2x = hexlify,
      lib_Hash = sha256 \<circ> sha256, lib_Hash160 = take 20 \<circ> sha256, lib_ripemd160 = take 20 \<circ> sha256,
      lib_outpoint = (\<lambda>txid n. case unhexlify txid of
         None \<Rightarrow> Inl ValueError | Some h \<Rightarrow> Inr \<lparr>out_hash = rev h, out_n = n\<rparr>),
      lib_cscript = encode_script, lib_script_iter = decode_script,
      lib_addr_spk = (\<lambda>v h. encode_script [Num v, Push h]),
      lib_tx_bytes = (\<lambda>t. le_digits 4 (nLockTime t)),
      lib_sighash = (\<lambda>script t i hashtype amount. sha256 script),
      lib_ecdsa_verify = (\<lambda>pk h sig. sig = pk @ h),
      lib_pub = (\<lambda>k. k), lib_sign = (\<lambda>k h. k @ h),
      lib_wif = (\<lambda>s. case unhexlify s of None \<Rightarrow> Inl ValueError | Some k \<Rightarrow> Inr k),
      lib_wif_text = hexlify\<rparr>"

lemma wire_lib_sel [simp]:
  "lib_x wire_lib = unhexlify" "lib_b2x wire_lib = hexlify"
  "lib_cscript wire_lib = encode_script" "lib_script_iter wire_lib = decode_script"
  "lib_ecdsa_verify wire_lib pk h sig = (sig = pk @ h)"
  "lib_pub wire_lib k = k" "lib_sign wire_lib k h = k @ h"
  "lib_sighash wire_lib script t i hashtype amount = sha256 script"
  "lib_addr_spk wire_lib v h = encode_script [Num v, Push h]"
  "lib_Hash160 wire_lib m = take 20 (sha256 m)"
  "lib_wif wire_lib s = (case unhexlify s of None \<Rightarrow> Inl ValueError | Some k \<Rightarrow> Inr k)"
  by (simp_all add: wire_lib_def)

interpretation wire: script_lib wire_lib
  by unfold_locales (simp add: decode_encode_script)

end
