(* ===== verification/Interpreter.thy ===== *)
theory Interpreter
  imports Script_Codec
begin

text \<open>
  The script interpreter, \<open>bitcoin/interpreter.py\<close>: \<open>cast_to_bool\<close> and the class
  \<open>ScriptInterpreter\<close>.  The attributes that never change are the record \<open>script_ctx\<close>; the two stacks are the
  record \<open>vm\<close>, whose evaluation stack has its top at the head of the list (\<open>eval_stack[-1]\<close>) and
  whose execution stack has the innermost branch at the head.  The program counter is the rest of the script in
  the fold.  Methods that the code names \<open>_op_x\<close> are the functions \<open>op_x\<close>.  The library's functions are the total
  parameters of \<open>btclib\<close>: an exception that \<open>ripemd160\<close>, \<open>SignatureHash\<close> or a check of a key or signature raises
  by itself (an input index the transaction does not have, an amount of more than eight bytes) is not modelled.
\<close>

section \<open>State\<close>

record script_ctx =
  ctx_script :: bytes
  ctx_tx :: tx
  ctx_index :: nat
  ctx_amount :: int

record vm =
  eval_stack :: "bytes list"
  exec_stack :: "bool list"

text \<open>\<open>bytes\<close>: empty, all zero, and zero but for a final \<open>0x80\<close> are false.\<close>

definition cast_to_bool :: "bytes \<Rightarrow> bool" where
  "cast_to_bool v =
     (if v = [] then False
      else if list_ex (\<lambda>b. b \<noteq> 0) (butlast v) then True
      else last v \<noteq> 0 \<and> last v \<noteq> 128)"

definition is_executing :: "vm \<Rightarrow> bool" where
  "is_executing s = list_all (\<lambda>b. b) (exec_stack s)"

section \<open>Control flow\<close>

text \<open>\<open>None\<close> is the method's \<open>False\<close>: the element is not a branching opcode.\<close>

fun handle_control_flow :: "script_item \<Rightarrow> vm \<Rightarrow> vm option res" where
  "handle_control_flow (Op c) s =
     (if c = OP_IF \<or> c = OP_NOTIF then
        (if \<not> is_executing s then Inr (Some (s\<lparr>exec_stack := False # exec_stack s\<rparr>))
         else case eval_stack s of
             [] \<Rightarrow> Inl ScriptVerificationError
           | v # vs \<Rightarrow>
               (let cond = (if c = OP_NOTIF then \<not> cast_to_bool v else cast_to_bool v)
                in Inr (Some (s\<lparr>eval_stack := vs, exec_stack := cond # exec_stack s\<rparr>))))
      else if c = OP_ELSE then
        (case exec_stack s of
            [] \<Rightarrow> Inl ScriptVerificationError
          | b # bs \<Rightarrow> Inr (Some (s\<lparr>exec_stack := (\<not> b) # bs\<rparr>)))
      else if c = OP_ENDIF then
        (case exec_stack s of
            [] \<Rightarrow> Inl ScriptVerificationError
          | b # bs \<Rightarrow> Inr (Some (s\<lparr>exec_stack := bs\<rparr>)))
      else Inr None)"
| "handle_control_flow (Num i) s = Inr None"
| "handle_control_flow (Push b) s = Inr None"

section \<open>Stack operations\<close>

fun op_drop :: "bytes list \<Rightarrow> bytes list res" where
  "op_drop [] = Inl ScriptVerificationError"
| "op_drop (v # vs) = Inr vs"

fun op_2drop :: "bytes list \<Rightarrow> bytes list res" where
  "op_2drop (u # v # vs) = Inr vs"
| "op_2drop _ = Inl ScriptVerificationError"

fun op_dup :: "bytes list \<Rightarrow> bytes list res" where
  "op_dup [] = Inl ScriptVerificationError"
| "op_dup (v # vs) = Inr (v # v # vs)"

fun op_ifdup :: "bytes list \<Rightarrow> bytes list res" where
  "op_ifdup [] = Inl ScriptVerificationError"
| "op_ifdup (v # vs) = Inr (if cast_to_bool v then v # v # vs else v # vs)"

text \<open>What a test leaves: nothing or an error for the \<open>VERIFY\<close> form, else \<open>b"\x01"\<close> or \<open>b""\<close>.\<close>

definition push_test :: "bool \<Rightarrow> bool \<Rightarrow> bytes list \<Rightarrow> bytes list res" where
  "push_test verify ok st =
     (if verify then (if ok then Inr st else Inl ScriptVerificationError)
      else Inr ((if ok then [1] else []) # st))"

fun op_equal :: "bool \<Rightarrow> bytes list \<Rightarrow> bytes list res" where
  "op_equal verify (a # b # st) = push_test verify (a = b) st"
| "op_equal verify _ = Inl ScriptVerificationError"

fun op_hash :: "(bytes \<Rightarrow> bytes) \<Rightarrow> bytes list \<Rightarrow> bytes list res" where
  "op_hash h [] = Inl ScriptVerificationError"
| "op_hash h (v # vs) = Inr (h v # vs)"

section \<open>Timelocks\<close>

definition op_cltv :: "script_ctx \<Rightarrow> bytes list \<Rightarrow> bytes list res" where
  "op_cltv ctx st =
     (if st = [] then Inl ScriptVerificationError
      else let t = ctx_tx ctx; n_lock = sint_le (hd st)
           in if length (vin t) \<le> ctx_index ctx then Inl IndexError
              else if nSequence (vin t ! ctx_index ctx) = 0xFFFFFFFF then Inl ScriptVerificationError
              else if nLockTime t < n_lock then Inl ScriptVerificationError
              else Inr st)"

definition op_csv :: "script_ctx \<Rightarrow> bytes list \<Rightarrow> bytes list res" where
  "op_csv ctx st =
     (if st = [] then Inl ScriptVerificationError
      else let t = ctx_tx ctx; n_seq = sint_le (hd st)
           in if length (vin t) \<le> ctx_index ctx then Inl IndexError
              else let in_seq = nSequence (vin t ! ctx_index ctx)
                   in if in_seq = 0xFFFFFFFF \<or> in_seq AND push_bit 31 1 \<noteq> 0
                      then Inl ScriptVerificationError
                      else if in_seq AND 0xFFFF < n_seq then Inl ScriptVerificationError
                      else Inr st)"

section \<open>Signatures\<close>

text \<open>\<open>key.verify(SignatureHash(..., sig[-1], ...), sig[:-1])\<close> for a non-empty \<open>sig\<close>.\<close>

definition check_signature :: "btclib \<Rightarrow> script_ctx \<Rightarrow> bytes \<Rightarrow> bytes \<Rightarrow> bool" where
  "check_signature L ctx pubkey sig =
     lib_ecdsa_verify L pubkey
       (lib_sighash L (ctx_script ctx) (ctx_tx ctx) (ctx_index ctx) (uint (last sig)) (ctx_amount ctx))
       (butlast sig)"

fun op_checksig :: "btclib \<Rightarrow> script_ctx \<Rightarrow> bool \<Rightarrow> bytes list \<Rightarrow> bytes list res" where
  "op_checksig L ctx verify (pubkey # sig # st) =
     push_test verify (sig \<noteq> [] \<and> check_signature L ctx pubkey sig) st"
| "op_checksig L ctx verify _ = Inl ScriptVerificationError"

text \<open>\<open>[stack.pop() for _ in range(n)]\<close>: the popped values in that order, and the rest.\<close>

definition pop_n :: "int \<Rightarrow> bytes list \<Rightarrow> (bytes list \<times> bytes list) res" where
  "pop_n n st =
     (if length st < nat n then Inl IndexError else Inr (take (nat n) st, drop (nat n) st))"

text \<open>
  The signature loop: each key is tried once against the first unmatched signature; \<open>sig[-1]\<close> on an
  empty signature is an IndexError.
\<close>

fun match_sigs :: "btclib \<Rightarrow> script_ctx \<Rightarrow> bytes list \<Rightarrow> bytes list \<Rightarrow> bool res" where
  "match_sigs L ctx [] keys = Inr True"
| "match_sigs L ctx (sig # sigs) [] = Inr False"
| "match_sigs L ctx (sig # sigs) (key # keys) =
     (if sig = [] then Inl IndexError
      else if check_signature L ctx key sig then match_sigs L ctx sigs keys
      else match_sigs L ctx (sig # sigs) keys)"

fun op_checkmultisig :: "btclib \<Rightarrow> script_ctx \<Rightarrow> bool \<Rightarrow> bytes list \<Rightarrow> bytes list res" where
  "op_checkmultisig L ctx verify [] = Inl ScriptVerificationError"
| "op_checkmultisig L ctx verify (n_keys # st) =
     rbind (pop_n (sint_le n_keys) st) (\<lambda>(keys, st).
       case st of
         [] \<Rightarrow> Inl IndexError
       | n_sigs # st \<Rightarrow>
           rbind (pop_n (sint_le n_sigs) st) (\<lambda>(sigs, st).
             let st = (case st of [] \<Rightarrow> [] | _ # rest \<Rightarrow> rest)
             in rbind (match_sigs L ctx sigs keys) (\<lambda>ok. push_test verify ok st)))"

section \<open>Dispatch and execution\<close>

text \<open>An opcode no branch names leaves the state as it is.\<close>

definition dispatch_op :: "btclib \<Rightarrow> script_ctx \<Rightarrow> nat \<Rightarrow> bytes list \<Rightarrow> bytes list res" where
  "dispatch_op L ctx c st =
     (if c = OP_0 then Inr ([] # st)
      else if OP_1 \<le> c \<and> c \<le> OP_16 then Inr ([word_of_nat (c - 80)] # st)
      else if c = OP_DROP then op_drop st
      else if c = OP_2DROP then op_2drop st
      else if c = OP_DUP then op_dup st
      else if c = OP_IFDUP then op_ifdup st
      else if c = OP_EQUAL \<or> c = OP_EQUALVERIFY then op_equal (c = OP_EQUALVERIFY) st
      else if c = OP_SHA256 then op_hash sha256 st
      else if c = OP_HASH160 then op_hash (lib_Hash160 L) st
      else if c = OP_HASH256 then op_hash (lib_Hash L) st
      else if c = OP_RIPEMD160 then op_hash (lib_ripemd160 L) st
      else if c = OP_CHECKLOCKTIMEVERIFY then op_cltv ctx st
      else if c = OP_CHECKSEQUENCEVERIFY then op_csv ctx st
      else if c = OP_CHECKSIG \<or> c = OP_CHECKSIGVERIFY then op_checksig L ctx (c = OP_CHECKSIGVERIFY) st
      else if c = OP_CHECKMULTISIG \<or> c = OP_CHECKMULTISIGVERIFY
        then op_checkmultisig L ctx (c = OP_CHECKMULTISIGVERIFY) st
      else Inr st)"

fun dispatch_opcode :: "btclib \<Rightarrow> script_ctx \<Rightarrow> script_item \<Rightarrow> bytes list \<Rightarrow> bytes list res" where
  "dispatch_opcode L ctx (Push b) st = Inr (b # st)"
| "dispatch_opcode L ctx (Op c) st = dispatch_op L ctx c st"
| "dispatch_opcode L ctx (Num i) st =
     (if i \<noteq> 0 then rbind (to_bytes_le_signed 4 i) (\<lambda>b. Inr (b # st)) else Inr ([] # st))"

text \<open>One turn of the loop of \<open>execute\<close>.\<close>

definition script_step :: "btclib \<Rightarrow> script_ctx \<Rightarrow> script_item \<Rightarrow> vm \<Rightarrow> vm res" where
  "script_step L ctx op s =
     rbind (handle_control_flow op s) (\<lambda>r.
       case r of
         Some s' \<Rightarrow> Inr s'
       | None \<Rightarrow>
           (if \<not> is_executing s then Inr s
            else rbind (dispatch_opcode L ctx op (eval_stack s)) (\<lambda>st. Inr (s\<lparr>eval_stack := st\<rparr>))))"

text \<open>\<open>execute\<close> on the parsed elements, then with the constructor's \<open>list(witness_script)\<close>.\<close>

definition execute_ops :: "btclib \<Rightarrow> script_ctx \<Rightarrow> script_item list \<Rightarrow> vm \<Rightarrow> bool res" where
  "execute_ops L ctx ops s =
     rbind (fold_res (script_step L ctx) ops s) (\<lambda>s.
       if exec_stack s \<noteq> [] then Inl ScriptVerificationError
       else case eval_stack s of
           [] \<Rightarrow> Inl ScriptVerificationError
         | v # _ \<Rightarrow> if cast_to_bool v then Inr True else Inl ScriptVerificationError)"

definition execute :: "btclib \<Rightarrow> script_ctx \<Rightarrow> bytes list \<Rightarrow> bool res" where
  "execute L ctx initial_stack =
     (case lib_script_iter L (ctx_script ctx) of
        None \<Rightarrow> Inl CScriptInvalidError
      | Some ops \<Rightarrow> execute_ops L ctx ops \<lparr>eval_stack = rev initial_stack, exec_stack = []\<rparr>)"

end
