(* ===== verification/Script_Semantics.thy ===== *)
theory Script_Semantics
  imports Interpreter "HOL-Library.Sublist"
begin

text \<open>
  What the interpreter computes.  A structured script (\<open>prog\<close>) has nested branches; \<open>run_prog\<close> runs it by
  following the branch taken, and \<open>structured_execution\<close> shows that the flat loop with its execution stack
  does the same on the flattened script.  The contracts of the package are verified through it.  The other
  results are the meaning of the signature loop of \<open>OP_CHECKMULTISIG\<close> (an order-preserving
  matching of signatures to keys) and the exceptions execution can end with.
\<close>

named_theorems script \<open>symbolic execution of scripts\<close>

section \<open>Structured scripts\<close>

text \<open>\<open>When\<close> is a branch without \<open>OP_ELSE\<close>; the flag of both says \<open>OP_NOTIF\<close>.\<close>

datatype prog =
    Done
  | Step script_item prog
  | When bool prog prog
  | Cond bool prog prog prog

abbreviation if_op :: "bool \<Rightarrow> script_item" where
  "if_op n \<equiv> Op (if n then OP_NOTIF else OP_IF)"

fun flatten :: "prog \<Rightarrow> script_item list" where
  "flatten Done = []"
| "flatten (Step i r) = i # flatten r"
| "flatten (When n p r) = if_op n # flatten p @ Op OP_ENDIF # flatten r"
| "flatten (Cond n p q r) = if_op n # flatten p @ Op OP_ELSE # flatten q @ Op OP_ENDIF # flatten r"

definition plain :: "script_item \<Rightarrow> bool" where
  "plain i = (case i of Op c \<Rightarrow> c \<notin> {OP_IF, OP_NOTIF, OP_ELSE, OP_ENDIF} | _ \<Rightarrow> True)"

fun wf_prog :: "prog \<Rightarrow> bool" where
  "wf_prog Done = True"
| "wf_prog (Step i r) = (plain i \<and> wf_prog r)"
| "wf_prog (When n p r) = (wf_prog p \<and> wf_prog r)"
| "wf_prog (Cond n p q r) = (wf_prog p \<and> wf_prog q \<and> wf_prog r)"

fun run_prog :: "btclib \<Rightarrow> script_ctx \<Rightarrow> prog \<Rightarrow> bytes list \<Rightarrow> bytes list res" where
  "run_prog L ctx Done st = Inr st"
| "run_prog L ctx (Step i r) st = rbind (dispatch_opcode L ctx i st) (run_prog L ctx r)"
| "run_prog L ctx (When n p r) st =
     (case st of [] \<Rightarrow> Inl ScriptVerificationError
      | v # vs \<Rightarrow>
          rbind (if cast_to_bool v \<noteq> n then run_prog L ctx p vs else Inr vs) (run_prog L ctx r))"
| "run_prog L ctx (Cond n p q r) st =
     (case st of [] \<Rightarrow> Inl ScriptVerificationError
      | v # vs \<Rightarrow>
          rbind (run_prog L ctx (if cast_to_bool v \<noteq> n then p else q) vs) (run_prog L ctx r))"

text \<open>The verdict of \<open>execute\<close> on the final stack.\<close>

definition verdict :: "bytes list \<Rightarrow> bool res" where
  "verdict st =
     (case st of [] \<Rightarrow> Inl ScriptVerificationError
      | v # _ \<Rightarrow> if cast_to_bool v then Inr True else Inl ScriptVerificationError)"

section \<open>One step\<close>

abbreviation mk_vm :: "bytes list \<Rightarrow> bool list \<Rightarrow> vm" where
  "mk_vm st bs \<equiv> \<lparr>eval_stack = st, exec_stack = bs\<rparr>"

lemma is_executing_mk [simp]: "is_executing (mk_vm st bs) = list_all (\<lambda>b. b) bs"
  by (simp add: is_executing_def)

lemma step_plain:
  assumes "plain i"
  shows "script_step L ctx i (mk_vm st bs) =
    (if list_all (\<lambda>b. b) bs
     then rbind (dispatch_opcode L ctx i st) (\<lambda>st. Inr (mk_vm st bs)) else Inr (mk_vm st bs))"
  using assms by (cases i) (auto simp: script_step_def plain_def)

lemma step_if:
  "script_step L ctx (if_op n) (mk_vm st bs) =
    (if list_all (\<lambda>b. b) bs
     then case st of [] \<Rightarrow> Inl ScriptVerificationError
       | v # vs \<Rightarrow> Inr (mk_vm vs ((cast_to_bool v \<noteq> n) # bs))
     else Inr (mk_vm st (False # bs)))"
  by (cases n) (auto simp: script_step_def Let_def split: list.splits)

lemma step_else:
  "script_step L ctx (Op OP_ELSE) (mk_vm st (b # bs)) = Inr (mk_vm st ((\<not> b) # bs))"
  by (simp add: script_step_def)

lemma step_endif:
  "script_step L ctx (Op OP_ENDIF) (mk_vm st (b # bs)) = Inr (mk_vm st bs)"
  by (simp add: script_step_def)

lemmas script_steps = step_plain step_if step_else step_endif fold_res_append

section \<open>The flat loop runs structured scripts\<close>

lemma skipped:
  assumes "wf_prog p" and "\<not> list_all (\<lambda>b. b) bs"
  shows "fold_res (script_step L ctx) (flatten p) (mk_vm st bs) = Inr (mk_vm st bs)"
  using assms
  by (induction p arbitrary: st bs) (simp_all add: script_steps del: if_split)

lemma executed:
  assumes "wf_prog p" and "list_all (\<lambda>b. b) bs"
  shows "fold_res (script_step L ctx) (flatten p) (mk_vm st bs) =
    rbind (run_prog L ctx p st) (\<lambda>st. Inr (mk_vm st bs))"
  using assms
proof (induction p arbitrary: st bs)
  case Done
  then show ?case by simp
next
  case (Step i r)
  then show ?case by (simp add: step_plain rbind_assoc)
next
  case (When n p r)
  show ?case
  proof (cases st)
    case Nil
    with When.prems show ?thesis by (simp add: step_if del: if_split)
  next
    case (Cons v vs)
    with When show ?thesis
      by (cases "cast_to_bool v \<noteq> n") (simp_all add: script_steps skipped rbind_assoc del: if_split)
  qed
next
  case (Cond n p q r)
  show ?case
  proof (cases st)
    case Nil
    with Cond.prems show ?thesis by (simp add: step_if del: if_split)
  next
    case (Cons v vs)
    with Cond show ?thesis
      by (cases "cast_to_bool v \<noteq> n") (simp_all add: script_steps skipped rbind_assoc del: if_split)
  qed
qed

lemma execute_flatten:
  assumes "wf_prog p"
  shows "execute_ops L ctx (flatten p) (mk_vm st []) = rbind (run_prog L ctx p st) verdict"
  using executed [OF assms, of "[]" L ctx st]
  by (cases "run_prog L ctx p st") (simp_all add: execute_ops_def verdict_def)

text \<open>Property C9: the interpreter's loop over opcodes with its stack of branch flags computes what the
  structured reading of the script computes: only the branches taken are executed, whatever is
  nested in the others, and the verdict is that of the structured run.\<close>

theorem structured_execution:
  assumes "lib_script_iter L (ctx_script ctx) = Some (flatten p)" and "wf_prog p"
  shows "execute L ctx stack = rbind (run_prog L ctx p (rev stack)) verdict"
  using assms by (simp add: execute_def execute_flatten)

section \<open>The signature loop\<close>

text \<open>
  The greedy loop succeeds exactly if the signatures can be assigned, in order, to distinct
  keys in order: a sublist of the keys pairs off with the signatures.
\<close>

definition sigs_match :: "btclib \<Rightarrow> script_ctx \<Rightarrow> bytes list \<Rightarrow> bytes list \<Rightarrow> bool" where
  "sigs_match L ctx sigs keys \<longleftrightarrow>
     (\<exists>ks. subseq ks keys \<and> list_all2 (\<lambda>k sig. check_signature L ctx k sig) ks sigs)"

lemma sigs_match_Nil [simp]: "sigs_match L ctx [] keys"
  by (auto simp: sigs_match_def)

lemma sigs_match_no_keys [simp]: "\<not> sigs_match L ctx (sig # sigs) []"
  by (auto simp: sigs_match_def dest!: list_emb_Nil2)

lemma sigs_match_Cons:
  "sigs_match L ctx (sig # sigs) (key # keys) \<longleftrightarrow>
    (if check_signature L ctx key sig then sigs_match L ctx sigs keys
     else sigs_match L ctx (sig # sigs) keys)"
proof (cases "check_signature L ctx key sig")
  case True
  have "sigs_match L ctx sigs keys" if m: "sigs_match L ctx (sig # sigs) (key # keys)"
  proof -
    obtain ks' where "subseq ks' (key # keys)" "list_all2 (check_signature L ctx) ks' (sig # sigs)"
      using m unfolding sigs_match_def by blast
    then obtain k ks where ks: "subseq (k # ks) (key # keys)"
      and all: "list_all2 (check_signature L ctx) ks sigs"
      by (cases ks') auto
    from ks have "subseq ks keys"
      by (metis subseq_Cons' subseq_Cons2_iff)
    with all show ?thesis by (auto simp: sigs_match_def)
  qed
  moreover have "sigs_match L ctx (sig # sigs) (key # keys)" if m: "sigs_match L ctx sigs keys"
  proof -
    obtain ks where "subseq ks keys" "list_all2 (\<lambda>k sig. check_signature L ctx k sig) ks sigs"
      using m by (auto simp: sigs_match_def)
    with True show ?thesis
      unfolding sigs_match_def by (intro exI [of _ "key # ks"]) simp
  qed
  ultimately show ?thesis using True by auto
next
  case False
  have "subseq ks keys" if "subseq ks (key # keys)"
    and "list_all2 (\<lambda>k sig. check_signature L ctx k sig) ks (sig # sigs)" for ks
    using that False by (auto simp: list_all2_Cons2 split: if_splits)
  then show ?thesis
    using False by (auto simp: sigs_match_def)
qed

lemma match_sigs_iff:
  "[] \<notin> set sigs \<Longrightarrow> match_sigs L ctx sigs keys = Inr (sigs_match L ctx sigs keys)"
  by (induction L ctx sigs keys rule: match_sigs.induct) (auto simp: sigs_match_Cons)

text \<open>Property C10: on a stack of \<open>m\<close> non-empty signatures and \<open>n\<close> keys, \<open>OP_CHECKMULTISIG\<close> consumes
  the counts, the keys, the signatures and the dummy element and pushes true exactly if the signatures match,
  in order, a sublist of the keys.\<close>

theorem checkmultisig_correct:
  assumes "sint_le n_keys = int (length keys)" and "sint_le n_sigs = int (length sigs)"
    and "[] \<notin> set sigs"
  shows "op_checkmultisig L ctx False (n_keys # keys @ n_sigs # sigs @ dummy # st) =
    Inr ((if sigs_match L ctx sigs keys then [1] else []) # st)"
  using assms by (simp add: pop_n_def match_sigs_iff push_test_def)

section \<open>Exceptions\<close>

text \<open>
  Elements that raise nothing but a ScriptVerificationError, or an IndexError when a time lock asks for an input
  that the transaction does not have: no multisignature check, and numbers of at most four bytes.
\<close>

fun quiet :: "script_item \<Rightarrow> bool" where
  "quiet (Op c) = (c \<noteq> OP_CHECKMULTISIG \<and> c \<noteq> OP_CHECKMULTISIGVERIFY)"
| "quiet (Num i) = (- (2 ^ 31) \<le> i \<and> i < 2 ^ 31)"
| "quiet (Push b) = True"

lemma push_test_error: "push_test verify ok st = Inl e \<Longrightarrow> e = ScriptVerificationError"
  by (auto simp: push_test_def split: if_splits)

lemma op_errors:
  "op_drop st = Inl e \<Longrightarrow> e = ScriptVerificationError"
  "op_2drop st = Inl e \<Longrightarrow> e = ScriptVerificationError"
  "op_dup st = Inl e \<Longrightarrow> e = ScriptVerificationError"
  "op_ifdup st = Inl e \<Longrightarrow> e = ScriptVerificationError"
  "op_equal verify st = Inl e \<Longrightarrow> e = ScriptVerificationError"
  "op_hash h st = Inl e \<Longrightarrow> e = ScriptVerificationError"
  "op_checksig L ctx verify st = Inl e \<Longrightarrow> e = ScriptVerificationError"
  by (induction st rule: op_2drop.induct; simp add: push_test_error)+

definition quiet_error :: "script_ctx \<Rightarrow> py_error \<Rightarrow> bool" where
  "quiet_error ctx e \<longleftrightarrow> e = ScriptVerificationError \<or> (length (vin (ctx_tx ctx)) \<le> ctx_index ctx \<and> e = IndexError)"

lemma quiet_error_verification [simp]: "quiet_error ctx ScriptVerificationError"
  by (simp add: quiet_error_def)

lemma timelock_errors:
  "op_cltv ctx st = Inl e \<Longrightarrow> quiet_error ctx e"
  "op_csv ctx st = Inl e \<Longrightarrow> quiet_error ctx e"
  unfolding quiet_error_def by (auto simp: op_cltv_def op_csv_def Let_def split: if_splits)

lemma dispatch_error:
  assumes "quiet i" and "dispatch_opcode L ctx i st = Inl e"
  shows "quiet_error ctx e"
proof (cases i)
  case (Op c)
  have "dispatch_op L ctx c st = Inl e" and "c \<noteq> OP_CHECKMULTISIG" "c \<noteq> OP_CHECKMULTISIGVERIFY"
    using assms Op by auto
  then show ?thesis
    unfolding dispatch_op_def
    using op_errors [THEN arg_cong [of _ _ "quiet_error ctx"]] timelock_errors
    by (simp split: if_split_asm)
next
  case (Num i)
  with assms show ?thesis
    by (auto simp: to_bytes_le_signed_def rbind_eq_Inl split: if_splits)
next
  case (Push b)
  with assms show ?thesis by simp
qed

lemma control_error: "handle_control_flow i s = Inl e \<Longrightarrow> e = ScriptVerificationError"
  by (cases i) (auto simp: Let_def split: if_splits list.splits)

lemma step_error:
  assumes "quiet i" and "script_step L ctx i s = Inl e"
  shows "quiet_error ctx e"
  using assms
  by (auto simp: script_step_def rbind_eq_Inl dest: control_error dispatch_error
      split: option.splits if_splits)

text \<open>
  Property C11: executing a script without multisignature checks and with numbers of at most four bytes ends in
  \<open>True\<close>, a ScriptVerificationError, for bytes that are no script the library's CScriptInvalidError, and, if the
  input index is none of the transaction's, possibly an IndexError; in nothing else.  The library's functions
  (\<open>ripemd160\<close>, \<open>SignatureHash\<close>, the checks of keys and signatures) are total parameters here: an
  exception of their own is outside the statement.
\<close>

theorem execute_errors:
  assumes "list_all quiet (case lib_script_iter L (ctx_script ctx) of None \<Rightarrow> [] | Some ops \<Rightarrow> ops)"
  shows "execute L ctx stack \<in> {Inr True, Inl ScriptVerificationError, Inl CScriptInvalidError} \<or>
    (length (vin (ctx_tx ctx)) \<le> ctx_index ctx \<and> execute L ctx stack = Inl IndexError)"
proof (cases "lib_script_iter L (ctx_script ctx)")
  case None
  then show ?thesis by (simp add: execute_def)
next
  case (Some ops)
  let ?s = "mk_vm (rev stack) []"
  have "quiet_error ctx e" if "fold_res (script_step L ctx) ops ?s = Inl e" for e
    using that
  proof (rule fold_res_error)
    fix i s assume "i \<in> set ops" and "script_step L ctx i s = Inl e"
    moreover have "quiet i"
      using assms Some \<open>i \<in> set ops\<close> by (simp add: list_all_iff)
    ultimately show ?thesis
      using step_error by blast
  qed
  then show ?thesis
    using Some by (cases "fold_res (script_step L ctx) ops ?s")
      (auto simp: execute_def execute_ops_def quiet_error_def split: list.splits)
qed

section \<open>Witnesses\<close>

text \<open>An input with relative lock 144 in a transaction with locktime 1000.\<close>

definition sample_tx :: tx where
  "sample_tx =
     \<lparr>vin = [\<lparr>prevout = \<lparr>out_hash = replicate 32 0, out_n = 0\<rparr>, nSequence = 144\<rparr>],
      vout = [], nLockTime = 1000, wit = []\<rparr>"

definition sample_ctx :: "bytes \<Rightarrow> script_ctx" where
  "sample_ctx script = \<lparr>ctx_script = script, ctx_tx = sample_tx, ctx_index = 0, ctx_amount = 100000\<rparr>"

lemma wire_script_lib [simp]: "script_lib wire_lib"
  by (rule wire.script_lib_axioms)

text \<open>A branch inside a branch: the outer one taken, the inner one not.\<close>

definition sample_prog :: prog where
  "sample_prog =
     Cond False (Step (Push [1]) (When True (Step (Op OP_DROP) Done) (Step (Push [7]) Done)))
       (When False Done (Step (Op OP_DROP) Done)) Done"

theorem structured_execution_witness:
  "execute wire_lib (sample_ctx (encode_script (flatten sample_prog))) [[1]] = Inr True"
proof -
  have "list_all wf_item (flatten sample_prog)" and "map cook (flatten sample_prog) = flatten sample_prog"
    by (simp_all add: sample_prog_def wf_num)
  then have "lib_script_iter wire_lib (ctx_script (sample_ctx (encode_script (flatten sample_prog)))) =
      Some (flatten sample_prog)"
    by (simp add: sample_ctx_def decode_encode_script)
  moreover have "wf_prog sample_prog"
    by (simp add: sample_prog_def plain_def)
  ultimately have "execute wire_lib (sample_ctx (encode_script (flatten sample_prog))) [[1]] =
      rbind (run_prog wire_lib (sample_ctx (encode_script (flatten sample_prog))) sample_prog (rev [[1]])) verdict"
    by (rule structured_execution)
  then show ?thesis
    by (simp add: sample_prog_def cast_to_bool_def verdict_def)
qed

theorem checkmultisig_correct_witness:
  "op_checkmultisig wire_lib (sample_ctx []) False
     [[2], [11], [12], [1], [12] @ sha256 [] @ [1], [], [5]] = Inr [[1], [5]]"
proof -
  let ?sig = "[12] @ sha256 [] @ [1]"
  have "sigs_match wire_lib (sample_ctx []) [?sig] [[11], [12]]"
    by (simp add: sigs_match_Cons check_signature_def sample_ctx_def butlast_append)
  then show ?thesis
    using checkmultisig_correct [of "[2]" "[[11], [12]]" "[1]" "[?sig]" wire_lib "sample_ctx []" "[]" "[[5]]"]
    by (simp add: sint_le_def Let_def del: op_checkmultisig.simps)
qed

theorem execute_errors_witness:
  "execute wire_lib (sample_ctx [99]) [] \<in> {Inr True, Inl ScriptVerificationError, Inl CScriptInvalidError}"
proof -
  have "decode_script [99] = Some [Op 99]"
    using decode_op [of 99 "[]"] by simp
  then have "list_all quiet (case lib_script_iter wire_lib (ctx_script (sample_ctx [99])) of None \<Rightarrow> [] | Some ops \<Rightarrow> ops)"
    by (simp add: sample_ctx_def)
  from execute_errors [OF this, of "[]"] show ?thesis
    by (auto simp: sample_ctx_def sample_tx_def)
qed

end
