(* ===== verification/Contracts.thy ===== *)
theory Contracts
  imports Script_Semantics
begin

text \<open>
  The scripts of the package and the witness stacks that spend them: \<open>bitcoin/contracts.py\<close>, with
  \<open>create_revocable_output_script\<close> of \<open>protocols/revocation.py\<close>, \<open>create_ptlc_script\<close> of
  \<open>protocols/ptlc.py\<close> and \<open>create_anchor_script\<close> of \<open>protocols/anchors.py\<close>.  For each contract a theorem
  characterises all the witness stacks that spend it.  A contract is its list of script elements; its structured form
  (\<open>..._prog\<close>) is what \<open>structured_execution\<close> runs.
\<close>

section \<open>Scripts\<close>

definition create_multisig_2of2 :: "btclib \<Rightarrow> bytes \<Rightarrow> bytes \<Rightarrow> bytes" where
  "create_multisig_2of2 L pubkey1 pubkey2 =
     (let sorted_keys = sort [pubkey1, pubkey2]
      in lib_cscript L [Op OP_2, Push (sorted_keys ! 0), Push (sorted_keys ! 1), Op OP_2, Op OP_CHECKMULTISIG])"

definition create_p2wsh :: "btclib \<Rightarrow> bytes \<Rightarrow> bytes" where
  "create_p2wsh L redeem_script = lib_cscript L [Op OP_0, Push (sha256 redeem_script)]"

definition create_p2wpkh :: "btclib \<Rightarrow> bytes \<Rightarrow> bytes" where
  "create_p2wpkh L pubkey_bytes = lib_cscript L [Op OP_0, Push (lib_Hash160 L pubkey_bytes)]"

definition create_p2wpkh_scriptCode :: "btclib \<Rightarrow> bytes \<Rightarrow> bytes" where
  "create_p2wpkh_scriptCode L pubkey_bytes =
     lib_cscript L [Op OP_DUP, Op OP_HASH160, Push (lib_Hash160 L pubkey_bytes), Op OP_EQUALVERIFY, Op OP_CHECKSIG]"

definition create_htlc :: "btclib \<Rightarrow> bytes \<Rightarrow> bytes \<Rightarrow> bytes \<Rightarrow> int \<Rightarrow> bytes" where
  "create_htlc L sender_pubkey receiver_pubkey payment_hash locktime =
     lib_cscript L
       [Op OP_IF, Op OP_SHA256, Push payment_hash, Op OP_EQUALVERIFY, Push receiver_pubkey, Op OP_CHECKSIG,
        Op OP_ELSE, Num locktime, Op OP_CHECKLOCKTIMEVERIFY, Op OP_DROP, Push sender_pubkey, Op OP_CHECKSIG,
        Op OP_ENDIF]"

definition create_p2tr :: "btclib \<Rightarrow> bytes \<Rightarrow> bytes res" where
  "create_p2tr L output_key_x_only =
     (if length output_key_x_only \<noteq> 32 then Inl ValueError
      else Inr (lib_cscript L [Op OP_1, Push output_key_x_only]))"

definition create_second_stage_htlc_script :: "btclib \<Rightarrow> bytes \<Rightarrow> bytes \<Rightarrow> int \<Rightarrow> bytes" where
  "create_second_stage_htlc_script L revocation_pubkey local_delayed_pubkey to_self_delay =
     lib_cscript L
       [Op OP_IF, Push revocation_pubkey, Op OP_CHECKSIG, Op OP_ELSE, Num to_self_delay,
        Op OP_CHECKSEQUENCEVERIFY, Op OP_DROP, Push local_delayed_pubkey, Op OP_CHECKSIG, Op OP_ENDIF]"

definition create_revocable_output_script :: "btclib \<Rightarrow> bytes \<Rightarrow> bytes \<Rightarrow> int \<Rightarrow> bytes" where
  "create_revocable_output_script L revocation_pubkey local_pubkey to_self_delay =
     lib_cscript L
       [Op OP_IF, Push revocation_pubkey, Op OP_CHECKSIG, Op OP_ELSE, Num to_self_delay,
        Op OP_CHECKSEQUENCEVERIFY, Op OP_DROP, Push local_pubkey, Op OP_CHECKSIG, Op OP_ENDIF]"

definition create_ptlc_script :: "btclib \<Rightarrow> bytes \<Rightarrow> bytes \<Rightarrow> int \<Rightarrow> bytes" where
  "create_ptlc_script L sender_pubkey receiver_pubkey locktime =
     lib_cscript L
       [Op OP_IF, Push receiver_pubkey, Op OP_CHECKSIG, Op OP_ELSE, Num locktime,
        Op OP_CHECKLOCKTIMEVERIFY, Op OP_DROP, Push sender_pubkey, Op OP_CHECKSIG, Op OP_ENDIF]"

definition create_anchor_script :: "btclib \<Rightarrow> bytes \<Rightarrow> bytes" where
  "create_anchor_script L pubkey_bytes =
     lib_cscript L
       [Push pubkey_bytes, Op OP_CHECKSIG, Op OP_IFDUP, Op OP_NOTIF, Num 16, Op OP_CHECKSEQUENCEVERIFY,
        Op OP_ENDIF]"

section \<open>Witness stacks and signatures\<close>

definition witness_htlc_fulfill :: "bytes \<Rightarrow> bytes \<Rightarrow> bytes \<Rightarrow> bytes list" where
  "witness_htlc_fulfill signature preimage redeem_script = [signature, preimage, [1], redeem_script]"

definition witness_htlc_refund :: "bytes \<Rightarrow> bytes \<Rightarrow> bytes list" where
  "witness_htlc_refund signature redeem_script = [signature, [], redeem_script]"

definition witness_multisig_2of2 :: "bytes \<Rightarrow> bytes \<Rightarrow> bytes \<Rightarrow> bytes list" where
  "witness_multisig_2of2 sig1 sig2 redeem_script = [[], sig1, sig2, redeem_script]"

text \<open>\<open>sign_sighash\<close> of \<open>utils.py\<close>: \<open>bytes([sighash_type])\<close> is a ValueError outside a byte.\<close>

definition sign_sighash :: "btclib \<Rightarrow> bytes \<Rightarrow> bytes \<Rightarrow> int \<Rightarrow> bytes res" where
  "sign_sighash L secret sighash sighash_type =
     (if 0 \<le> sighash_type \<and> sighash_type < 256
      then Inr (lib_sign L secret sighash @ [word_of_int sighash_type]) else Inl ValueError)"

definition sign_p2wsh_input :: "btclib \<Rightarrow> tx \<Rightarrow> nat \<Rightarrow> bytes \<Rightarrow> string \<Rightarrow> int \<Rightarrow> bytes res" where
  "sign_p2wsh_input L t input_idx redeem_script private_key_wif amount_sat =
     rbind (lib_wif L private_key_wif) (\<lambda>secret.
       let sighash = lib_sighash L redeem_script t input_idx SIGHASH_ALL amount_sat
       in sign_sighash L secret sighash 1)"

section \<open>Symbolic execution\<close>

text \<open>A signature a checking opcode accepts.\<close>

definition valid_sig :: "btclib \<Rightarrow> script_ctx \<Rightarrow> bytes \<Rightarrow> bytes \<Rightarrow> bool" where
  "valid_sig L ctx pubkey sig \<longleftrightarrow> sig \<noteq> [] \<and> check_signature L ctx pubkey sig"

text \<open>What a script's number puts on the stack.\<close>

definition num_bytes :: "int \<Rightarrow> bytes" where
  "num_bytes i = (if 1 \<le> i \<and> i \<le> 16 then le_digits 4 i else vch i)"

lemma sint_num_bytes [simp]:
  assumes "0 \<le> i"
  shows "sint_le (num_bytes i) = i"
proof (cases "1 \<le> i \<and> i \<le> 16")
  case True
  then have "uint_le (le_digits 4 i) = i"
    by (intro uint_le_digits_id) simp_all
  with True show ?thesis
    by (simp add: num_bytes_def sint_le_eq_uint_le)
next
  case False
  with assms show ?thesis by (auto simp: num_bytes_def)
qed

lemma dispatch_push [script]: "dispatch_opcode L ctx (cook (Push b)) st = Inr (b # st)"
  by simp

lemma dispatch_num [script]:
  "0 \<le> i \<Longrightarrow> dispatch_opcode L ctx (cook (Num i)) st = Inr (num_bytes i # st)"
  by (auto simp: num_bytes_def to_bytes_le_signed_def vch_eq_Nil vch_def)

lemma dispatch_ops [script]:
  "dispatch_opcode L ctx (Op OP_SHA256) st = op_hash sha256 st"
  "dispatch_opcode L ctx (Op OP_EQUALVERIFY) st = op_equal True st"
  "dispatch_opcode L ctx (Op OP_CHECKSIG) st = op_checksig L ctx False st"
  "dispatch_opcode L ctx (Op OP_CHECKMULTISIG) st = op_checkmultisig L ctx False st"
  "dispatch_opcode L ctx (Op OP_CHECKLOCKTIMEVERIFY) st = op_cltv ctx st"
  "dispatch_opcode L ctx (Op OP_CHECKSEQUENCEVERIFY) st = op_csv ctx st"
  "dispatch_opcode L ctx (Op OP_DROP) st = op_drop st"
  "dispatch_opcode L ctx (Op OP_IFDUP) st = op_ifdup st"
  by (simp_all add: dispatch_op_def)

text \<open>What the timelock opcodes ask of the spending input.\<close>

definition cltv_ok :: "script_ctx \<Rightarrow> int \<Rightarrow> bool" where
  "cltv_ok ctx n \<longleftrightarrow>
     nSequence (vin (ctx_tx ctx) ! ctx_index ctx) \<noteq> 0xFFFFFFFF \<and> n \<le> nLockTime (ctx_tx ctx)"

definition csv_ok :: "script_ctx \<Rightarrow> int \<Rightarrow> bool" where
  "csv_ok ctx n \<longleftrightarrow>
     (let q = nSequence (vin (ctx_tx ctx) ! ctx_index ctx)
      in q \<noteq> 0xFFFFFFFF \<and> q AND push_bit 31 1 = 0 \<and> n \<le> q AND 0xFFFF)"

definition in_range :: "script_ctx \<Rightarrow> bool" where
  "in_range ctx \<longleftrightarrow> ctx_index ctx < length (vin (ctx_tx ctx))"

lemma op_cltv_num [script]:
  "in_range ctx \<Longrightarrow> 0 \<le> n \<Longrightarrow> op_cltv ctx (num_bytes n # st) =
    (if cltv_ok ctx n then Inr (num_bytes n # st) else Inl ScriptVerificationError)"
  by (auto simp: op_cltv_def cltv_ok_def in_range_def Let_def)

lemma op_csv_num [script]:
  "in_range ctx \<Longrightarrow> 0 \<le> n \<Longrightarrow> op_csv ctx (num_bytes n # st) =
    (if csv_ok ctx n then Inr (num_bytes n # st) else Inl ScriptVerificationError)"
  by (auto simp: op_csv_def csv_ok_def in_range_def Let_def)

lemma op_checksig_valid [script]:
  "op_checksig L ctx False (pubkey # sig # st) = Inr ((if valid_sig L ctx pubkey sig then [1] else []) # st)"
  by (simp add: push_test_def valid_sig_def)

lemma verdict_test [script]:
  "verdict ((if b then [1] else []) # st) = (if b then Inr True else Inl ScriptVerificationError)"
  by (simp add: verdict_def cast_to_bool_def)

lemma cast_to_bool_test [simp]: "cast_to_bool [1]" "\<not> cast_to_bool []"
  by (simp_all add: cast_to_bool_def)

lemma cast_to_bool_if [simp]: "cast_to_bool (if b then [1] else []) = b"
  by simp

lemma plain_cook [simp]: "plain (cook (Push b))" "plain (cook (Num i))" "plain (Num i)"
  by (simp_all add: plain_def)

lemma plain_ops [simp]:
  "plain (Op c) \<longleftrightarrow> c \<notin> {OP_IF, OP_NOTIF, OP_ELSE, OP_ENDIF}"
  by (simp add: plain_def)

section \<open>Structured forms\<close>

declare cook.simps(2,3) [simp del]

lemma execute_contract:
  assumes "script_lib L" and "ctx_script ctx = lib_cscript L items" and "list_all wf_item items"
    and "map cook items = flatten p" and "wf_prog p"
  shows "execute L ctx stack = rbind (run_prog L ctx p (rev stack)) verdict"
  using script_lib.iter_cscript [OF assms(1,3)] assms(2,4,5)
  by (simp add: execute_def execute_flatten)

abbreviation steps :: "script_item list \<Rightarrow> prog" where
  "steps xs \<equiv> foldr Step xs Done"

definition htlc_prog :: "bytes \<Rightarrow> bytes \<Rightarrow> bytes \<Rightarrow> int \<Rightarrow> prog" where
  "htlc_prog sender receiver h locktime =
     Cond False
       (steps [Op OP_SHA256, cook (Push h), Op OP_EQUALVERIFY, cook (Push receiver), Op OP_CHECKSIG])
       (steps [cook (Num locktime), Op OP_CHECKLOCKTIMEVERIFY, Op OP_DROP, cook (Push sender), Op OP_CHECKSIG])
       Done"

text \<open>Key in one branch, key and timelock in the other: the revocable outputs and the PTLC.\<close>

definition timelock_prog :: "nat \<Rightarrow> bytes \<Rightarrow> bytes \<Rightarrow> int \<Rightarrow> prog" where
  "timelock_prog lock key1 key2 n =
     Cond False (steps [cook (Push key1), Op OP_CHECKSIG])
       (steps [cook (Num n), Op lock, Op OP_DROP, cook (Push key2), Op OP_CHECKSIG]) Done"

definition anchor_prog :: "bytes \<Rightarrow> prog" where
  "anchor_prog key =
     Step (cook (Push key)) (Step (Op OP_CHECKSIG) (Step (Op OP_IFDUP)
       (When True (steps [cook (Num 16), Op OP_CHECKSEQUENCEVERIFY]) Done)))"

lemma prefix_Cons_iff: "prefix (a # as) (b # bs) \<longleftrightarrow> a = b \<and> prefix as bs"
  by auto

lemma run_htlc:
  assumes "in_range ctx" and "0 \<le> locktime"
  shows "rbind (run_prog L ctx (htlc_prog sender receiver h locktime) st) verdict = Inr True \<longleftrightarrow>
    (\<exists>sig preimage flag. prefix [flag, preimage, sig] st \<and> cast_to_bool flag \<and>
       sha256 preimage = h \<and> valid_sig L ctx receiver sig) \<or>
    (\<exists>sig flag. prefix [flag, sig] st \<and> \<not> cast_to_bool flag \<and>
       cltv_ok ctx locktime \<and> valid_sig L ctx sender sig)"
proof (cases st)
  case Nil
  then show ?thesis by (simp add: htlc_prog_def)
next
  case (Cons flag r)
  consider "r = []" | x where "r = [x]" | x y ys where "r = x # y # ys"
    by (cases r; cases "tl r") auto
  then show ?thesis
    by cases (auto simp: Cons htlc_prog_def script assms push_test_def verdict_def
        simp del: dispatch_opcode.simps op_checksig.simps(1) split: if_splits)
qed

lemma run_timelock:
  assumes "in_range ctx" and "0 \<le> n"
    and "lock = OP_CHECKLOCKTIMEVERIFY \<and> ok = cltv_ok ctx n \<or> lock = OP_CHECKSEQUENCEVERIFY \<and> ok = csv_ok ctx n"
  shows "rbind (run_prog L ctx (timelock_prog lock key1 key2 n) st) verdict = Inr True \<longleftrightarrow>
    (\<exists>sig flag. prefix [flag, sig] st \<and>
      (if cast_to_bool flag then valid_sig L ctx key1 sig else ok \<and> valid_sig L ctx key2 sig))"
proof (cases st)
  case Nil
  then show ?thesis by (simp add: timelock_prog_def)
next
  case (Cons flag r)
  show ?thesis
    using assms(3) by (cases r) (auto simp: Cons timelock_prog_def script assms(1,2) verdict_def
        simp del: dispatch_opcode.simps op_checksig.simps(1) split: if_splits)
qed

lemma run_anchor:
  assumes "in_range ctx"
  shows "rbind (run_prog L ctx (anchor_prog key) st) verdict = Inr True \<longleftrightarrow>
    (\<exists>sig. prefix [sig] st \<and> (valid_sig L ctx key sig \<or> csv_ok ctx 16))"
proof (cases st)
  case Nil
  then show ?thesis by (simp add: anchor_prog_def script del: dispatch_opcode.simps)
next
  case (Cons sig r)
  have "cast_to_bool (num_bytes 16)" by code_simp
  then show ?thesis
    by (cases "valid_sig L ctx key sig"; cases r)
      (auto simp: Cons anchor_prog_def script assms verdict_def
        simp del: dispatch_opcode.simps op_checksig.simps(1) split: if_splits)
qed

section \<open>Who can spend what\<close>

lemma execute_True_iff:
  assumes "execute L ctx stack = rbind (run_prog L ctx p (rev stack)) verdict"
    and "rbind (run_prog L ctx p (rev stack)) verdict = Inr True \<longleftrightarrow> R"
  shows "execute L ctx stack = Inr True \<longleftrightarrow> R"
  using assms by simp

lemma execute_htlc:
  assumes "script_lib L" and "ctx_script ctx = create_htlc L sender receiver payment_hash locktime"
    and "length sender < 65536" "length receiver < 65536" "length payment_hash < 65536"
    and "0 \<le> locktime" "locktime < 2 ^ 32" and "in_range ctx"
  shows "execute L ctx stack = Inr True \<longleftrightarrow>
    (\<exists>sig preimage flag. suffix [sig, preimage, flag] stack \<and> cast_to_bool flag \<and>
       sha256 preimage = payment_hash \<and> valid_sig L ctx receiver sig) \<or>
    (\<exists>sig flag. suffix [sig, flag] stack \<and> \<not> cast_to_bool flag \<and>
       cltv_ok ctx locktime \<and> valid_sig L ctx sender sig)"
  unfolding suffix_to_prefix
proof (rule execute_True_iff)
  show "execute L ctx stack =
      rbind (run_prog L ctx (htlc_prog sender receiver payment_hash locktime) (rev stack)) verdict"
    using assms(1) assms(2) [unfolded create_htlc_def]
    by (rule execute_contract) (use assms in \<open>simp_all add: htlc_prog_def wf_num\<close>)
qed (use run_htlc [OF assms(8,6)] in simp)

text \<open>Property C6: the HTLC output is spendable exactly by the receiver's signature with a preimage of the
  payment hash, or by the sender's signature from the locktime on; the topmost witness element chooses the branch.\<close>

theorem htlc_spends:
  assumes "script_lib L" and "ctx_script ctx = create_htlc L sender receiver payment_hash locktime"
    and "length sender < 65536" "length receiver < 65536" "length payment_hash < 65536"
    and "0 \<le> locktime" "locktime < 2 ^ 32" and "in_range ctx"
  shows "execute L ctx stack = Inr True \<longleftrightarrow>
    (\<exists>sig preimage flag. suffix [sig, preimage, flag] stack \<and> cast_to_bool flag \<and>
       sha256 preimage = payment_hash \<and> valid_sig L ctx receiver sig) \<or>
    (\<exists>sig flag. suffix [sig, flag] stack \<and> \<not> cast_to_bool flag \<and>
       cltv_ok ctx locktime \<and> valid_sig L ctx sender sig)"
  using assms by (rule execute_htlc)

lemma execute_revocable_output:
  assumes "script_lib L" and "ctx_script ctx = create_revocable_output_script L revocation_pubkey local_pubkey delay"
    and "length revocation_pubkey < 65536" "length local_pubkey < 65536"
    and "0 \<le> delay" "delay < 2 ^ 32" and "in_range ctx"
  shows "execute L ctx stack = Inr True \<longleftrightarrow>
    (\<exists>sig flag. suffix [sig, flag] stack \<and>
      (if cast_to_bool flag then valid_sig L ctx revocation_pubkey sig
       else csv_ok ctx delay \<and> valid_sig L ctx local_pubkey sig))"
  unfolding suffix_to_prefix
proof (rule execute_True_iff)
  show "execute L ctx stack = rbind (run_prog L ctx
      (timelock_prog OP_CHECKSEQUENCEVERIFY revocation_pubkey local_pubkey delay) (rev stack)) verdict"
    using assms(1) assms(2) [unfolded create_revocable_output_script_def]
    by (rule execute_contract) (use assms in \<open>simp_all add: timelock_prog_def wf_num\<close>)
qed (use run_timelock [OF assms(7,5), of OP_CHECKSEQUENCEVERIFY] in simp)

text \<open>Property C7: a revocable commitment output is spendable exactly by the revocation key at once, or by
  the local key once the relative lock has run out.\<close>

theorem revocable_output_spends:
  assumes "script_lib L" and "ctx_script ctx = create_revocable_output_script L revocation_pubkey local_pubkey delay"
    and "length revocation_pubkey < 65536" "length local_pubkey < 65536"
    and "0 \<le> delay" "delay < 2 ^ 32" and "in_range ctx"
  shows "execute L ctx stack = Inr True \<longleftrightarrow>
    (\<exists>sig flag. suffix [sig, flag] stack \<and>
      (if cast_to_bool flag then valid_sig L ctx revocation_pubkey sig
       else csv_ok ctx delay \<and> valid_sig L ctx local_pubkey sig))"
  using assms by (rule execute_revocable_output)

lemma second_stage_same:
  "create_second_stage_htlc_script = create_revocable_output_script"
  by (intro ext) (simp add: create_second_stage_htlc_script_def create_revocable_output_script_def)

lemma execute_ptlc:
  assumes "script_lib L" and "ctx_script ctx = create_ptlc_script L sender receiver locktime"
    and "length sender < 65536" "length receiver < 65536"
    and "0 \<le> locktime" "locktime < 2 ^ 32" and "in_range ctx"
  shows "execute L ctx stack = Inr True \<longleftrightarrow>
    (\<exists>sig flag. suffix [sig, flag] stack \<and>
      (if cast_to_bool flag then valid_sig L ctx receiver sig
       else cltv_ok ctx locktime \<and> valid_sig L ctx sender sig))"
  unfolding suffix_to_prefix
proof (rule execute_True_iff)
  show "execute L ctx stack =
      rbind (run_prog L ctx (timelock_prog OP_CHECKLOCKTIMEVERIFY receiver sender locktime) (rev stack)) verdict"
    using assms(1) assms(2) [unfolded create_ptlc_script_def]
    by (rule execute_contract) (use assms in \<open>simp_all add: timelock_prog_def wf_num\<close>)
qed (use run_timelock [OF assms(7,5), of OP_CHECKLOCKTIMEVERIFY] in simp)

text \<open>A PTLC output is spendable exactly by the receiver's signature (which the adaptor
  signature makes reveal the payment secret), or by the sender's signature from the locktime on.\<close>

theorem ptlc_spends:
  assumes "script_lib L" and "ctx_script ctx = create_ptlc_script L sender receiver locktime"
    and "length sender < 65536" "length receiver < 65536"
    and "0 \<le> locktime" "locktime < 2 ^ 32" and "in_range ctx"
  shows "execute L ctx stack = Inr True \<longleftrightarrow>
    (\<exists>sig flag. suffix [sig, flag] stack \<and>
      (if cast_to_bool flag then valid_sig L ctx receiver sig
       else cltv_ok ctx locktime \<and> valid_sig L ctx sender sig))"
  using assms by (rule execute_ptlc)

lemma execute_anchor:
  assumes "script_lib L" and "ctx_script ctx = create_anchor_script L pubkey"
    and "length pubkey < 65536" and "in_range ctx"
  shows "execute L ctx stack = Inr True \<longleftrightarrow>
    (\<exists>sig. suffix [sig] stack \<and> (valid_sig L ctx pubkey sig \<or> csv_ok ctx 16))"
  unfolding suffix_to_prefix
proof (rule execute_True_iff)
  show "execute L ctx stack = rbind (run_prog L ctx (anchor_prog pubkey) (rev stack)) verdict"
    using assms(1) assms(2) [unfolded create_anchor_script_def]
    by (rule execute_contract) (use assms in \<open>simp_all add: anchor_prog_def wf_num\<close>)
qed (use run_anchor [OF assms(4)] in simp)

text \<open>An anchor output is spendable exactly by its key, or by anyone with any one witness
  element once sixteen blocks have passed.\<close>

theorem anchor_spends:
  assumes "script_lib L" and "ctx_script ctx = create_anchor_script L pubkey"
    and "length pubkey < 65536" and "in_range ctx"
  shows "execute L ctx stack = Inr True \<longleftrightarrow>
    (\<exists>sig. suffix [sig] stack \<and> (valid_sig L ctx pubkey sig \<or> csv_ok ctx 16))"
  using assms by (rule execute_anchor)

section \<open>The funding output\<close>

definition multisig_prog :: "bytes \<Rightarrow> bytes \<Rightarrow> prog" where
  "multisig_prog key1 key2 =
     steps [cook (Op OP_2), cook (Push key1), cook (Push key2), cook (Op OP_2), Op OP_CHECKMULTISIG]"

lemma dispatch_two: "dispatch_opcode L ctx (cook (Op OP_2)) st = Inr (le_digits 4 2 # st)"
  by (simp add: to_bytes_le_signed_def)

lemma sint_two: "sint_le (le_digits 4 2) = 2"
  by (simp add: sint_le_eq_uint_le uint_le_digits_id)

lemma match_two:
  "match_sigs L ctx [s2, s1] [k2, k1] =
    (if s2 = [] then Inl IndexError
     else if check_signature L ctx k2 s2 then
       (if s1 = [] then Inl IndexError else Inr (check_signature L ctx k1 s1))
     else Inr False)"
  by simp

lemma run_multisig:
  "rbind (run_prog L ctx (multisig_prog key1 key2) st) verdict =
    (case st of
       s2 # s1 # rest \<Rightarrow>
         rbind (match_sigs L ctx [s2, s1] [key2, key1]) (\<lambda>ok.
           if ok then Inr True else Inl ScriptVerificationError)
     | _ \<Rightarrow> Inl IndexError)"
proof -
  have ms: "op_checkmultisig L ctx False (le_digits 4 2 # key2 # key1 # le_digits 4 2 # st) =
      rbind (pop_n 2 st) (\<lambda>(sigs, st).
        let st = (case st of [] \<Rightarrow> [] | _ # rest \<Rightarrow> rest)
        in rbind (match_sigs L ctx sigs [key2, key1]) (\<lambda>ok. push_test False ok st))" for st
    by (simp add: pop_n_def sint_two numeral_2_eq_2)
  consider "st = []" | x where "st = [x]" | x y ys where "st = x # y # ys"
    by (cases st; cases "tl st") auto
  then show ?thesis
  proof cases
    case 3
    then show ?thesis
      by (cases "match_sigs L ctx [x, y] [key2, key1]")
        (simp_all add: multisig_prog_def dispatch_two dispatch_push dispatch_ops ms pop_n_def
          push_test_def verdict_test numeral_2_eq_2 Let_def
          del: dispatch_opcode.simps cook.simps op_checkmultisig.simps match_sigs.simps)
  qed (simp_all add: multisig_prog_def dispatch_two dispatch_push dispatch_ops ms pop_n_def
      del: dispatch_opcode.simps cook.simps op_checkmultisig.simps match_sigs.simps)
qed

lemma execute_multisig:
  assumes "script_lib L" and "ctx_script ctx = create_multisig_2of2 L key1 key2"
    and "length key1 < 65536" "length key2 < 65536"
  shows "execute L ctx stack =
    rbind (run_prog L ctx (multisig_prog (min key1 key2) (max key1 key2)) (rev stack)) verdict"
proof -
  have "sort [key1, key2] = [min key1 key2, max key1 key2]"
    by (simp add: min_def max_def)
  then have "ctx_script ctx = lib_cscript L
      [Op OP_2, Push (min key1 key2), Push (max key1 key2), Op OP_2, Op OP_CHECKMULTISIG]"
    using assms(2) by (simp add: create_multisig_2of2_def)
  with assms(1) show ?thesis
    by (rule execute_contract)
      (use assms(3,4) in \<open>simp_all add: multisig_prog_def min_def max_def\<close>)
qed

lemma execute_multisig_iff:
  assumes "script_lib L" and "ctx_script ctx = create_multisig_2of2 L key1 key2"
    and "length key1 < 65536" "length key2 < 65536"
  shows "execute L ctx stack = Inr True \<longleftrightarrow>
    (\<exists>sig1 sig2. suffix [sig1, sig2] stack \<and>
      valid_sig L ctx (min key1 key2) sig1 \<and> valid_sig L ctx (max key1 key2) sig2)"
  unfolding execute_multisig [OF assms] run_multisig suffix_to_prefix
  by (auto simp: valid_sig_def split: list.splits if_splits)

text \<open>Property C8: the funding output is spendable exactly with a signature of each party, given in the
  order of their sorted public keys.\<close>

theorem multisig_spends:
  assumes "script_lib L" and "ctx_script ctx = create_multisig_2of2 L key1 key2"
    and "length key1 < 65536" "length key2 < 65536"
  shows "execute L ctx stack = Inr True \<longleftrightarrow>
    (\<exists>sig1 sig2. suffix [sig1, sig2] stack \<and>
      valid_sig L ctx (min key1 key2) sig1 \<and> valid_sig L ctx (max key1 key2) sig2)"
  using assms by (rule execute_multisig_iff)

text \<open>A witness for the funding output with fewer than two elements below the script, or
  with an empty last signature, does not fail verification with a ScriptVerificationError but with an
  uncaught IndexError.\<close>

theorem multisig_short_witness_raises:
  assumes "script_lib L" and "ctx_script ctx = create_multisig_2of2 L key1 key2"
    and "length key1 < 65536" "length key2 < 65536"
    and "length stack < 2 \<or> last stack = []"
  shows "execute L ctx stack = Inl IndexError"
proof (cases "rev stack")
  case Nil
  then show ?thesis by (simp add: execute_multisig [OF assms(1-4)] run_multisig)
next
  case (Cons s2 r)
  then have "stack = rev r @ [s2]" by (metis rev_rev_ident rev.simps(2))
  with assms(5) Cons show ?thesis
    by (cases r) (simp_all add: execute_multisig [OF assms(1-4)] run_multisig)
qed

section \<open>Witnesses\<close>

definition sample_sig :: "bytes \<Rightarrow> bytes \<Rightarrow> bytes" where
  "sample_sig key script = key @ sha256 script @ [1]"

lemma sample_ctx_simps [simp]:
  "ctx_script (sample_ctx s) = s" "in_range (sample_ctx s)"
  "cltv_ok (sample_ctx s) n = (n \<le> 1000)" "csv_ok (sample_ctx s) n = (n \<le> 144)"
  by (simp_all add: sample_ctx_def sample_tx_def in_range_def cltv_ok_def csv_ok_def)

lemma sample_sig_valid [simp]: "valid_sig wire_lib (sample_ctx s) key (sample_sig key s)"
  by (simp add: valid_sig_def check_signature_def sample_sig_def butlast_append sample_ctx_def)

theorem htlc_spends_witness:
  "let script = create_htlc wire_lib [2] [3] (sha256 [9]) 500
   in execute wire_lib (sample_ctx script) [sample_sig [3] script, [9], [1]] = Inr True \<and>
      execute wire_lib (sample_ctx script) [sample_sig [2] script, []] = Inr True"
  unfolding Let_def
  by (subst (1 2) htlc_spends [where sender = "[2]" and receiver = "[3]" and payment_hash = "sha256 [9]"
        and locktime = 500]) (auto simp: suffix_def length_sha256)

theorem revocable_output_spends_witness:
  "let script = create_revocable_output_script wire_lib [2] [3] 144
   in execute wire_lib (sample_ctx script) [sample_sig [2] script, [1]] = Inr True \<and>
      execute wire_lib (sample_ctx script) [sample_sig [3] script, []] = Inr True"
  unfolding Let_def
  by (subst (1 2) revocable_output_spends [where revocation_pubkey = "[2]" and local_pubkey = "[3]"
        and delay = 144]) (auto simp: suffix_def)

theorem ptlc_spends_witness:
  "let script = create_ptlc_script wire_lib [2] [3] 500
   in execute wire_lib (sample_ctx script) [sample_sig [3] script, [1]] = Inr True"
  unfolding Let_def
  by (subst ptlc_spends [where sender = "[2]" and receiver = "[3]" and locktime = 500])
    (auto simp: suffix_def)

theorem anchor_spends_witness:
  "let script = create_anchor_script wire_lib [2]
   in execute wire_lib (sample_ctx script) [sample_sig [2] script] = Inr True \<and>
      execute wire_lib (sample_ctx script) [[]] = Inr True"
  unfolding Let_def
  by (subst (1 2) anchor_spends [where pubkey = "[2]"]) (auto simp: suffix_def)

theorem multisig_spends_witness:
  "let script = create_multisig_2of2 wire_lib [3] [2]
   in execute wire_lib (sample_ctx script) [[], sample_sig [2] script, sample_sig [3] script] = Inr True"
  unfolding Let_def
  by (subst multisig_spends [where ?key1.0 = "[3]" and ?key2.0 = "[2]"]) (auto simp: suffix_def)

theorem multisig_short_witness_raises_witness:
  "execute wire_lib (sample_ctx (create_multisig_2of2 wire_lib [3] [2])) [[1]] = Inl IndexError"
  by (rule multisig_short_witness_raises [where ?key1.0 = "[3]" and ?key2.0 = "[2]"]) simp_all

end
