(* ===== verification/Curve_Lib.thy ===== *)
theory Curve_Lib
  imports Bitcoin_Lib
begin

text \<open>
  The elliptic curve functions of \<open>bitcoin/utils.py\<close> and \<open>generate_revocation_secret\<close> of
  \<open>protocols/revocation.py\<close>.  The curve itself is the package \<open>ecdsa\<close>, whose code is not in the repository: a
  record \<open>eclib\<close> of its functions.  The laws the package relies on are those of the cyclic group generated
  by \<open>G\<close>, the locale \<open>curve_group\<close>; the integers modulo the group order are an instance.
\<close>

section \<open>The library's functions\<close>

text \<open>
  \<open>ec_G\<close>: the generator; \<open>ec_mul\<close>, \<open>ec_add\<close>, \<open>ec_neg\<close>: \<open>k * P\<close>, \<open>P + Q\<close>, \<open>-P\<close>; \<open>ec_is_inf\<close>: comparison with \<open>INFINITY\<close>;
  \<open>ec_x\<close>, \<open>ec_y\<close>: the affine coordinates; \<open>ec_point\<close>: \<open>PointJacobi(curve, x, y, 1)\<close>; \<open>ec_enc\<close>:
  \<open>to_bytes("compressed")\<close>, which raises at infinity; \<open>ec_dec\<close>: \<open>PointJacobi.from_bytes\<close>, \<open>None\<close> for its
  MalformedPointError.
\<close>

record 'p eclib =
  ec_G :: 'p
  ec_mul :: "int \<Rightarrow> 'p \<Rightarrow> 'p"
  ec_add :: "'p \<Rightarrow> 'p \<Rightarrow> 'p"
  ec_neg :: "'p \<Rightarrow> 'p"
  ec_is_inf :: "'p \<Rightarrow> bool"
  ec_x :: "'p \<Rightarrow> int"
  ec_y :: "'p \<Rightarrow> int"
  ec_point :: "int \<Rightarrow> int \<Rightarrow> 'p"
  ec_enc :: "'p \<Rightarrow> bytes res"
  ec_dec :: "bytes \<Rightarrow> 'p option"

definition SECP256K1_ORDER :: int where
  "SECP256K1_ORDER = 0xFFFFFFFFFFFFFFFFFFFFFFFFFFFFFFFEBAAEDCE6AF48A03BBFD25E8CD0364141"

definition SECRET_KEY_SIZE_BYTES :: nat where
  "SECRET_KEY_SIZE_BYTES = 32"

lemma order_pos [simp]: "0 < SECP256K1_ORDER"
  by (simp add: SECP256K1_ORDER_def)

lemma order_less: "SECP256K1_ORDER < 256 ^ 32"
  by (simp add: SECP256K1_ORDER_def)

section \<open>Point arithmetic on compressed keys\<close>

definition decode_point :: "'p eclib \<Rightarrow> bytes \<Rightarrow> 'p res" where
  "decode_point E b = (case ec_dec E b of None \<Rightarrow> Inl MalformedPointError | Some P \<Rightarrow> Inr P)"

text \<open>A scalar is reduced, and zero is replaced by one.\<close>

definition scalar_norm :: "int \<Rightarrow> int" where
  "scalar_norm scalar =
     (let s = scalar mod SECP256K1_ORDER in if s = 0 then 1 else s)"

definition ec_point_mul :: "'p eclib \<Rightarrow> int \<Rightarrow> bytes res" where
  "ec_point_mul E scalar = ec_enc E (ec_mul E (scalar_norm scalar) (ec_G E))"

definition ec_point_add :: "'p eclib \<Rightarrow> bytes \<Rightarrow> bytes \<Rightarrow> bytes res" where
  "ec_point_add E pubkey1 pubkey2 =
     rbind (decode_point E pubkey1) (\<lambda>p1.
     rbind (decode_point E pubkey2) (\<lambda>p2. ec_enc E (ec_add E p1 p2)))"

definition ec_scalar_mul_point :: "'p eclib \<Rightarrow> int \<Rightarrow> bytes \<Rightarrow> bytes res" where
  "ec_scalar_mul_point E scalar pubkey =
     rbind (decode_point E pubkey) (\<lambda>point. ec_enc E (ec_mul E (scalar_norm scalar) point))"

definition ec_point_neg :: "'p eclib \<Rightarrow> bytes \<Rightarrow> bytes res" where
  "ec_point_neg E pubkey = ec_scalar_mul_point E (SECP256K1_ORDER - 1) pubkey"

definition ec_point_sub :: "'p eclib \<Rightarrow> bytes \<Rightarrow> bytes \<Rightarrow> bytes res" where
  "ec_point_sub E pubkey1 pubkey2 =
     rbind (ec_point_neg E pubkey2) (\<lambda>neg_p2. ec_point_add E pubkey1 neg_p2)"

text \<open>\<open>int.from_bytes(sha256(m), "big") % N\<close>.\<close>

definition hash_scalar :: "bytes \<Rightarrow> int" where
  "hash_scalar m = uint_be (sha256 m) mod SECP256K1_ORDER"

definition derive_revocation_pubkey :: "'p eclib \<Rightarrow> bytes \<Rightarrow> bytes \<Rightarrow> bytes res" where
  "derive_revocation_pubkey E base_pubkey point =
     (let a = hash_scalar (base_pubkey @ point); b = hash_scalar (point @ base_pubkey)
      in rbind (ec_scalar_mul_point E a base_pubkey) (\<lambda>p1.
         rbind (ec_scalar_mul_point E b point) (\<lambda>p2. ec_point_add E p1 p2)))"

definition derive_revocation_privkey :: "'p eclib \<Rightarrow> bytes \<Rightarrow> bytes \<Rightarrow> bytes res" where
  "derive_revocation_privkey E base_secret commitment_secret =
     (let s_base = uint_be (take 32 base_secret) mod SECP256K1_ORDER;
          s_commit = uint_be (take 32 commitment_secret) mod SECP256K1_ORDER
      in rbind (ec_point_mul E s_base) (\<lambda>base_pub.
         rbind (ec_point_mul E s_commit) (\<lambda>commit_point.
           let a = hash_scalar (base_pub @ commit_point);
               b = hash_scalar (commit_point @ base_pub);
               r_scalar = (a * s_base + b * s_commit) mod SECP256K1_ORDER
           in to_bytes_be 32 r_scalar)))"

text \<open>The 32 random bytes are an argument.\<close>

definition generate_revocation_secret :: "'p eclib \<Rightarrow> bytes \<Rightarrow> (bytes \<times> bytes) res" where
  "generate_revocation_secret E random_bytes =
     (let scalar = uint_be random_bytes mod SECP256K1_ORDER
      in if scalar = 0 then
           rbind (to_bytes_be 32 1) (\<lambda>secret.
             rbind (ec_point_mul E 1) (\<lambda>point. Inr (secret, point)))
         else rbind (ec_point_mul E scalar) (\<lambda>point. Inr (random_bytes, point)))"

section \<open>The group of the generator\<close>

locale curve_group =
  fixes E :: "'p eclib"
  assumes add_mul: "ec_add E (ec_mul E a (ec_G E)) (ec_mul E b (ec_G E)) = ec_mul E (a + b) (ec_G E)"
    and mul_mul: "ec_mul E a (ec_mul E b (ec_G E)) = ec_mul E (a * b) (ec_G E)"
    and mul_mod: "ec_mul E (a mod SECP256K1_ORDER) (ec_G E) = ec_mul E a (ec_G E)"
    and enc_ok: "a mod SECP256K1_ORDER \<noteq> 0 \<Longrightarrow> \<exists>p. ec_enc E (ec_mul E a (ec_G E)) = Inr p"
    and dec_enc: "ec_enc E P = Inr p \<Longrightarrow> ec_dec E p = Some P"
begin

definition pub :: "int \<Rightarrow> bytes res" where
  "pub a = ec_enc E (ec_mul E a (ec_G E))"

lemma pub_mod: "pub (a mod SECP256K1_ORDER) = pub a"
  by (simp add: pub_def mul_mod)

lemma pub_cong: "a mod SECP256K1_ORDER = b mod SECP256K1_ORDER \<Longrightarrow> pub a = pub b"
  by (metis pub_mod)

lemma pub_ok: "a mod SECP256K1_ORDER \<noteq> 0 \<Longrightarrow> \<exists>b. pub a = Inr b"
  by (simp add: pub_def enc_ok)

lemma point_mul: "a mod SECP256K1_ORDER \<noteq> 0 \<Longrightarrow> ec_point_mul E a = pub a"
  by (simp add: ec_point_mul_def scalar_norm_def Let_def pub_def mul_mod)

lemma ec_point_mul_ok: "\<exists>p. ec_point_mul E k = Inr p"
proof -
  have "scalar_norm k mod SECP256K1_ORDER \<noteq> 0" by (auto simp: scalar_norm_def Let_def SECP256K1_ORDER_def)
  then show ?thesis using enc_ok by (simp add: ec_point_mul_def)
qed

lemma decode_pub: "pub a = Inr b \<Longrightarrow> decode_point E b = Inr (ec_mul E a (ec_G E))"
  by (simp add: pub_def decode_point_def dec_enc)

lemma point_add: "pub a = Inr p \<Longrightarrow> pub b = Inr q \<Longrightarrow> ec_point_add E p q = pub (a + b)"
  by (simp add: ec_point_add_def decode_pub add_mul) (simp add: pub_def)

lemma scalar_mul_point:
  assumes "k mod SECP256K1_ORDER \<noteq> 0" and "pub a = Inr p"
  shows "ec_scalar_mul_point E k p = pub (k * a)"
proof -
  have "ec_scalar_mul_point E k p = pub (k mod SECP256K1_ORDER * a)"
    using assms by (simp add: ec_scalar_mul_point_def decode_pub scalar_norm_def Let_def mul_mul pub_def)
  also have "\<dots> = pub (k * a)"
    by (rule pub_cong) (simp add: mod_mult_left_eq)
  finally show ?thesis .
qed

lemma point_neg: "pub a = Inr p \<Longrightarrow> ec_point_neg E p = pub (- a)"
proof -
  assume a: "pub a = Inr p"
  have "(SECP256K1_ORDER - 1) mod SECP256K1_ORDER \<noteq> 0"
    by (simp add: SECP256K1_ORDER_def)
  from scalar_mul_point [OF this a] have "ec_point_neg E p = pub ((SECP256K1_ORDER - 1) * a)"
    by (simp add: ec_point_neg_def)
  also have "\<dots> = pub (- a)"
    by (rule pub_cong) (simp add: mod_eq_dvd_iff algebra_simps)
  finally show ?thesis .
qed

text \<open>The penalty key: the scalar derived from both secrets is the discrete logarithm of the derived point.\<close>

lemma revocation_keys:
  assumes "pub x = Inr P" and "pub y = Inr C"
    and "hash_scalar (P @ C) \<noteq> 0" and "hash_scalar (C @ P) \<noteq> 0"
    and "pub (hash_scalar (P @ C) * x) = Inr p1" and "pub (hash_scalar (C @ P) * y) = Inr p2"
  shows "derive_revocation_pubkey E P C = pub (hash_scalar (P @ C) * x + hash_scalar (C @ P) * y)"
proof -
  have n: "hash_scalar m mod SECP256K1_ORDER = hash_scalar m" for m
    by (simp add: hash_scalar_def)
  show ?thesis
    using assms by (simp add: derive_revocation_pubkey_def Let_def n point_add scalar_mul_point)
qed

lemma point_sub:
  assumes "pub a = Inr p" and "pub b = Inr q" and "b mod SECP256K1_ORDER \<noteq> 0"
  shows "ec_point_sub E p q = pub (a - b)"
proof -
  have "(- b) mod SECP256K1_ORDER \<noteq> 0"
    using assms(3) by (simp add: mod_eq_0_iff_dvd)
  then obtain n where n: "pub (- b) = Inr n" using pub_ok by blast
  then show ?thesis
    using point_neg [OF assms(2)] point_add [OF assms(1) n] by (simp add: ec_point_sub_def)
qed

end

section \<open>An instance: the integers modulo the group order\<close>

definition line_curve :: "int eclib" where
  "line_curve =
     \<lparr>ec_G = 1, ec_mul = (\<lambda>k p. k * p mod SECP256K1_ORDER), ec_add = (\<lambda>p q. (p + q) mod SECP256K1_ORDER),
      ec_neg = (\<lambda>p. - p mod SECP256K1_ORDER), ec_is_inf = (\<lambda>p. p = 0), ec_x = (\<lambda>p. p), ec_y = (\<lambda>p. 0),
      ec_point = (\<lambda>x y. x),
      ec_enc = (\<lambda>p. if p = 0 then Inl TypeError else rbind (to_bytes_be 32 p) (\<lambda>b. Inr (2 # b))),
      ec_dec = (\<lambda>b. if length b = 33 then Some (uint_be (tl b)) else None)\<rparr>"

interpretation line: curve_group line_curve
proof unfold_locales
  fix a :: int
  assume "a mod SECP256K1_ORDER \<noteq> 0"
  moreover have "0 \<le> a mod SECP256K1_ORDER" by simp
  moreover have "a mod SECP256K1_ORDER < 256 ^ 32"
    by (rule less_trans [OF pos_mod_bound [OF order_pos] order_less])
  ultimately show "\<exists>p. ec_enc line_curve (ec_mul line_curve a (ec_G line_curve)) = Inr p"
    by (simp add: line_curve_def to_bytes_be_def)
next
  fix P p
  assume "ec_enc line_curve P = Inr p"
  then show "ec_dec line_curve p = Some P"
    by (auto simp: line_curve_def rbind_eq_Inr length_to_bytes_be to_bytes_be_roundtrip split: if_splits)
qed (simp_all add: line_curve_def mod_add_eq mod_mult_right_eq mod_simps mult.assoc)

end
