(* ===== verification/Text.thy ===== *)
theory Text
  imports Prelude
begin

text \<open>
  Python text and byte-string operations several components use: UTF-8, \<open>ljust\<close> and \<open>rstrip\<close> on bytes, and slices with
  a possibly negative bound.  The texts of the development are those of code points below 256, so decoding also refuses
  the encodings of larger ones.
\<close>

section \<open>UTF-8\<close>

definition utf8_char :: "char \<Rightarrow> bytes" where
  "utf8_char c =
     (let n = (of_char c :: nat)
      in if n < 128 then [word_of_nat n] else [word_of_nat (192 + n div 64), word_of_nat (128 + n mod 64)])"

definition utf8_encode :: "string \<Rightarrow> bytes" where
  "utf8_encode s = concat (map utf8_char s)"

text \<open>\<open>None\<close> is a UnicodeDecodeError, which is a ValueError.\<close>

fun utf8_decode :: "bytes \<Rightarrow> string option" where
  "utf8_decode [] = Some []"
| "utf8_decode (b # bs) =
     (if unat b < 128 then map_option (Cons (char_of (unat b))) (utf8_decode bs)
      else if b = 0xC2 \<or> b = 0xC3 then
        (case bs of
           [] \<Rightarrow> None
         | c # cs \<Rightarrow>
             if 128 \<le> unat c \<and> unat c < 192
             then map_option (Cons (char_of (64 * (unat b - 192) + (unat c - 128)))) (utf8_decode cs) else None)
      else None)"

lemma utf8_encode_simps [simp, codec]:
  "utf8_encode [] = []"
  "utf8_encode (c # s) = utf8_char c @ utf8_encode s"
  "utf8_encode (s @ t) = utf8_encode s @ utf8_encode t"
  by (simp_all add: utf8_encode_def)

lemma utf8_decode_char: "utf8_decode (utf8_char c @ bs) = map_option (Cons c) (utf8_decode bs)"
proof (cases "(of_char c :: nat) < 128")
  case True
  then have "unat (word_of_nat (of_char c) :: byte) = of_char c"
    by (simp add: unat_of_nat)
  with True show ?thesis by (simp add: utf8_char_def)
next
  case False
  let ?n = "of_char c :: nat"
  have n: "?n < 256" by simp
  then have "?n div 64 = 2 \<or> ?n div 64 = 3" using False by linarith
  then have b: "word_of_nat (192 + ?n div 64) = (0xC2 :: byte) \<or> word_of_nat (192 + ?n div 64) = (0xC3 :: byte)"
    and ub: "unat (word_of_nat (192 + ?n div 64) :: byte) = 192 + ?n div 64"
    by (auto simp: unat_of_nat)
  have c: "unat (word_of_nat (128 + ?n mod 64) :: byte) = 128 + ?n mod 64"
  proof -
    have "128 + ?n mod 64 < 256" using mod_less_divisor [of 64 ?n] by linarith
    then show ?thesis by (simp only: unat_of_nat) simp
  qed
  have "64 * (?n div 64) + ?n mod 64 = ?n" by simp
  with False b show ?thesis
    by (simp add: utf8_char_def Let_def ub c del: of_nat_add of_nat_mult)
qed

lemma utf8_decode_encode [simp, codec]: "utf8_decode (utf8_encode s) = Some s"
  by (induction s) (simp_all add: utf8_decode_char)

lemma utf8_char_not_Nil [simp]: "utf8_char c \<noteq> []"
  by (simp add: utf8_char_def Let_def)

lemma utf8_encode_eq_Nil [simp]: "utf8_encode s = [] \<longleftrightarrow> s = []"
  by (cases s) simp_all

text \<open>A bytes literal \<open>b"..."\<close> of ASCII characters.\<close>

definition byte_lit :: "string \<Rightarrow> bytes" where
  "byte_lit s = map of_char s"

section \<open>Slices and padding\<close>

text \<open>\<open>xs[k:]\<close> and \<open>xs[:k]\<close>; a negative bound counts from the end.\<close>

definition slice_from :: "int \<Rightarrow> 'a list \<Rightarrow> 'a list" where
  "slice_from k xs = (if 0 \<le> k then drop (nat k) xs else drop (length xs - nat (- k)) xs)"

definition slice_to :: "int \<Rightarrow> 'a list \<Rightarrow> 'a list" where
  "slice_to k xs = (if 0 \<le> k then take (nat k) xs else take (length xs - nat (- k)) xs)"

text \<open>\<open>xs[a:b]\<close> for bounds that are not negative.\<close>

definition py_slice :: "nat \<Rightarrow> nat \<Rightarrow> 'a list \<Rightarrow> 'a list" where
  "py_slice a b xs = take (b - a) (drop a xs)"

definition ljust :: "nat \<Rightarrow> byte \<Rightarrow> bytes \<Rightarrow> bytes" where
  "ljust n b bs = bs @ replicate (n - length bs) b"

definition rstrip :: "byte \<Rightarrow> bytes \<Rightarrow> bytes" where
  "rstrip b bs = rev (dropWhile (\<lambda>c. c = b) (rev bs))"

lemma length_ljust: "length bs \<le> n \<Longrightarrow> length (ljust n b bs) = n"
  by (simp add: ljust_def)

lemma rstrip_ljust: "bs = [] \<or> last bs \<noteq> b \<Longrightarrow> rstrip b (ljust n b bs) = bs"
  by (cases bs rule: rev_cases) (simp_all add: rstrip_def ljust_def dropWhile_append)

lemma py_slice_append [simp]:
  "length xs = a \<Longrightarrow> py_slice a b (xs @ ys) = take (b - a) ys"
  by (simp add: py_slice_def)

end
