(* ===== verification/Taproot.thy ===== *)
theory Taproot
  imports Curve_Lib Text
begin

text \<open>
  \<open>bitcoin/taproot.py\<close>: tagged hashes, x-only keys, BIP 340 signatures, the Taproot key tweak, leaf
  hashes and Bech32m addresses.  Points are those of an \<open>eclib\<close>; the field arithmetic that lifts an x
  coordinate is the code's own.  Coordinates of the point at infinity are \<open>None\<close> in the library, so that
  \<open>int(P.x())\<close> is a TypeError.
\<close>

section \<open>Field arithmetic and hashes\<close>

definition SECP256K1_FIELD_P :: int where
  "SECP256K1_FIELD_P = 0xFFFFFFFFFFFFFFFFFFFFFFFFFFFFFFFFFFFFFFFFFFFFFFFFFFFFFFFEFFFFFC2F"

text \<open>Python's three-argument \<open>pow\<close>, by repeated squaring.\<close>

fun pow_mod :: "int \<Rightarrow> nat \<Rightarrow> int \<Rightarrow> int" where
  "pow_mod b e m =
     (if e = 0 then 1 mod m
      else let r = pow_mod (b * b mod m) (e div 2) m
           in if odd e then r * b mod m else r)"

declare pow_mod.simps [simp del]

lemma pow_mod_correct: "pow_mod b e m = b ^ e mod m"
proof (induction b e m rule: pow_mod.induct)
  case (1 b e m)
  show ?case
  proof (cases "e = 0")
    case True
    then show ?thesis by (simp add: pow_mod.simps)
  next
    case False
    let ?r = "pow_mod (b * b mod m) (e div 2) m"
    have r: "?r = b ^ (2 * (e div 2)) mod m"
      using 1 False by (simp add: power_mod power_mult power2_eq_square)
    show ?thesis
    proof (cases "odd e")
      case True
      have "?r * b mod m = b ^ (2 * (e div 2)) * b mod m"
        by (simp add: r mod_mult_left_eq)
      also have "b ^ (2 * (e div 2)) * b = b ^ e"
        using True by (metis odd_two_times_div_two_succ power_add power_one_right)
      finally show ?thesis
        using True False by (subst pow_mod.simps) (simp add: Let_def)
    next
      case even: False
      then show ?thesis
        using False r by (subst pow_mod.simps) (simp add: Let_def)
    qed
  qed
qed

definition tagged_hash :: "string \<Rightarrow> bytes \<Rightarrow> bytes" where
  "tagged_hash tag msg =
     (let tag_hash = sha256 (utf8_encode tag) in sha256 (tag_hash @ tag_hash @ msg))"

lemma length_tagged_hash [simp]: "length (tagged_hash tag msg) = 32"
  by (simp add: tagged_hash_def Let_def)

section \<open>x-only keys\<close>

definition point_from_x :: "'p eclib \<Rightarrow> int \<Rightarrow> 'p option" where
  "point_from_x E x =
     (if SECP256K1_FIELD_P \<le> x then None
      else let y_sq = (pow_mod x 3 SECP256K1_FIELD_P + 7) mod SECP256K1_FIELD_P;
               y = pow_mod y_sq (nat ((SECP256K1_FIELD_P + 1) div 4)) SECP256K1_FIELD_P
           in if pow_mod y 2 SECP256K1_FIELD_P \<noteq> y_sq then None
              else let y = (if y mod 2 \<noteq> 0 then SECP256K1_FIELD_P - y else y)
                   in Some (ec_point E x y))"

definition lift_x :: "'p eclib \<Rightarrow> bytes \<Rightarrow> 'p option" where
  "lift_x E x_bytes = (if length x_bytes \<noteq> 32 then None else point_from_x E (uint_be x_bytes))"

definition pubkey_to_x_only :: "bytes \<Rightarrow> (bytes \<times> bool) res" where
  "pubkey_to_x_only pubkey =
     (if length pubkey = 32 then Inr (pubkey, False)
      else if length pubkey = 33 then Inr (take 32 (drop 1 pubkey), hd pubkey = 3)
      else Inl ValueError)"

text \<open>\<open>int(P.x())\<close> and \<open>int(P.y())\<close>.\<close>

definition affine_x :: "'p eclib \<Rightarrow> 'p \<Rightarrow> int res" where
  "affine_x E P = (if ec_is_inf E P then Inl TypeError else Inr (ec_x E P))"

definition affine_y :: "'p eclib \<Rightarrow> 'p \<Rightarrow> int res" where
  "affine_y E P = (if ec_is_inf E P then Inl TypeError else Inr (ec_y E P))"

section \<open>BIP 340 signatures\<close>

text \<open>
  A private key given as bytes is reduced first (\<open>int.from_bytes(key[:32], "big")\<close>); \<open>rand\<close> is
  \<open>aux_rand or secrets.token_bytes(32)\<close>.
\<close>

definition schnorr_sign :: "'p eclib \<Rightarrow> int \<Rightarrow> bytes \<Rightarrow> bytes \<Rightarrow> bytes res" where
  "schnorr_sign E private_key msg rand =
     (let d0 = private_key mod SECP256K1_ORDER
      in if d0 = 0 then Inl ValueError
         else
           let P = ec_mul E d0 (ec_G E)
           in rbind (affine_y E P) (\<lambda>P_y.
              let d = (if P_y mod 2 \<noteq> 0 then SECP256K1_ORDER - d0 else d0)
              in rbind (to_bytes_be 32 d) (\<lambda>d_bytes.
                 rbind (affine_x E P) (\<lambda>P_x.
                 rbind (to_bytes_be 32 P_x) (\<lambda>P_x_bytes.
                   let t = bytes_xor d_bytes (tagged_hash ''BIP0340/aux'' rand);
                       k0 = uint_be (tagged_hash ''BIP0340/nonce'' (t @ P_x_bytes @ msg)) mod SECP256K1_ORDER
                   in if k0 = 0 then Inl RuntimeError
                      else
                        let R = ec_mul E k0 (ec_G E)
                        in rbind (affine_y E R) (\<lambda>R_y.
                           let k = (if R_y mod 2 \<noteq> 0 then SECP256K1_ORDER - k0 else k0)
                           in rbind (affine_x E R) (\<lambda>R_x.
                              rbind (to_bytes_be 32 R_x) (\<lambda>R_x_bytes.
                                let e = uint_be (tagged_hash ''BIP0340/challenge'' (R_x_bytes @ P_x_bytes @ msg))
                                      mod SECP256K1_ORDER;
                                    s = (k + e * d) mod SECP256K1_ORDER
                                in rbind (to_bytes_be 32 s) (\<lambda>s_bytes. Inr (R_x_bytes @ s_bytes))))))))))"

definition schnorr_verify :: "'p eclib \<Rightarrow> bytes \<Rightarrow> bytes \<Rightarrow> bytes \<Rightarrow> bool" where
  "schnorr_verify E key msg sig =
     (let x_only = (if length key = 33 then take 32 (drop 1 key) else key)
      in if length sig \<noteq> 64 \<or> length x_only \<noteq> 32 then False
         else
           let r_x_bytes = take 32 sig; r_x = uint_be r_x_bytes; s = uint_be (drop 32 sig)
           in if SECP256K1_FIELD_P \<le> r_x \<or> SECP256K1_ORDER \<le> s then False
              else case lift_x E x_only of
                  None \<Rightarrow> False
                | Some P \<Rightarrow>
                    let e = uint_be (tagged_hash ''BIP0340/challenge'' (r_x_bytes @ x_only @ msg))
                          mod SECP256K1_ORDER;
                        R = ec_add E (ec_mul E s (ec_G E)) (ec_neg E (ec_mul E e P))
                    in if ec_is_inf E R then False
                       else if ec_y E R mod 2 \<noteq> 0 then False
                       else ec_x E R = r_x)"

section \<open>Taproot output keys\<close>

text \<open>The scalar both tweaks add: a missing Merkle root is the empty string.\<close>

definition tweak_scalar :: "bytes \<Rightarrow> bytes option \<Rightarrow> int" where
  "tweak_scalar x_only merkle_root =
     uint_be (tagged_hash ''TapTweak'' (x_only @ (case merkle_root of None \<Rightarrow> [] | Some r \<Rightarrow> r)))
     mod SECP256K1_ORDER"

definition taproot_tweak_pubkey :: "'p eclib \<Rightarrow> bytes \<Rightarrow> bytes option \<Rightarrow> (bytes \<times> int) res" where
  "taproot_tweak_pubkey E internal_pubkey merkle_root =
     rbind (pubkey_to_x_only internal_pubkey) (\<lambda>(x_only, _).
       case lift_x E x_only of
         None \<Rightarrow> Inl ValueError
       | Some P \<Rightarrow>
           let Q = ec_add E P (ec_mul E (tweak_scalar x_only merkle_root) (ec_G E))
           in rbind (affine_x E Q) (\<lambda>x.
              rbind (to_bytes_be 32 x) (\<lambda>Q_x.
              rbind (affine_y E Q) (\<lambda>y. Inr (Q_x, if y mod 2 \<noteq> 0 then 1 else 0)))))"

definition taproot_tweak_seckey :: "'p eclib \<Rightarrow> bytes \<Rightarrow> bytes option \<Rightarrow> bytes res" where
  "taproot_tweak_seckey E internal_seckey merkle_root =
     (let d0 = uint_be (take 32 internal_seckey) mod SECP256K1_ORDER; P = ec_mul E d0 (ec_G E)
      in rbind (affine_y E P) (\<lambda>y.
         let d = (if y mod 2 \<noteq> 0 then SECP256K1_ORDER - d0 else d0)
         in rbind (affine_x E P) (\<lambda>x.
            rbind (to_bytes_be 32 x) (\<lambda>P_x.
              let q = (d + tweak_scalar P_x merkle_root) mod SECP256K1_ORDER
              in to_bytes_be 32 q))))"

definition tapleaf_hash :: "bytes \<Rightarrow> byte \<Rightarrow> bytes" where
  "tapleaf_hash script leaf_version =
     (let n = length script;
          len_bytes = (if n < 253 then [word_of_nat n]
                       else if n \<le> 0xFFFF then 0xfd # le_digits 2 (int n)
                       else 0xfe # le_digits 4 (int n))
      in tagged_hash ''TapLeaf'' ([leaf_version] @ len_bytes @ script))"

section \<open>Bech32m addresses\<close>

definition BECH32_CHARSET :: string where
  "BECH32_CHARSET = ''qpzry9x8gf2tvdw0s3jn54khce6mua7l''"

definition BECH32M_CONST :: int where
  "BECH32M_CONST = 0x2BC830A3"

definition bech32_gen :: "int list" where
  "bech32_gen = [0x3B6A57B2, 0x26508E6D, 0x1EA119FA, 0x3D4233DD, 0x2A1462B3]"

definition polymod_step :: "int \<Rightarrow> int \<Rightarrow> int" where
  "polymod_step v chk =
     (let b = drop_bit 25 chk;
          chk = push_bit 5 (chk AND 0x1FFFFFF) XOR v
      in fold (\<lambda>i chk. chk XOR (if odd (drop_bit i b) then bech32_gen ! i else 0)) [0..<5] chk)"

definition bech32_polymod :: "int list \<Rightarrow> int" where
  "bech32_polymod values = fold polymod_step values 1"

definition bech32_hrp_expand :: "string \<Rightarrow> int list" where
  "bech32_hrp_expand hrp =
     map (\<lambda>c. drop_bit 5 (of_char c)) hrp @ [0] @ map (\<lambda>c. of_char c AND 31) hrp"

text \<open>
  The inner \<open>while\<close> of \<open>_convertbits\<close>: the groups of \<open>tobits\<close> bits the accumulator holds, and the
  bits left (positive widths).
\<close>

function emit_groups :: "nat \<Rightarrow> int \<Rightarrow> nat \<Rightarrow> int list \<times> nat" where
  "emit_groups tobits acc bits =
     (if tobits = 0 \<or> bits < tobits then ([], bits)
      else let bits = bits - tobits;
               g = drop_bit bits acc AND (push_bit tobits 1 - 1);
               (gs, bits) = emit_groups tobits acc bits
           in (g # gs, bits))"
  by pat_completeness auto
termination
  by (relation "measure (\<lambda>(t, a, b). b)") auto

declare emit_groups.simps [simp del]

fun convertbits_loop :: "nat \<Rightarrow> nat \<Rightarrow> int list \<Rightarrow> int \<Rightarrow> nat \<Rightarrow> (int list \<times> int \<times> nat) option" where
  "convertbits_loop frombits tobits [] acc bits = Some ([], acc, bits)"
| "convertbits_loop frombits tobits (v # vs) acc bits =
     (if v < 0 \<or> drop_bit frombits v \<noteq> 0 then None
      else
        let max_acc = push_bit (frombits + tobits - 1) 1 - 1;
            acc = (push_bit frombits acc OR v) AND max_acc;
            (gs, bits) = emit_groups tobits acc (bits + frombits)
        in map_option (\<lambda>(ret, acc, bits). (gs @ ret, acc, bits))
             (convertbits_loop frombits tobits vs acc bits))"

definition convertbits :: "int list \<Rightarrow> nat \<Rightarrow> nat \<Rightarrow> bool \<Rightarrow> int list option" where
  "convertbits data frombits tobits pad =
     (case convertbits_loop frombits tobits data 0 0 of
        None \<Rightarrow> None
      | Some (ret, acc, bits) \<Rightarrow>
          let last_group = push_bit (tobits - bits) acc AND (push_bit tobits 1 - 1)
          in if pad then Some (if bits \<noteq> 0 then ret @ [last_group] else ret)
             else if frombits \<le> bits \<or> last_group \<noteq> 0 then None
             else Some ret)"

text \<open>The six checksum symbols of a 30-bit value, highest first.\<close>

definition checksum_symbols :: "int \<Rightarrow> int list" where
  "checksum_symbols p = map (\<lambda>i. drop_bit (5 * (5 - i)) p AND 31) [0..<6]"

text \<open>The five-bit values of an address: version, program and the six checksum symbols.\<close>

definition bech32m_symbols :: "string \<Rightarrow> int list \<Rightarrow> int list" where
  "bech32m_symbols hrp data =
     (let polymod = bech32_polymod (bech32_hrp_expand hrp @ data @ [0, 0, 0, 0, 0, 0]) XOR BECH32M_CONST
      in data @ checksum_symbols polymod)"

text \<open>\<open>BECH32_CHARSET[d]\<close>, an IndexError past its end (the code's values are never negative).\<close>

definition encode_bech32m :: "string \<Rightarrow> int \<Rightarrow> bytes \<Rightarrow> string res" where
  "encode_bech32m hrp witness_version witness_program =
     (case convertbits (map uint witness_program) 8 5 True of
        None \<Rightarrow> Inl ValueError
      | Some five_bit_program \<Rightarrow>
          let symbols = bech32m_symbols hrp (witness_version # five_bit_program)
          in if list_all (\<lambda>d. d < 32) symbols
             then Inr (hrp @ ''1'' @ map (\<lambda>d. BECH32_CHARSET ! nat d) symbols)
             else Inl IndexError)"

definition pubkey_to_p2tr_address :: "bytes \<Rightarrow> string \<Rightarrow> string res" where
  "pubkey_to_p2tr_address output_pubkey_x_only hrp = encode_bech32m hrp 1 output_pubkey_x_only"

section \<open>The checksum is valid\<close>

text \<open>A step is linear for \<open>XOR\<close>, and on a small state it appends a five-bit symbol.\<close>

abbreviation bits_lt :: "nat \<Rightarrow> int \<Rightarrow> bool" where
  "bits_lt n i \<equiv> 0 \<le> i \<and> i < 2 ^ n"

lemma xor_bits_lt: "bits_lt n a \<Longrightarrow> bits_lt n b \<Longrightarrow> bits_lt n (a XOR b)"
  by (auto intro: XOR_upper)

lemma if_xor: "(if p \<noteq> q then g else 0) = (if p then g else 0) XOR (if q then g else (0 :: int))"
  by simp

lemma fold_generators:
  "fold (\<lambda>i chk. chk XOR (if odd (drop_bit i b) then [g0, g1, g2, g3, g4] ! i else 0)) [0..<5] c =
    (((((c XOR (if odd (drop_bit 0 b) then g0 else 0)) XOR (if odd (drop_bit 1 b) then g1 else 0))
      XOR (if odd (drop_bit 2 b) then g2 else 0)) XOR (if odd (drop_bit 3 b) then g3 else 0))
      XOR (if odd (drop_bit 4 b) then g4 else (0 :: int)))"
proof -
  have idx: "[0..<5] = [0, 1, 2, 3, 4 :: nat]"
    by (simp add: upt_rec)
  show ?thesis unfolding idx by simp
qed

lemma polymod_step_eq:
  "polymod_step v chk =
    (((((push_bit 5 (chk AND 0x1FFFFFF) XOR v)
      XOR (if bit chk 25 then 0x3B6A57B2 else 0)) XOR (if bit chk 26 then 0x26508E6D else 0))
      XOR (if bit chk 27 then 0x1EA119FA else 0)) XOR (if bit chk 28 then 0x3D4233DD else 0))
      XOR (if bit chk 29 then 0x2A1462B3 else 0)"
proof -
  have "odd (drop_bit i (drop_bit 25 chk)) = bit chk (i + 25)" for i
    by (simp add: bit_iff_odd_drop_bit)
  then show ?thesis
    unfolding polymod_step_def Let_def bech32_gen_def fold_generators by (simp only: add_0 numeral_plus_one one_plus_numeral) simp
qed

lemma polymod_step_xor:
  "polymod_step (v XOR w) (a XOR b) = polymod_step v a XOR polymod_step w b"
  unfolding polymod_step_eq bit_xor_iff if_xor
  by (simp only: bit.conj_xor_distrib2 push_bit_xor xor.assoc xor.left_commute xor.commute)

lemma and_low_bits: "bits_lt 25 (chk AND 0x1FFFFFF)"
proof -
  have "(0x1FFFFFF :: int) = mask 25" by (simp add: mask_eq_exp_minus_1)
  then have "chk AND 0x1FFFFFF = chk mod 2 ^ 25"
    by (simp only: take_bit_eq_mask [symmetric] take_bit_eq_mod)
  then show ?thesis by simp
qed

lemma push_xor_small:
  assumes "bits_lt 5 v"
  shows "push_bit 5 c XOR v = 32 * c + v"
proof -
  have "push_bit 5 c AND v = 0"
  proof (rule bit_eqI)
    fix n
    have "bit v n \<Longrightarrow> n < 5"
      using assms by (metis bit_take_bit_iff take_bit_int_eq_self)
    then show "bit (push_bit 5 c AND v) n = bit (0 :: int) n"
      by (auto simp: bit_and_iff bit_push_bit_iff)
  qed
  then have "push_bit 5 c XOR v = push_bit 5 c + v"
    by (simp add: disjunctive_xor_eq_or disjunctive_add_eq_or)
  then show ?thesis by (simp add: push_bit_eq_mult)
qed

lemma polymod_step_bits:
  assumes "bits_lt 5 v"
  shows "bits_lt 30 (polymod_step v chk)"
proof -
  have low: "bits_lt 30 (push_bit 5 c XOR v)" if "bits_lt 25 c" for c
    using that assms by (simp add: push_xor_small)
  have A: "bits_lt 30 (push_bit 5 (chk AND 0x1FFFFFF) XOR v)"
    by (rule low [OF and_low_bits])
  show ?thesis
    unfolding polymod_step_eq
    by (rule xor_bits_lt [OF xor_bits_lt [OF xor_bits_lt [OF xor_bits_lt [OF xor_bits_lt [OF A]]]]])
      simp_all
qed

lemma polymod_step_small:
  assumes "bits_lt 25 chk" and "bits_lt 5 v"
  shows "polymod_step v chk = 32 * chk + v"
proof -
  have "\<not> bit chk n" if "25 \<le> n" for n
    using assms(1) that by (metis bit_take_bit_iff leD take_bit_int_eq_self)
  moreover have "chk AND 0x1FFFFFF = chk"
  proof -
    have "(0x1FFFFFF :: int) = mask 25" by (simp add: mask_eq_exp_minus_1)
    then have "chk AND 0x1FFFFFF = take_bit 25 chk"
      by (simp only: take_bit_eq_mask)
    then show ?thesis using assms(1) by (simp add: take_bit_int_eq_self)
  qed
  ultimately show ?thesis
    using assms(2) by (simp add: polymod_step_eq push_xor_small)
qed

lemma int_div_less:
  assumes "(p :: int) < n * q" and "0 < q"
  shows "p div q < n"
proof (rule ccontr)
  assume "\<not> p div q < n"
  then have "n * q \<le> p div q * q" using assms(2) by simp
  also have "\<dots> \<le> p"
    using assms(2) by (metis add_le_same_cancel1 div_mult_mod_eq le_add_same_cancel1 pos_mod_sign)
  finally show False using assms(1) by simp
qed

lemma fold_polymod_xor:
  "length vs = length ws \<Longrightarrow>
    fold polymod_step (map2 (XOR) vs ws) (a XOR b) = fold polymod_step vs a XOR fold polymod_step ws b"
  by (induction vs ws arbitrary: a b rule: list_induct2) (simp_all add: polymod_step_xor)

lemma fold_polymod_bits:
  "list_all (bits_lt 5) vs \<Longrightarrow> bits_lt 30 chk \<Longrightarrow> bits_lt 30 (fold polymod_step vs chk)"
proof (induction vs arbitrary: chk)
  case (Cons v vs)
  then show ?case using polymod_step_bits [of v chk] by simp
qed simp

lemma checksum_symbols_eq:
  "checksum_symbols p =
    [p div 2 ^ 25 mod 32, p div 2 ^ 20 mod 32, p div 2 ^ 15 mod 32, p div 2 ^ 10 mod 32, p div 2 ^ 5 mod 32, p mod 32]"
proof -
  have and31: "x AND 31 = x mod 32" for x :: int
    using take_bit_eq_mask [of 5 x] by (simp add: take_bit_eq_mod mask_eq_exp_minus_1)
  have idx: "[0..<6] = [0, 1, 2, 3, 4, 5 :: nat]"
    by (simp add: upt_rec)
  show ?thesis
    by (simp add: checksum_symbols_def idx and31 drop_bit_eq_div)
qed

lemma fold_checksum_symbols:
  assumes "bits_lt 30 p"
  shows "fold polymod_step (checksum_symbols p) 0 = p"
proof -
  have step: "polymod_step (p div 2 ^ k mod 32) (p div 2 ^ (k + 5)) = p div 2 ^ k" if "k \<le> 25" for k
  proof -
    have "p div 2 ^ (k + 5) = p div 2 ^ k div 32"
      by (simp add: power_add zdiv_zmult2_eq)
    moreover have "p div 2 ^ (k + 5) < 2 ^ 25"
    proof -
      have "(2 :: int) ^ 5 \<le> 2 ^ (k + 5)"
        by (rule power_increasing) simp_all
      then have "p < 2 ^ 25 * 2 ^ (k + 5)"
        using assms by simp
      then show ?thesis
        by (simp add: int_div_less)
    qed
    ultimately show ?thesis
      using assms by (subst polymod_step_small) (simp_all add: pos_imp_zdiv_nonneg_iff)
  qed
  have "p div 2 ^ 30 = 0" using assms by simp
  then have "polymod_step (p div 2 ^ 25 mod 32) 0 = p div 2 ^ 25"
    using step [of 25] by (simp only: numeral_plus_numeral semiring_norm order_refl simp_thms)
  then show ?thesis
    using step [of 20] step [of 15] step [of 10] step [of 5] step [of 0]
    by (simp add: checksum_symbols_eq)
qed

lemma checksum_symbols_range: "list_all (bits_lt 5) (checksum_symbols p)"
  by (simp add: checksum_symbols_eq)

lemma hrp_expand_range: "list_all (bits_lt 5) (bech32_hrp_expand hrp)"
proof -
  have "bits_lt 8 (of_char c)" for c
  proof -
    have "(of_char c :: int) = int (of_char c)" by (simp add: of_nat_of_char)
    then show ?thesis using nat_of_char_less_256 [of c] by simp
  qed
  moreover have "bits_lt 5 (drop_bit 5 x)" if "bits_lt 8 x" for x :: int
    using that int_div_less [of x 32 32] by (simp add: drop_bit_eq_div pos_imp_zdiv_nonneg_iff)
  moreover have "x AND 31 = x mod 32" for x :: int
    using take_bit_eq_mask [of 5 x] by (simp add: take_bit_eq_mod mask_eq_exp_minus_1)
  ultimately show ?thesis
    by (auto simp: bech32_hrp_expand_def list_all_iff)
qed

text \<open>Property C17: every address the encoder builds carries a valid Bech32m checksum: the polynomial
  remainder of its expanded prefix and symbols is the Bech32m constant.\<close>

theorem bech32m_checksum_valid:
  assumes "list_all (\<lambda>d. 0 \<le> d \<and> d < 32) data"
  shows "bech32_polymod (bech32_hrp_expand hrp @ bech32m_symbols hrp data) = BECH32M_CONST"
proof -
  define X where "X = fold polymod_step (bech32_hrp_expand hrp @ data) 1"
  define z where "z = replicate 6 (0 :: int)"
  define p where "p = fold polymod_step z X XOR BECH32M_CONST"
  have X: "bits_lt 30 X"
    unfolding X_def by (rule fold_polymod_bits) (use assms hrp_expand_range in simp_all)
  have "bits_lt 30 (fold polymod_step z X)"
    by (rule fold_polymod_bits [OF _ X]) (simp add: z_def list_all_length)
  then have p: "bits_lt 30 p"
    unfolding p_def by (rule xor_bits_lt) (simp add: BECH32M_CONST_def)
  have "fold polymod_step (checksum_symbols p) X =
      fold polymod_step (map2 (XOR) z (checksum_symbols p)) (X XOR 0)"
    by (simp add: z_def checksum_symbols_eq numeral_eq_Suc)
  also have "\<dots> = fold polymod_step z X XOR p"
    by (subst fold_polymod_xor) (simp_all add: z_def checksum_symbols_def fold_checksum_symbols [OF p, unfolded checksum_symbols_def])
  also have "\<dots> = BECH32M_CONST"
    by (simp add: p_def xor.assoc [symmetric])
  finally have "fold polymod_step (checksum_symbols p) X = BECH32M_CONST" .
  moreover have "bech32m_symbols hrp data = data @ checksum_symbols p"
    by (simp add: bech32m_symbols_def Let_def bech32_polymod_def p_def z_def X_def numeral_eq_Suc)
  ultimately show ?thesis
    by (simp add: bech32_polymod_def X_def)
qed

theorem bech32m_checksum_valid_witness:
  "bech32_polymod (bech32_hrp_expand ''tb'' @ bech32m_symbols ''tb'' [1, 14, 20, 3]) = BECH32M_CONST"
  by (rule bech32m_checksum_valid) simp

end
