(* ===== verification/Witness_Program.thy ===== *)
theory Witness_Program
  imports Contracts Taproot
begin

text \<open>
  The witness programs of \<open>bitcoin/interpreter.py\<close> (\<open>WitnessProgram\<close> and its three subclasses) and
  \<open>verify_transaction_witness\<close> of \<open>bitcoin/transaction.py\<close>, which checks an input of a transaction against the
  scriptPubKey it spends.  The lemmas reduce the spending of a P2WSH output to the execution of its script,
  where the theorems on the contracts apply.
\<close>

section \<open>Classification\<close>

datatype witness_program =
    WitnessV0KeyHash bytes
  | WitnessV0ScriptHash bytes
  | WitnessV1Taproot bytes

text \<open>The integer a version element is compared as; a push never equals one.\<close>

fun version_value :: "script_item \<Rightarrow> int option" where
  "version_value (Op c) = Some (int c)"
| "version_value (Num i) = Some i"
| "version_value (Push b) = None"

fun classify_program :: "script_item list \<Rightarrow> witness_program res" where
  "classify_program [version_op, Push program] =
     (if version_value version_op = Some 0 \<and> length program = 20 then Inr (WitnessV0KeyHash program)
      else if version_value version_op = Some 0 \<and> length program = 32 then Inr (WitnessV0ScriptHash program)
      else if version_value version_op \<in> {Some 1, Some 81} \<and> length program = 32
        then Inr (WitnessV1Taproot program)
      else Inl ScriptVerificationError)"
| "classify_program _ = Inl ScriptVerificationError"

definition from_script_pub_key :: "btclib \<Rightarrow> bytes \<Rightarrow> witness_program res" where
  "from_script_pub_key L script_pub_key =
     (case lib_script_iter L script_pub_key of
        None \<Rightarrow> Inl CScriptInvalidError
      | Some raw_ops \<Rightarrow> classify_program raw_ops)"

section \<open>Verification\<close>

definition verify_key_hash :: "btclib \<Rightarrow> bytes \<Rightarrow> tx \<Rightarrow> nat \<Rightarrow> bytes list \<Rightarrow> int \<Rightarrow> bool res" where
  "verify_key_hash L program t input_index witness_stack amount_sat =
     (case witness_stack of
        [sig, pubkey] \<Rightarrow>
          if lib_Hash160 L pubkey \<noteq> program then Inl ScriptVerificationError
          else
            let hashtype = (if sig \<noteq> [] then uint (last sig) else 1);
                sighash = lib_sighash L (create_p2wpkh_scriptCode L pubkey) t input_index hashtype amount_sat
            in if lib_ecdsa_verify L pubkey sighash (butlast sig) then Inr True
               else Inl ScriptVerificationError
      | _ \<Rightarrow> Inl ScriptVerificationError)"

definition verify_script_hash :: "btclib \<Rightarrow> bytes \<Rightarrow> tx \<Rightarrow> nat \<Rightarrow> bytes list \<Rightarrow> int \<Rightarrow> bool res" where
  "verify_script_hash L program t input_index witness_stack amount_sat =
     (if witness_stack = [] then Inl ScriptVerificationError
      else if sha256 (last witness_stack) \<noteq> program then Inl ScriptVerificationError
      else execute L
        \<lparr>ctx_script = last witness_stack, ctx_tx = t, ctx_index = input_index, ctx_amount = amount_sat\<rparr>
        (butlast witness_stack))"

text \<open>The Merkle path of a control block: whole 32-byte siblings, the smaller hash first.\<close>

function merkle_climb :: "bytes \<Rightarrow> bytes \<Rightarrow> bytes" where
  "merkle_climb path curr_hash =
     (if length path < 32 then curr_hash
      else
        let sibling = take 32 path
        in merkle_climb (drop 32 path)
             (if curr_hash < sibling then tagged_hash ''TapBranch'' (curr_hash @ sibling)
              else tagged_hash ''TapBranch'' (sibling @ curr_hash)))"
  by pat_completeness auto
termination
  by (relation "measure (length \<circ> fst)") auto

declare merkle_climb.simps [simp del]

definition verify_taproot ::
    "btclib \<Rightarrow> 'p eclib \<Rightarrow> bytes \<Rightarrow> tx \<Rightarrow> nat \<Rightarrow> bytes list \<Rightarrow> int \<Rightarrow> bool res" where
  "verify_taproot L E program t input_index witness_stack amount_sat =
     (if witness_stack = [] then Inl ScriptVerificationError
      else if length witness_stack = 1 then
        (let sig = hd witness_stack
         in if length sig \<noteq> 64 \<and> length sig \<noteq> 65 then Inl ScriptVerificationError
            else
              let sighash_type = (if length sig = 65 then sig ! 64 else 0);
                  tap_msg = tagged_hash ''TapSighash'' (lib_tx_bytes L t @ [sighash_type])
              in if schnorr_verify E program tap_msg (take 64 sig) then Inr True
                 else Inl ScriptVerificationError)
      else
        (let tapscript = last (butlast witness_stack); control_block = last witness_stack
         in if length control_block < 33 then Inl ScriptVerificationError
            else
              let internal_pubkey_x = take 32 (drop 1 control_block);
                  merkle_root = merkle_climb (drop 33 control_block) (tapleaf_hash tapscript 0xC0)
              in rbind (taproot_tweak_pubkey E internal_pubkey_x (Some merkle_root)) (\<lambda>(expected_output_key, _).
                   if expected_output_key \<noteq> program then Inl ScriptVerificationError
                   else execute L
                     \<lparr>ctx_script = tapscript, ctx_tx = t, ctx_index = input_index, ctx_amount = amount_sat\<rparr>
                     (butlast (butlast witness_stack)))))"

fun verify_program ::
    "btclib \<Rightarrow> 'p eclib \<Rightarrow> witness_program \<Rightarrow> tx \<Rightarrow> nat \<Rightarrow> bytes list \<Rightarrow> int \<Rightarrow> bool res" where
  "verify_program L E (WitnessV0KeyHash p) = verify_key_hash L p"
| "verify_program L E (WitnessV0ScriptHash p) = verify_script_hash L p"
| "verify_program L E (WitnessV1Taproot p) = verify_taproot L E p"

definition verify_transaction_witness :: "btclib \<Rightarrow> 'p eclib \<Rightarrow> tx \<Rightarrow> nat \<Rightarrow> bytes \<Rightarrow> int \<Rightarrow> bool res" where
  "verify_transaction_witness L E t input_index spent_script_pub_key amount_sat =
     (if length (wit t) \<le> input_index then Inl ScriptVerificationError
      else rbind (from_script_pub_key L spent_script_pub_key) (\<lambda>program.
        verify_program L E program t input_index (wit t ! input_index) amount_sat))"

section \<open>Spending the package's outputs\<close>

lemma from_p2wsh:
  assumes "script_lib L"
  shows "from_script_pub_key L (create_p2wsh L script) = Inr (WitnessV0ScriptHash (sha256 script))"
  using script_lib.iter_cscript [OF assms, of "[Op OP_0, Push (sha256 script)]"]
  by (simp add: from_script_pub_key_def create_p2wsh_def cook.simps)

lemma from_p2wpkh:
  assumes "script_lib L" and "length (lib_Hash160 L pubkey) = 20"
  shows "from_script_pub_key L (create_p2wpkh L pubkey) = Inr (WitnessV0KeyHash (lib_Hash160 L pubkey))"
  using script_lib.iter_cscript [OF assms(1), of "[Op OP_0, Push (lib_Hash160 L pubkey)]"] assms(2)
  by (auto simp: from_script_pub_key_def create_p2wpkh_def cook.simps)

lemma from_p2tr:
  assumes "script_lib L" and "length key = 32"
  shows "rbind (create_p2tr L key) (from_script_pub_key L) = Inr (WitnessV1Taproot key)"
  using script_lib.iter_cscript [OF assms(1), of "[Op OP_1, Push key]"] assms(2)
  by (auto simp: from_script_pub_key_def create_p2tr_def cook.simps)

text \<open>Spending a P2WSH output with a witness that ends in its script.\<close>

abbreviation spend_ctx :: "bytes \<Rightarrow> tx \<Rightarrow> nat \<Rightarrow> int \<Rightarrow> script_ctx" where
  "spend_ctx script t i amount \<equiv>
     \<lparr>ctx_script = script, ctx_tx = t, ctx_index = i, ctx_amount = amount\<rparr>"

lemma verify_p2wsh:
  assumes "script_lib L" and "i < length (wit t)" and "wit t ! i = stack @ [script]"
  shows "verify_transaction_witness L E t i (create_p2wsh L script) amount =
    execute L (spend_ctx script t i amount) stack"
  using assms by (simp add: verify_transaction_witness_def from_p2wsh verify_script_hash_def)

text \<open>Property C15: a P2WSH output is spent only by a witness whose last element hashes to the output's
  program, and then exactly if that element, as a script, accepts the elements below it.\<close>

theorem p2wsh_verification:
  assumes "script_lib L"
  shows "verify_transaction_witness L E t i (create_p2wsh L script) amount = Inr True \<longleftrightarrow>
    i < length (wit t) \<and> wit t ! i \<noteq> [] \<and> sha256 (last (wit t ! i)) = sha256 script \<and>
    execute L (spend_ctx (last (wit t ! i)) t i amount) (butlast (wit t ! i)) = Inr True"
  using assms by (auto simp: verify_transaction_witness_def from_p2wsh verify_script_hash_def)

end
