(* ===== verification/Transactions.thy ===== *)
theory Transactions
  imports Witness_Program
begin

text \<open>
  \<open>bitcoin/transaction.py\<close>: the builder with its dust filter and the transactions of a channel (funding,
  commitment, asymmetric commitment, cooperative close, HTLC claim and refund, second stage), with
  \<open>create_breach_remedy_transaction\<close> of \<open>protocols/revocation.py\<close> and the settlement of \<open>protocols/ptlc.py\<close>.
  The theorems show that the outputs pay out what they should and that honestly signed transactions pass
  \<open>verify_transaction_witness\<close> against the output they spend.
\<close>

section \<open>The builder\<close>

definition BITCOIN_DUST_LIMIT_SAT :: int where
  "BITCOIN_DUST_LIMIT_SAT = 546"

definition SEQUENCE_CLTV_ENABLE_MASK :: int where
  "SEQUENCE_CLTV_ENABLE_MASK = 0xFFFFFFFE"

record tx_builder =
  b_inputs :: "txin list"
  b_outputs :: "txout list"
  b_witnesses :: "bytes list list"
  b_locktime :: int

definition TransactionBuilder :: "int \<Rightarrow> tx_builder" where
  "TransactionBuilder locktime = \<lparr>b_inputs = [], b_outputs = [], b_witnesses = [], b_locktime = locktime\<rparr>"

definition add_input :: "btclib \<Rightarrow> string \<Rightarrow> int \<Rightarrow> int \<Rightarrow> tx_builder \<Rightarrow> tx_builder res" where
  "add_input L txid_hex out sequence b =
     rbind (lib_outpoint L txid_hex out) (\<lambda>outpoint.
       Inr (b\<lparr>b_inputs := b_inputs b @ [\<lparr>prevout = outpoint, nSequence = sequence\<rparr>]\<rparr>))"

definition add_output :: "int \<Rightarrow> bytes \<Rightarrow> tx_builder \<Rightarrow> tx_builder" where
  "add_output amount_sat script_pubkey b =
     b\<lparr>b_outputs := b_outputs b @ [\<lparr>nValue = amount_sat, scriptPubKey = script_pubkey\<rparr>]\<rparr>"

text \<open>\<open>pubkey_to_p2wpkh_address(...).to_scriptPubKey()\<close> and \<open>script_to_p2wsh_address(...).to_scriptPubKey()\<close>.\<close>

definition p2wpkh_address_spk :: "btclib \<Rightarrow> bytes \<Rightarrow> bytes" where
  "p2wpkh_address_spk L pubkey = lib_addr_spk L 0 (lib_Hash160 L pubkey)"

definition p2wsh_address_spk :: "btclib \<Rightarrow> bytes \<Rightarrow> bytes" where
  "p2wsh_address_spk L redeem_script = lib_addr_spk L 0 (sha256 redeem_script)"

definition add_p2wpkh_output :: "btclib \<Rightarrow> int \<Rightarrow> bytes \<Rightarrow> tx_builder \<Rightarrow> tx_builder" where
  "add_p2wpkh_output L amount_sat pubkey b =
     (if BITCOIN_DUST_LIMIT_SAT \<le> amount_sat
      then b\<lparr>b_outputs := b_outputs b @ [\<lparr>nValue = amount_sat, scriptPubKey = p2wpkh_address_spk L pubkey\<rparr>]\<rparr>
      else b)"

definition add_p2wsh_output :: "btclib \<Rightarrow> int \<Rightarrow> bytes \<Rightarrow> tx_builder \<Rightarrow> tx_builder" where
  "add_p2wsh_output L amount_sat redeem_script b =
     (if BITCOIN_DUST_LIMIT_SAT \<le> amount_sat
      then b\<lparr>b_outputs := b_outputs b @ [\<lparr>nValue = amount_sat, scriptPubKey = p2wsh_address_spk L redeem_script\<rparr>]\<rparr>
      else b)"

definition add_p2tr_output :: "btclib \<Rightarrow> int \<Rightarrow> bytes \<Rightarrow> tx_builder \<Rightarrow> tx_builder res" where
  "add_p2tr_output L amount_sat output_key_x_only b =
     (if BITCOIN_DUST_LIMIT_SAT \<le> amount_sat
      then rbind (create_p2tr L output_key_x_only) (\<lambda>spk.
        Inr (b\<lparr>b_outputs := b_outputs b @ [\<lparr>nValue = amount_sat, scriptPubKey = spk\<rparr>]\<rparr>))
      else Inr b)"

definition add_witness_stack :: "bytes list \<Rightarrow> tx_builder \<Rightarrow> tx_builder" where
  "add_witness_stack stack b = b\<lparr>b_witnesses := b_witnesses b @ [stack]\<rparr>"

definition set_locktime :: "int \<Rightarrow> tx_builder \<Rightarrow> tx_builder" where
  "set_locktime locktime b = b\<lparr>b_locktime := locktime\<rparr>"

definition build :: "tx_builder \<Rightarrow> tx" where
  "build b = \<lparr>vin = b_inputs b, vout = b_outputs b, nLockTime = b_locktime b, wit = b_witnesses b\<rparr>"

section \<open>The transactions\<close>

definition create_funding_transaction ::
    "btclib \<Rightarrow> string \<Rightarrow> int \<Rightarrow> bytes \<Rightarrow> bytes \<Rightarrow> int \<Rightarrow> (tx \<times> bytes) res" where
  "create_funding_transaction L funder_utxo_txid funder_utxo_vout funder_pubkey counterparty_pubkey capacity_sat =
     (let redeem_script = create_multisig_2of2 L funder_pubkey counterparty_pubkey
      in rbind (add_input L funder_utxo_txid funder_utxo_vout 0xFFFFFFFF (TransactionBuilder 0)) (\<lambda>b.
         Inr (build (add_p2wsh_output L capacity_sat redeem_script b), redeem_script)))"

text \<open>The loop over the HTLC outputs; a missing list is the empty one.\<close>

definition add_htlc_outputs :: "btclib \<Rightarrow> (int \<times> bytes) list \<Rightarrow> tx_builder \<Rightarrow> tx_builder" where
  "add_htlc_outputs L htlc_outputs b = fold (\<lambda>(sat, script) b. add_p2wsh_output L sat script b) htlc_outputs b"

definition create_commitment_transaction ::
    "btclib \<Rightarrow> string \<Rightarrow> int \<Rightarrow> bytes \<Rightarrow> bytes \<Rightarrow> int \<Rightarrow> int \<Rightarrow> (int \<times> bytes) list \<Rightarrow> int \<Rightarrow> tx res" where
  "create_commitment_transaction L funding_txid funding_vout sender_pubkey receiver_pubkey
       sender_balance_sat receiver_balance_sat htlc_outputs sequence_number =
     rbind (add_input L funding_txid funding_vout sequence_number (TransactionBuilder 0)) (\<lambda>b.
       let b = add_p2wpkh_output L sender_balance_sat sender_pubkey b;
           b = add_p2wpkh_output L receiver_balance_sat receiver_pubkey b
       in Inr (build (add_htlc_outputs L htlc_outputs b)))"

definition create_asymmetric_commitment_transaction ::
    "btclib \<Rightarrow> string \<Rightarrow> int \<Rightarrow> bytes \<Rightarrow> bytes \<Rightarrow> bytes \<Rightarrow> int \<Rightarrow> int \<Rightarrow> int \<Rightarrow> (int \<times> bytes) list \<Rightarrow> int \<Rightarrow> tx res" where
  "create_asymmetric_commitment_transaction L funding_txid funding_vout local_pubkey remote_pubkey
       revocation_pubkey local_balance_sat remote_balance_sat to_self_delay htlc_outputs sequence_number =
     (let revocable_script = create_revocable_output_script L revocation_pubkey local_pubkey to_self_delay
      in rbind (add_input L funding_txid funding_vout sequence_number (TransactionBuilder 0)) (\<lambda>b.
         let b = (if BITCOIN_DUST_LIMIT_SAT \<le> local_balance_sat
                  then add_p2wsh_output L local_balance_sat revocable_script b else b);
             b = (if BITCOIN_DUST_LIMIT_SAT \<le> remote_balance_sat
                  then add_p2wpkh_output L remote_balance_sat remote_pubkey b else b)
         in Inr (build (add_htlc_outputs L htlc_outputs b))))"

text \<open>Two signatures in the order of the sorted public keys (\<open>keys[0] == sec1.pub\<close>).\<close>

definition order_sigs :: "bytes \<Rightarrow> bytes \<Rightarrow> bytes \<Rightarrow> bytes \<Rightarrow> bytes \<times> bytes" where
  "order_sigs pub1 pub2 sig1 sig2 =
     (let keys = sort [pub1, pub2] in if keys ! 0 = pub1 then (sig1, sig2) else (sig2, sig1))"

definition sign_commitment_transaction ::
    "btclib \<Rightarrow> tx \<Rightarrow> nat \<Rightarrow> bytes \<Rightarrow> int \<Rightarrow> bytes \<Rightarrow> bytes \<Rightarrow> tx res" where
  "sign_commitment_transaction L t input_index redeem_script capacity_sat sec1 sec2 =
     (let sighash = lib_sighash L redeem_script t input_index SIGHASH_ALL capacity_sat
      in rbind (sign_sighash L sec1 sighash 1) (\<lambda>sig1.
         rbind (sign_sighash L sec2 sighash 1) (\<lambda>sig2.
           let (s1, s2) = order_sigs (lib_pub L sec1) (lib_pub L sec2) sig1 sig2;
               wit_item = witness_multisig_2of2 s1 s2 redeem_script
           in if wit t = [] then Inr (t\<lparr>wit := [wit_item]\<rparr>)
              else if length (wit t) \<le> input_index then Inl IndexError
              else Inr (t\<lparr>wit := (wit t)[input_index := wit_item]\<rparr>))))"

definition create_cooperative_close_transaction ::
    "btclib \<Rightarrow> string \<Rightarrow> int \<Rightarrow> bytes \<Rightarrow> bytes \<Rightarrow> int \<Rightarrow> int \<Rightarrow> bytes \<Rightarrow> bytes \<Rightarrow> bytes \<Rightarrow> tx res" where
  "create_cooperative_close_transaction L funding_txid funding_vout sender_pubkey receiver_pubkey
       final_sender_sat final_receiver_sat sig_sender sig_receiver redeem_script =
     rbind (add_input L funding_txid funding_vout 0xFFFFFFFF (TransactionBuilder 0)) (\<lambda>b.
       let b = add_p2wpkh_output L final_sender_sat sender_pubkey b;
           b = add_p2wpkh_output L final_receiver_sat receiver_pubkey b
       in if sig_sender \<noteq> [] \<and> sig_receiver \<noteq> [] \<and> redeem_script \<noteq> []
          then
            let (sig1, sig2) = (if sender_pubkey < receiver_pubkey then (sig_sender, sig_receiver)
                                else (sig_receiver, sig_sender))
            in Inr (build (add_witness_stack (witness_multisig_2of2 sig1 sig2 redeem_script) b))
          else Inr (build b))"

definition create_htlc_claim_transaction ::
    "btclib \<Rightarrow> string \<Rightarrow> int \<Rightarrow> bytes \<Rightarrow> int \<Rightarrow> bytes \<Rightarrow> bytes \<Rightarrow> bytes \<Rightarrow> tx res" where
  "create_htlc_claim_transaction L commitment_txid htlc_vout claimer_pubkey amount_sat preimage
       htlc_redeem_script claimer_signature =
     rbind (add_input L commitment_txid htlc_vout 0xFFFFFFFF (TransactionBuilder 0)) (\<lambda>b.
       let b = add_p2wpkh_output L amount_sat claimer_pubkey b
       in if claimer_signature \<noteq> []
          then Inr (build (add_witness_stack
                 (witness_htlc_fulfill claimer_signature preimage htlc_redeem_script) b))
          else Inr (build b))"

definition create_htlc_refund_transaction ::
    "btclib \<Rightarrow> string \<Rightarrow> int \<Rightarrow> bytes \<Rightarrow> int \<Rightarrow> int \<Rightarrow> bytes \<Rightarrow> bytes \<Rightarrow> tx res" where
  "create_htlc_refund_transaction L commitment_txid htlc_vout sender_pubkey amount_sat locktime
       htlc_redeem_script sender_signature =
     rbind (add_input L commitment_txid htlc_vout SEQUENCE_CLTV_ENABLE_MASK (TransactionBuilder locktime)) (\<lambda>b.
       let b = add_p2wpkh_output L amount_sat sender_pubkey b
       in if sender_signature \<noteq> []
          then Inr (build (add_witness_stack (witness_htlc_refund sender_signature htlc_redeem_script) b))
          else Inr (build b))"

text \<open>A missing witness stack is the empty one.\<close>

definition create_bolt3_second_stage_htlc_transaction ::
    "btclib \<Rightarrow> string \<Rightarrow> int \<Rightarrow> int \<Rightarrow> bytes \<Rightarrow> bytes \<Rightarrow> int \<Rightarrow> int \<Rightarrow> bytes list \<Rightarrow> (tx \<times> bytes) res" where
  "create_bolt3_second_stage_htlc_transaction L commitment_txid htlc_vout amount_sat revocation_pubkey
       local_delayed_pubkey to_self_delay locktime witness_stack =
     (let second_stage_script =
            create_second_stage_htlc_script L revocation_pubkey local_delayed_pubkey to_self_delay
      in rbind (add_input L commitment_txid htlc_vout SEQUENCE_CLTV_ENABLE_MASK (TransactionBuilder locktime)) (\<lambda>b.
         let b = add_p2wsh_output L amount_sat second_stage_script b;
             b = (if witness_stack \<noteq> [] then add_witness_stack witness_stack b else b)
         in Inr (build b, second_stage_script)))"

definition create_breach_remedy_transaction ::
    "btclib \<Rightarrow> string \<Rightarrow> int \<Rightarrow> bytes \<Rightarrow> int \<Rightarrow> bytes \<Rightarrow> bytes \<Rightarrow> tx res" where
  "create_breach_remedy_transaction L revoked_txid revoked_vout sweeper_pubkey amount_sat
       revocation_secret_signature revocable_redeem_script =
     (let witness_stack = [revocation_secret_signature, [1], revocable_redeem_script]
      in rbind (add_input L revoked_txid revoked_vout 0xFFFFFFFF (TransactionBuilder 0)) (\<lambda>b.
         Inr (build (add_witness_stack witness_stack (add_p2wpkh_output L amount_sat sweeper_pubkey b)))))"

text \<open>
  \<open>funding_txid or ptlc_txid or "00" * 32\<close>; the output index follows \<open>funding_txid\<close> being given, even
  empty.
\<close>

definition create_ptlc_settlement_transaction ::
    "btclib \<Rightarrow> string option \<Rightarrow> int \<Rightarrow> bytes \<Rightarrow> int \<Rightarrow> bytes \<Rightarrow> bytes \<Rightarrow> string option \<Rightarrow> int \<Rightarrow> tx res" where
  "create_ptlc_settlement_transaction L funding_txid funding_vout claimer_pubkey amount_sat
       final_signature ptlc_redeem_script ptlc_txid ptlc_vout =
     (let txid = str_or funding_txid (str_or ptlc_txid (replicate 64 (CHR ''0'')));
          out = (if funding_txid \<noteq> None then funding_vout else ptlc_vout);
          p2wpkh_spk = create_p2wpkh L claimer_pubkey
      in rbind (add_input L txid out 0xFFFFFFFF (TransactionBuilder 0)) (\<lambda>b.
         let b = add_output amount_sat p2wpkh_spk b
         in if final_signature \<noteq> [] \<and> ptlc_redeem_script \<noteq> []
            then Inr (build (add_witness_stack [final_signature, [1], ptlc_redeem_script] b))
            else Inr (build b)))"

section \<open>What the outputs pay\<close>

definition non_dust :: "int \<Rightarrow> int" where
  "non_dust a = (if BITCOIN_DUST_LIMIT_SAT \<le> a then a else 0)"

abbreviation outputs_total :: "tx_builder \<Rightarrow> int" where
  "outputs_total b \<equiv> sum_list (map nValue (b_outputs b))"

lemma build_simps [simp]:
  "vin (build b) = b_inputs b" "vout (build b) = b_outputs b"
  "nLockTime (build b) = b_locktime b" "wit (build b) = b_witnesses b"
  by (simp_all add: build_def)

lemma outputs_total_add [simp]:
  "outputs_total (add_p2wpkh_output L a k b) = outputs_total b + non_dust a"
  "outputs_total (add_p2wsh_output L a s b) = outputs_total b + non_dust a"
  by (simp_all add: add_p2wpkh_output_def add_p2wsh_output_def non_dust_def)

lemma outputs_total_htlcs [simp]:
  "outputs_total (add_htlc_outputs L hs b) = outputs_total b + sum_list (map (non_dust \<circ> fst) hs)"
  unfolding add_htlc_outputs_def by (induction hs arbitrary: b) (auto simp: split_beta)

abbreviation all_above_dust :: "tx_builder \<Rightarrow> bool" where
  "all_above_dust b \<equiv> list_all (\<lambda>out. BITCOIN_DUST_LIMIT_SAT \<le> nValue out) (b_outputs b)"

lemma above_dust_add [simp]:
  "all_above_dust b \<Longrightarrow> all_above_dust (add_p2wpkh_output L a k b)"
  "all_above_dust b \<Longrightarrow> all_above_dust (add_p2wsh_output L a s b)"
  by (simp_all add: add_p2wpkh_output_def add_p2wsh_output_def)

lemma above_dust_htlcs [simp]: "all_above_dust b \<Longrightarrow> all_above_dust (add_htlc_outputs L hs b)"
  unfolding add_htlc_outputs_def by (induction hs arbitrary: b) (auto simp: split_beta)

lemma builder_fields [simp]:
  "b_inputs (add_p2wpkh_output L a k b) = b_inputs b" "b_inputs (add_p2wsh_output L a s b) = b_inputs b"
  "b_witnesses (add_p2wpkh_output L a k b) = b_witnesses b"
  "b_witnesses (add_p2wsh_output L a s b) = b_witnesses b"
  "b_locktime (add_p2wpkh_output L a k b) = b_locktime b" "b_locktime (add_p2wsh_output L a s b) = b_locktime b"
  "b_outputs (add_witness_stack w b) = b_outputs b" "b_inputs (add_witness_stack w b) = b_inputs b"
  "b_locktime (add_witness_stack w b) = b_locktime b"
  "b_witnesses (add_witness_stack w b) = b_witnesses b @ [w]"
  by (simp_all add: add_p2wpkh_output_def add_p2wsh_output_def add_witness_stack_def)

lemma builder_fields_htlcs [simp]:
  "b_inputs (add_htlc_outputs L hs b) = b_inputs b" "b_witnesses (add_htlc_outputs L hs b) = b_witnesses b"
  unfolding add_htlc_outputs_def by (induction hs arbitrary: b) (auto simp: split_beta)

lemma add_input_InrD:
  "add_input L txid n sq (TransactionBuilder locktime) = Inr b \<Longrightarrow>
    \<exists>op. b = \<lparr>b_inputs = [\<lparr>prevout = op, nSequence = sq\<rparr>], b_outputs = [], b_witnesses = [], b_locktime = locktime\<rparr>"
  by (auto simp: add_input_def TransactionBuilder_def rbind_eq_Inr)

text \<open>Property C14: a commitment transaction pays both balances and all HTLCs, except the amounts under the
  dust limit, which go to fees: the outputs and the dropped dust add up to the total, and no output is dust.\<close>

theorem commitment_pays_all_but_dust:
  assumes "create_commitment_transaction L txid n sender receiver bs br htlcs sq = Inr t"
  shows "total_out t + sum_list (map (\<lambda>a. a - non_dust a) (bs # br # map fst htlcs)) =
      bs + br + sum_list (map fst htlcs) \<and>
    list_all (\<lambda>out. BITCOIN_DUST_LIMIT_SAT \<le> nValue out) (vout t)"
proof (intro conjI)
  have *: "sum_list (map (\<lambda>a. a - non_dust a) xs) = sum_list xs - sum_list (map non_dust xs)" for xs
    by (induction xs) simp_all
  show "total_out t + sum_list (map (\<lambda>a. a - non_dust a) (bs # br # map fst htlcs)) =
      bs + br + sum_list (map fst htlcs)"
    using assms unfolding * by (auto simp: create_commitment_transaction_def rbind_eq_Inr Let_def
        total_out_def dest!: add_input_InrD)
  show "list_all (\<lambda>out. BITCOIN_DUST_LIMIT_SAT \<le> nValue out) (vout t)"
    using assms by (auto simp: create_commitment_transaction_def rbind_eq_Inr Let_def
        dest!: add_input_InrD)
qed

section \<open>Honest signatures\<close>

text \<open>
  What signing relies on: a signature of a key verifies under its public key, the digest of an input does not
  depend on the witnesses (BIP 143), and a version 0 address's scriptPubKey is the program's script.
\<close>

locale wallet_lib = script_lib +
  assumes verify_sign: "lib_ecdsa_verify L (lib_pub L k) h (lib_sign L k h)"
    and sighash_wit: "lib_sighash L s (t\<lparr>wit := w\<rparr>) i hashtype a = lib_sighash L s t i hashtype a"
    and addr_spk: "lib_addr_spk L 0 h = lib_cscript L [Op OP_0, Push h]"
begin

lemma p2wsh_address: "p2wsh_address_spk L script = create_p2wsh L script"
  by (simp add: p2wsh_address_spk_def create_p2wsh_def addr_spk)

text \<open>A signature made over the transaction before the witnesses were attached.\<close>

lemma signed_valid:
  assumes "sign_sighash L k (lib_sighash L script t i SIGHASH_ALL a) 1 = Inr sig"
    and "vin t' = vin t" "vout t' = vout t" "nLockTime t' = nLockTime t"
  shows "valid_sig L (spend_ctx script t' i a) (lib_pub L k) sig"
proof -
  have "t' = t\<lparr>wit := wit t'\<rparr>"
    using assms(2-4) by (cases t; cases t') simp
  then have "lib_sighash L script t' i SIGHASH_ALL a = lib_sighash L script t i SIGHASH_ALL a"
    by (metis sighash_wit)
  moreover have "sig = lib_sign L k (lib_sighash L script t i SIGHASH_ALL a) @ [1]"
    using assms(1) by (simp add: sign_sighash_def)
  ultimately show ?thesis
    by (simp add: valid_sig_def check_signature_def verify_sign)
qed

lemma verify_p2wsh_address:
  assumes "i < length (wit t)" and "wit t ! i = stack @ [script]"
    and "execute L (spend_ctx script t i a) stack = Inr True"
  shows "verify_transaction_witness L E t i (p2wsh_address_spk L script) a = Inr True"
  unfolding p2wsh_address verify_p2wsh [OF script_lib_axioms assms(1,2)] by (rule assms(3))

text \<open>The two ways to spend an HTLC output, from a signature over the unsigned transaction.\<close>

lemma preimage_path_verifies:
  assumes "script = create_htlc L sender (lib_pub L key) (sha256 preimage) locktime"
    and "length sender < 65536" "length (lib_pub L key) < 65536" "0 \<le> locktime" "locktime < 2 ^ 32"
    and "sign_sighash L key (lib_sighash L script t0 0 SIGHASH_ALL a) 1 = Inr sig"
    and "vin t = vin t0" "vout t = vout t0" "nLockTime t = nLockTime t0" "vin t \<noteq> []" "wit t = [[sig, preimage, [1], script]]"
  shows "verify_transaction_witness L E t 0 (p2wsh_address_spk L script) a = Inr True"
proof -
  let ?ctx = "spend_ctx script t 0 a"
  have "valid_sig L ?ctx (lib_pub L key) sig"
    by (rule signed_valid [OF assms(6-9)])
  then have "execute L ?ctx [sig, preimage, [1]] = Inr True"
    using assms(2-5,10)
    by (subst execute_htlc [OF script_lib_axioms, where sender = sender and receiver = "lib_pub L key"
          and payment_hash = "sha256 preimage" and locktime = locktime])
      (auto simp: assms(1) suffix_def in_range_def)
  then show ?thesis
    by (intro verify_p2wsh_address [where stack = "[sig, preimage, [1]]"]) (simp_all add: assms(11))
qed

lemma timeout_path_verifies:
  assumes "script = create_htlc L (lib_pub L key) receiver payment_hash locktime"
    and "length (lib_pub L key) < 65536" "length receiver < 65536" "length payment_hash < 65536"
    and "0 \<le> locktime" "locktime < 2 ^ 32"
    and "sign_sighash L key (lib_sighash L script t0 0 SIGHASH_ALL a) 1 = Inr sig"
    and "vin t = vin t0" "vout t = vout t0" "nLockTime t = nLockTime t0" "vin t \<noteq> []" "wit t = [[sig, [], script]]"
    and "nSequence (vin t ! 0) \<noteq> 0xFFFFFFFF" "locktime \<le> nLockTime t"
  shows "verify_transaction_witness L E t 0 (p2wsh_address_spk L script) a = Inr True"
proof -
  let ?ctx = "spend_ctx script t 0 a"
  have "valid_sig L ?ctx (lib_pub L key) sig"
    by (rule signed_valid [OF assms(7-10)])
  then have "execute L ?ctx [sig, []] = Inr True"
    using assms(2-6,11,13,14)
    by (subst execute_htlc [OF script_lib_axioms, where sender = "lib_pub L key" and receiver = receiver
          and payment_hash = payment_hash and locktime = locktime])
      (auto simp: assms(1) suffix_def in_range_def cltv_ok_def)
  then show ?thesis
    by (intro verify_p2wsh_address [where stack = "[sig, []]"]) (simp_all add: assms(12))
qed

end

interpretation wire: wallet_lib wire_lib
  by unfold_locales (simp_all add: sha256_def encode_script_def)

section \<open>Honest transactions verify\<close>

lemma order_sigs_min_max:
  assumes "valid_sig L ctx pub1 sig1" and "valid_sig L ctx pub2 sig2" and "order_sigs pub1 pub2 sig1 sig2 = (s1, s2)"
  shows "valid_sig L ctx (min pub1 pub2) s1 \<and> valid_sig L ctx (max pub1 pub2) s2"
  using assms by (auto simp: order_sigs_def Let_def min_def max_def split: if_splits)

lemma multisig_spend_verifies:
  assumes "wallet_lib L" and "length pub1 < 65536" "length pub2 < 65536" and "script = create_multisig_2of2 L pub1 pub2"
    and "valid_sig L (spend_ctx script t k capacity) (min pub1 pub2) s1 \<and> valid_sig L (spend_ctx script t k capacity) (max pub1 pub2) s2"
    and "k < length (wit t)" and "wit t ! k = witness_multisig_2of2 s1 s2 script"
  shows "verify_transaction_witness L E t k (p2wsh_address_spk L script) capacity = Inr True"
proof -
  have "execute L (spend_ctx script t k capacity) [[], s1, s2] = Inr True"
    using assms(5) by (subst execute_multisig_iff [OF wallet_lib.axioms(1) [OF assms(1)] _ assms(2,3)])
      (auto simp: assms(4) suffix_def)
  then show ?thesis
    by (intro wallet_lib.verify_p2wsh_address [OF assms(1,6), where stack = "[[], s1, s2]"])
      (simp_all add: assms(7) witness_multisig_2of2_def)
qed

lemma commitment_verifies:
  assumes "wallet_lib L" and "k = 0 \<or> wit t \<noteq> []"
    and "length (lib_pub L sec1) < 65536" "length (lib_pub L sec2) < 65536"
    and "script = create_multisig_2of2 L (lib_pub L sec1) (lib_pub L sec2)"
    and "sign_commitment_transaction L t k script capacity sec1 sec2 = Inr t'"
  shows "verify_transaction_witness L E t' k (p2wsh_address_spk L script) capacity = Inr True"
proof -
  let ?h = "lib_sighash L script t k SIGHASH_ALL capacity"
  obtain sig1 sig2 s1 s2 where sigs: "sign_sighash L sec1 ?h 1 = Inr sig1" "sign_sighash L sec2 ?h 1 = Inr sig2"
    and order: "order_sigs (lib_pub L sec1) (lib_pub L sec2) sig1 sig2 = (s1, s2)"
    and t': "vin t' = vin t" "vout t' = vout t" "nLockTime t' = nLockTime t"
      "k < length (wit t')" "wit t' ! k = witness_multisig_2of2 s1 s2 script"
    using assms(2,6)
    by (cases "order_sigs (lib_pub L sec1) (lib_pub L sec2) (lib_sign L sec1 ?h @ [1]) (lib_sign L sec2 ?h @ [1])")
      (auto simp: sign_commitment_transaction_def sign_sighash_def Let_def split: if_splits)
  have "valid_sig L (spend_ctx script t' k capacity) (lib_pub L sec1) sig1" "valid_sig L (spend_ctx script t' k capacity) (lib_pub L sec2) sig2"
    using sigs [THEN wallet_lib.signed_valid [OF assms(1)]] t' by simp_all
  from order_sigs_min_max [OF this order] show ?thesis
    by (rule multisig_spend_verifies [OF assms(1) assms(3-5) _ t'(4,5)])
qed

text \<open>
  Property C12: a transaction that both parties sign with \<open>sign_commitment_transaction\<close> spends the 2-of-2 output of their
  keys at the signed input, whichever key sorts first.  The input is any of a transaction that has witnesses already, which must
  have a place for it (otherwise the call is an IndexError), and the first of a transaction without witnesses; for any other input of
  the latter the code stores the witness at the first place.
\<close>

theorem signed_commitment_verifies:
  assumes "wallet_lib L" and "k = 0 \<or> wit t \<noteq> []"
    and "length (lib_pub L sec1) < 65536" "length (lib_pub L sec2) < 65536"
    and "script = create_multisig_2of2 L (lib_pub L sec1) (lib_pub L sec2)"
    and "sign_commitment_transaction L t k script capacity sec1 sec2 = Inr t'"
  shows "verify_transaction_witness L E t' k (p2wsh_address_spk L script) capacity = Inr True"
  using assms by (rule commitment_verifies)

text \<open>Property C13: the claim transaction the receiver of an HTLC signs, with the preimage of the payment
  hash, spends the HTLC output.\<close>

theorem htlc_claim_verifies:
  assumes "wallet_lib L" and "receiver = lib_pub L key" and "script = create_htlc L sender receiver (sha256 preimage) locktime"
    and "length sender < 65536" "length receiver < 65536" "0 \<le> locktime" "locktime < 2 ^ 32"
    and "create_htlc_claim_transaction L txid n claimer amount preimage script [] = Inr t0"
    and "sign_sighash L key (lib_sighash L script t0 0 SIGHASH_ALL amount) 1 = Inr sig"
    and "create_htlc_claim_transaction L txid n claimer amount preimage script sig = Inr t"
  shows "verify_transaction_witness L E t 0 (p2wsh_address_spk L script) amount = Inr True"
proof -
  have "sig \<noteq> []"
    using assms(9) by (auto simp: sign_sighash_def)
  obtain b where b: "add_input L txid n 0xFFFFFFFF (TransactionBuilder 0) = Inr b"
    using assms(8) by (auto simp: create_htlc_claim_transaction_def rbind_eq_Inr)
  from add_input_InrD [OF b] have t: "vin t = vin t0" "vout t = vout t0" "nLockTime t = nLockTime t0" "vin t \<noteq> []"
      "wit t = [[sig, preimage, [1], script]]"
    using assms(8,10) \<open>sig \<noteq> []\<close> by (auto simp: create_htlc_claim_transaction_def b Let_def witness_htlc_fulfill_def)
  then show ?thesis
    by (rule wallet_lib.preimage_path_verifies [OF assms(1) assms(3,4,5,6,7,9) [unfolded assms(2)]])
qed

text \<open>The refund transaction the sender of an HTLC signs spends the HTLC output once its
  own locktime, which is the contract's, allows it into a block.\<close>

theorem htlc_refund_verifies:
  assumes "wallet_lib L" and "sender = lib_pub L key" and "script = create_htlc L sender receiver payment_hash locktime"
    and "length sender < 65536" "length receiver < 65536" "length payment_hash < 65536"
    and "0 \<le> locktime" "locktime < 2 ^ 32"
    and "create_htlc_refund_transaction L txid n sender amount locktime script [] = Inr t0"
    and "sign_sighash L key (lib_sighash L script t0 0 SIGHASH_ALL amount) 1 = Inr sig"
    and "create_htlc_refund_transaction L txid n sender amount locktime script sig = Inr t"
  shows "nLockTime t = locktime \<and>
    verify_transaction_witness L E t 0 (p2wsh_address_spk L script) amount = Inr True"
proof -
  have "sig \<noteq> []"
    using assms(10) by (auto simp: sign_sighash_def)
  obtain b where b: "add_input L txid n SEQUENCE_CLTV_ENABLE_MASK (TransactionBuilder locktime) = Inr b"
    using assms(9) by (auto simp: create_htlc_refund_transaction_def rbind_eq_Inr)
  from add_input_InrD [OF b] have t: "vin t = vin t0" "vout t = vout t0" "nLockTime t = nLockTime t0" "vin t \<noteq> []"
      "wit t = [[sig, [], script]]"
      "nSequence (vin t ! 0) = SEQUENCE_CLTV_ENABLE_MASK" "nLockTime t = locktime"
    using assms(9,11) \<open>sig \<noteq> []\<close>
    by (auto simp: create_htlc_refund_transaction_def b Let_def witness_htlc_refund_def)
  then have "nSequence (vin t ! 0) \<noteq> 0xFFFFFFFF" "locktime \<le> nLockTime t"
    by (simp_all add: SEQUENCE_CLTV_ENABLE_MASK_def)
  from wallet_lib.timeout_path_verifies [OF assms(1) assms(3-8,10) [unfolded assms(2)] t(1-5) this] t(7)
  show ?thesis by simp
qed

text \<open>The breach remedy, for a revoked output of any value.\<close>

lemma breach_remedy_spends:
  assumes "wallet_lib L" and "script = create_revocable_output_script L (lib_pub L key) local_pubkey delay"
    and "length (lib_pub L key) < 65536" "length local_pubkey < 65536" "0 \<le> delay" "delay < 2 ^ 32"
    and "create_breach_remedy_transaction L txid n sweeper amount sig0 script = Inr t0"
    and "sign_sighash L key (lib_sighash L script t0 0 SIGHASH_ALL output_value) 1 = Inr sig"
    and "create_breach_remedy_transaction L txid n sweeper amount sig script = Inr t"
  shows "verify_transaction_witness L E t 0 (p2wsh_address_spk L script) output_value = Inr True"
proof -
  obtain b where b: "add_input L txid n 0xFFFFFFFF (TransactionBuilder 0) = Inr b"
    using assms(7) by (auto simp: create_breach_remedy_transaction_def rbind_eq_Inr)
  from add_input_InrD [OF b] have t: "vin t = vin t0" "vout t = vout t0" "nLockTime t = nLockTime t0" "length (vin t) = 1"
      "wit t = [[sig, [1], script]]"
    using assms(7,9) by (auto simp: create_breach_remedy_transaction_def b Let_def)
  let ?ctx = "spend_ctx script t 0 output_value"
  have "valid_sig L ?ctx (lib_pub L key) sig"
    using wallet_lib.signed_valid [OF assms(1,8)] t by simp
  then have "execute L ?ctx [sig, [1]] = Inr True"
    using assms(3-6) t
    by (subst execute_revocable_output [OF wallet_lib.axioms(1) [OF assms(1)],
          where revocation_pubkey = "lib_pub L key" and local_pubkey = local_pubkey and delay = delay])
      (auto simp: assms(2) suffix_def in_range_def)
  then show ?thesis
    by (intro wallet_lib.verify_p2wsh_address [OF assms(1), where stack = "[sig, [1]]"])
      (simp_all add: t)
qed

text \<open>Whoever holds the revocation key sweeps a revoked commitment output at once: the signed
  breach remedy transaction spends it.\<close>

theorem breach_remedy_verifies:
  assumes "wallet_lib L" and "script = create_revocable_output_script L (lib_pub L key) local_pubkey delay"
    and "length (lib_pub L key) < 65536" "length local_pubkey < 65536" "0 \<le> delay" "delay < 2 ^ 32"
    and "create_breach_remedy_transaction L txid n sweeper amount [] script = Inr t0"
    and "sign_sighash L key (lib_sighash L script t0 0 SIGHASH_ALL amount) 1 = Inr sig"
    and "create_breach_remedy_transaction L txid n sweeper amount sig script = Inr t"
  shows "verify_transaction_witness L E t 0 (p2wsh_address_spk L script) amount = Inr True"
  by (rule breach_remedy_spends [OF assms])

section \<open>Witnesses\<close>

definition sample_txid :: string where
  "sample_txid = hexlify [1, 2, 3]"

lemma sample_outpoint: "lib_outpoint wire_lib sample_txid n = Inr \<lparr>out_hash = [3, 2, 1], out_n = n\<rparr>"
  by (simp add: wire_lib_def sample_txid_def unhexlify_hexlify)

lemma add_input_sample:
  "add_input wire_lib sample_txid n sq b =
    Inr (b\<lparr>b_inputs := b_inputs b @ [\<lparr>prevout = \<lparr>out_hash = [3, 2, 1], out_n = n\<rparr>, nSequence = sq\<rparr>]\<rparr>)"
  by (simp add: add_input_def sample_outpoint)

lemma wire_wallet_lib [simp]: "wallet_lib wire_lib"
  by (rule wire.wallet_lib_axioms)

theorem p2wsh_verification_witness:
  "let script = create_anchor_script wire_lib [2];
       t = sample_tx\<lparr>wit := [[sample_sig [2] script, script]]\<rparr>
   in verify_transaction_witness wire_lib line_curve t 0 (create_p2wsh wire_lib script) 330 = Inr True"
proof -
  let ?s = "create_anchor_script wire_lib [2]"
  let ?t = "sample_tx\<lparr>wit := [[sample_sig [2] ?s, ?s]]\<rparr>"
  have "execute wire_lib (spend_ctx ?s ?t 0 330) [sample_sig [2] ?s] = Inr True"
    by (subst execute_anchor [where pubkey = "[2]"])
      (auto simp: suffix_def in_range_def sample_tx_def valid_sig_def check_signature_def sample_sig_def
        butlast_append)
  then show ?thesis
    using p2wsh_verification [of wire_lib line_curve ?t 0 ?s 330] by simp
qed

theorem commitment_pays_all_but_dust_witness:
  "\<exists>t. create_commitment_transaction wire_lib sample_txid 0 [2] [3] 60000 400 [(1000, [4])] 0 = Inr t \<and>
     total_out t = 61000"
proof -
  let ?c = "create_commitment_transaction wire_lib sample_txid 0 [2] [3] 60000 400 [(1000, [4])] 0"
  obtain t where t: "?c = Inr t"
    by (simp add: create_commitment_transaction_def add_input_sample Let_def)
  from commitment_pays_all_but_dust [OF t] have "total_out t = 61000"
    by (simp add: non_dust_def BITCOIN_DUST_LIMIT_SAT_def)
  with t show ?thesis by blast
qed

theorem signed_commitment_verifies_witness:
  "let script = create_multisig_2of2 wire_lib [3] [2]
   in \<exists>t. sign_commitment_transaction wire_lib sample_tx 0 script 100000 [3] [2] = Inr t \<and>
      verify_transaction_witness wire_lib line_curve t 0 (p2wsh_address_spk wire_lib script) 100000 = Inr True"
proof -
  let ?s = "create_multisig_2of2 wire_lib [3] [2]"
  obtain t where t: "sign_commitment_transaction wire_lib sample_tx 0 ?s 100000 [3] [2] = Inr t"
    by (cases "order_sigs [3] [2] ([3] @ sha256 ?s @ [1]) ([2] @ sha256 ?s @ [1])")
      (simp add: sign_commitment_transaction_def sign_sighash_def Let_def sample_tx_def)
  have "verify_transaction_witness wire_lib line_curve t 0 (p2wsh_address_spk wire_lib ?s) 100000 = Inr True"
    by (rule signed_commitment_verifies [OF wire_wallet_lib _ _ _ _ t]) (simp_all add: sample_tx_def)
  with t show ?thesis by (auto simp: Let_def)
qed

lemma sample_sig_not_Nil [simp]: "sample_sig k s \<noteq> []"
  by (simp add: sample_sig_def)

lemma sample_sign: "sign_sighash wire_lib k (lib_sighash wire_lib s t i h a) 1 = Inr (sample_sig k s)"
  by (simp add: sign_sighash_def sample_sig_def)

theorem htlc_claim_verifies_witness:
  "let script = create_htlc wire_lib [2] [3] (sha256 [9]) 500
   in \<exists>t. create_htlc_claim_transaction wire_lib sample_txid 0 [3] 1000 [9] script (sample_sig [3] script) = Inr t \<and>
      verify_transaction_witness wire_lib line_curve t 0 (p2wsh_address_spk wire_lib script) 1000 = Inr True"
proof -
  let ?s = "create_htlc wire_lib [2] [3] (sha256 [9]) 500"
  obtain t0 where t0: "create_htlc_claim_transaction wire_lib sample_txid 0 [3] 1000 [9] ?s [] = Inr t0"
    by (simp add: create_htlc_claim_transaction_def add_input_sample Let_def)
  obtain t where t: "create_htlc_claim_transaction wire_lib sample_txid 0 [3] 1000 [9] ?s (sample_sig [3] ?s) = Inr t"
    by (simp add: create_htlc_claim_transaction_def add_input_sample Let_def)
  have "verify_transaction_witness wire_lib line_curve t 0 (p2wsh_address_spk wire_lib ?s) 1000 = Inr True"
    by (rule htlc_claim_verifies [OF wire_wallet_lib _ refl _ _ _ _ t0 sample_sign t]) simp_all
  with t show ?thesis by (auto simp: Let_def)
qed

theorem htlc_refund_verifies_witness:
  "let script = create_htlc wire_lib [2] [3] (sha256 [9]) 500
   in \<exists>t. create_htlc_refund_transaction wire_lib sample_txid 0 [2] 1000 500 script (sample_sig [2] script) = Inr t \<and>
      verify_transaction_witness wire_lib line_curve t 0 (p2wsh_address_spk wire_lib script) 1000 = Inr True"
proof -
  let ?s = "create_htlc wire_lib [2] [3] (sha256 [9]) 500"
  obtain t0 where t0: "create_htlc_refund_transaction wire_lib sample_txid 0 [2] 1000 500 ?s [] = Inr t0"
    by (simp add: create_htlc_refund_transaction_def add_input_sample Let_def)
  obtain t where t: "create_htlc_refund_transaction wire_lib sample_txid 0 [2] 1000 500 ?s (sample_sig [2] ?s) = Inr t"
    by (simp add: create_htlc_refund_transaction_def add_input_sample Let_def)
  have "nLockTime t = 500 \<and>
      verify_transaction_witness wire_lib line_curve t 0 (p2wsh_address_spk wire_lib ?s) 1000 = Inr True"
    by (rule htlc_refund_verifies [OF wire_wallet_lib _ refl _ _ _ _ _ t0 sample_sign t]) simp_all
  with t show ?thesis by (auto simp: Let_def)
qed

theorem breach_remedy_verifies_witness:
  "let script = create_revocable_output_script wire_lib [2] [3] 144
   in \<exists>t. create_breach_remedy_transaction wire_lib sample_txid 0 [5] 1000 (sample_sig [2] script) script = Inr t \<and>
      verify_transaction_witness wire_lib line_curve t 0 (p2wsh_address_spk wire_lib script) 1000 = Inr True"
proof -
  let ?s = "create_revocable_output_script wire_lib [2] [3] 144"
  obtain t0 where t0: "create_breach_remedy_transaction wire_lib sample_txid 0 [5] 1000 [] ?s = Inr t0"
    by (simp add: create_breach_remedy_transaction_def add_input_sample Let_def)
  obtain t where t: "create_breach_remedy_transaction wire_lib sample_txid 0 [5] 1000 (sample_sig [2] ?s) ?s = Inr t"
    by (simp add: create_breach_remedy_transaction_def add_input_sample Let_def)
  have "verify_transaction_witness wire_lib line_curve t 0 (p2wsh_address_spk wire_lib ?s) 1000 = Inr True"
    by (rule breach_remedy_verifies [where local_pubkey = "[3]" and delay = 144, OF wire_wallet_lib _ _ _ _ _ t0 sample_sign t])
      simp_all
  with t show ?thesis by (auto simp: Let_def)
qed

end
