(* ===== verification/Anchors.thy ===== *)
theory Anchors
  imports Transactions
begin

text \<open>
  \<open>protocols/anchors.py\<close>: the commitment transaction with two anchor outputs and the fee-bumping child
  transaction that spends one.  Besides the value balance of both, the theorems show two flaws of the
  commitment: its outputs exceed the balances by the two anchors, and the balance outputs pay to the anchor scripts,
  which anyone can spend after sixteen blocks.
\<close>

definition ANCHOR_OUTPUT_SAT :: int where
  "ANCHOR_OUTPUT_SAT = 330"

definition create_anchor_commitment_transaction ::
    "btclib \<Rightarrow> string \<Rightarrow> int \<Rightarrow> bytes \<Rightarrow> bytes \<Rightarrow> int \<Rightarrow> int \<Rightarrow> (tx \<times> bytes \<times> bytes) res" where
  "create_anchor_commitment_transaction L funding_txid funding_vout sender_pubkey receiver_pubkey
       sender_balance_sat receiver_balance_sat =
     (let local_anchor_script = create_anchor_script L sender_pubkey;
          remote_anchor_script = create_anchor_script L receiver_pubkey;
          local_p2wsh = lib_cscript L [Op OP_0, Push (sha256 local_anchor_script)];
          remote_p2wsh = lib_cscript L [Op OP_0, Push (sha256 remote_anchor_script)]
      in rbind (add_input L funding_txid funding_vout 0xFFFFFFFF (TransactionBuilder 0)) (\<lambda>b.
         let b = (if BITCOIN_DUST_LIMIT_SAT \<le> sender_balance_sat
                  then add_output sender_balance_sat local_p2wsh b else b);
             b = (if BITCOIN_DUST_LIMIT_SAT \<le> receiver_balance_sat
                  then add_output receiver_balance_sat remote_p2wsh b else b);
             b = add_output ANCHOR_OUTPUT_SAT local_p2wsh b;
             b = add_output ANCHOR_OUTPUT_SAT remote_p2wsh b
         in Inr (build b, local_anchor_script, remote_anchor_script)))"

text \<open>\<open>wallet_utxo_txid and wallet_utxo_amount_sat > 0\<close>.\<close>

definition has_wallet_utxo :: "string option \<Rightarrow> int \<Rightarrow> bool" where
  "has_wallet_utxo txid amount \<longleftrightarrow> txid \<noteq> None \<and> txid \<noteq> Some [] \<and> 0 < amount"

definition create_cpfp_fee_bump_transaction ::
    "btclib \<Rightarrow> string \<Rightarrow> int \<Rightarrow> bytes \<Rightarrow> int \<Rightarrow> bytes \<Rightarrow> bytes \<Rightarrow> string option \<Rightarrow> int \<Rightarrow> int \<Rightarrow> bytes option \<Rightarrow> tx res" where
  "create_cpfp_fee_bump_transaction L parent_commitment_txid anchor_vout fee_bumper_pubkey fee_bump_sat
       anchor_redeem_script signature wallet_utxo_txid wallet_utxo_vout wallet_utxo_amount_sat wallet_signature =
     (let total_in_sat = ANCHOR_OUTPUT_SAT + wallet_utxo_amount_sat;
          change_sat = total_in_sat - fee_bump_sat;
          p2wpkh_spk = lib_cscript L [Op OP_0, Push (lib_Hash160 L fee_bumper_pubkey)]
      in rbind (add_input L parent_commitment_txid anchor_vout SEQUENCE_CLTV_ENABLE_MASK (TransactionBuilder 0)) (\<lambda>b.
         let b = add_witness_stack [signature, anchor_redeem_script] b
         in rbind
              (if has_wallet_utxo wallet_utxo_txid wallet_utxo_amount_sat then
                 rbind (add_input L (the wallet_utxo_txid) wallet_utxo_vout SEQUENCE_CLTV_ENABLE_MASK b) (\<lambda>b.
                   Inr (case wallet_signature of
                          None \<Rightarrow> b
                        | Some s \<Rightarrow> if s = [] then b else add_witness_stack [s, fee_bumper_pubkey] b))
               else Inr b)
              (\<lambda>b. Inr (build
                 (if has_wallet_utxo wallet_utxo_txid wallet_utxo_amount_sat then
                    (if 0 < change_sat then add_output change_sat p2wpkh_spk b else b)
                  else add_output (max 0 change_sat) p2wpkh_spk b)))))"

section \<open>Value\<close>

lemma add_output_fields [simp]:
  "b_outputs (add_output a s b) = b_outputs b @ [\<lparr>nValue = a, scriptPubKey = s\<rparr>]"
  "b_inputs (add_output a s b) = b_inputs b" "b_witnesses (add_output a s b) = b_witnesses b"
  by (simp_all add: add_output_def)

lemma add_input_outputs: "add_input L txid n sq b = Inr b' \<Longrightarrow> b_outputs b' = b_outputs b"
  by (auto simp: add_input_def rbind_eq_Inr)

text \<open>With both balances above the dust limit the anchor commitment's outputs exceed the
  channel's funds by the two anchors, so that no valid transaction can spend the funding output so.\<close>

theorem anchor_commitment_overspends:
  assumes "create_anchor_commitment_transaction L txid n sender receiver bs br = Inr (t, s1, s2)"
    and "BITCOIN_DUST_LIMIT_SAT \<le> bs" and "BITCOIN_DUST_LIMIT_SAT \<le> br"
  shows "total_out t = bs + br + 660"
  using assms by (auto simp: create_anchor_commitment_transaction_def rbind_eq_Inr Let_def total_out_def
      ANCHOR_OUTPUT_SAT_def dest!: add_input_InrD)

text \<open>Property C16: the sender's balance output of an anchor commitment is not protected: any transaction
  that waits sixteen blocks spends it with an empty signature.\<close>

theorem anchor_balance_anyone_can_spend:
  assumes "script_lib L" and "length sender < 65536" and "BITCOIN_DUST_LIMIT_SAT \<le> bs"
    and "create_anchor_commitment_transaction L txid n sender receiver bs br = Inr (t, script, s2)"
    and "vin u = [\<lparr>prevout = op, nSequence = 16\<rparr>]" and "wit u = [[[], script]]"
  shows "nValue (vout t ! 0) = bs \<and>
    verify_transaction_witness L E u 0 (scriptPubKey (vout t ! 0)) bs = Inr True"
proof -
  have script: "script = create_anchor_script L sender"
    and out: "vout t ! 0 = \<lparr>nValue = bs, scriptPubKey = create_p2wsh L script\<rparr>"
    using assms(3,4) by (auto simp: create_anchor_commitment_transaction_def rbind_eq_Inr Let_def
        create_p2wsh_def dest!: add_input_InrD)
  have "execute L (spend_ctx script u 0 bs) [[]] = Inr True"
    using assms(1,2,5) script
    by (subst execute_anchor [where pubkey = sender]) (auto simp: in_range_def csv_ok_def suffix_def)
  then show ?thesis
    using verify_p2wsh [OF assms(1), of 0 u "[[]]" script E bs] assms(6) by (simp add: out)
qed

text \<open>The fee-bumping transaction pays exactly the requested fee out of the anchor and the
  wallet input (there is one, or its amount is zero) whenever they cover it.\<close>

theorem cpfp_pays_fee:
  assumes "create_cpfp_fee_bump_transaction L txid n key fee script sig wtxid wn wamount wsig = Inr t"
    and "has_wallet_utxo wtxid wamount \<or> wamount = 0" and "fee \<le> ANCHOR_OUTPUT_SAT + wamount"
  shows "ANCHOR_OUTPUT_SAT + wamount - total_out t = fee"
proof -
  obtain b where b: "add_input L txid n SEQUENCE_CLTV_ENABLE_MASK (TransactionBuilder 0) = Inr b"
    using assms(1) by (auto simp: create_cpfp_fee_bump_transaction_def rbind_eq_Inr Let_def)
  have out: "b_outputs b = []" using add_input_InrD [OF b] by auto
  show ?thesis
  proof (cases "has_wallet_utxo wtxid wamount")
    case True
    obtain b2 where b2: "add_input L (the wtxid) wn SEQUENCE_CLTV_ENABLE_MASK (add_witness_stack [sig, script] b) = Inr b2"
      using assms(1) True by (auto simp: create_cpfp_fee_bump_transaction_def b rbind_eq_Inr Let_def)
    have "b_outputs b2 = []"
      using add_input_outputs [OF b2] out by simp
    moreover have "b_outputs (case wsig of None \<Rightarrow> b2 | Some s \<Rightarrow> if s = [] then b2 else add_witness_stack [s, key] b2) =
        b_outputs b2"
      by (simp split: option.split)
    ultimately show ?thesis
      using assms(1,3) True
      by (auto simp: create_cpfp_fee_bump_transaction_def b b2 Let_def total_out_def simp del: option.case_distrib)
  next
    case False
    then show ?thesis
      using assms out by (auto simp: create_cpfp_fee_bump_transaction_def b Let_def total_out_def)
  qed
qed

theorem anchor_commitment_overspends_witness:
  "\<exists>t s1 s2. create_anchor_commitment_transaction wire_lib sample_txid 0 [2] [3] 60000 40000 = Inr (t, s1, s2) \<and>
     total_out t = 100660"
proof -
  obtain t s1 s2 where t:
      "create_anchor_commitment_transaction wire_lib sample_txid 0 [2] [3] 60000 40000 = Inr (t, s1, s2)"
    by (simp add: create_anchor_commitment_transaction_def add_input_sample Let_def)
  from anchor_commitment_overspends [OF t] have "total_out t = 100660"
    by (simp add: BITCOIN_DUST_LIMIT_SAT_def)
  with t show ?thesis by blast
qed

theorem anchor_balance_anyone_can_spend_witness:
  "\<exists>t s1 s2. create_anchor_commitment_transaction wire_lib sample_txid 0 [2] [3] 60000 40000 = Inr (t, s1, s2) \<and>
     verify_transaction_witness wire_lib line_curve
       (sample_tx\<lparr>vin := [\<lparr>prevout = \<lparr>out_hash = [], out_n = 0\<rparr>, nSequence = 16\<rparr>], wit := [[[], s1]]\<rparr>)
       0 (scriptPubKey (vout t ! 0)) 60000 = Inr True"
proof -
  obtain t s1 s2 where t:
      "create_anchor_commitment_transaction wire_lib sample_txid 0 [2] [3] 60000 40000 = Inr (t, s1, s2)"
    by (simp add: create_anchor_commitment_transaction_def add_input_sample Let_def)
  have "nValue (vout t ! 0) = 60000 \<and>
      verify_transaction_witness wire_lib line_curve
       (sample_tx\<lparr>vin := [\<lparr>prevout = \<lparr>out_hash = [], out_n = 0\<rparr>, nSequence = 16\<rparr>], wit := [[[], s1]]\<rparr>)
       0 (scriptPubKey (vout t ! 0)) 60000 = Inr True"
    by (rule anchor_balance_anyone_can_spend [OF wire_script_lib _ _ t])
      (simp_all add: BITCOIN_DUST_LIMIT_SAT_def)
  with t show ?thesis by blast
qed

theorem cpfp_pays_fee_witness:
  "\<exists>t. create_cpfp_fee_bump_transaction wire_lib sample_txid 2 [2] 1000 [9] [1] (Some sample_txid) 0 5000 None = Inr t \<and>
     total_out t = 4330"
proof -
  have "sample_txid \<noteq> []" by (simp add: sample_txid_def hexlify_def hex_byte_def)
  then obtain t where t:
      "create_cpfp_fee_bump_transaction wire_lib sample_txid 2 [2] 1000 [9] [1] (Some sample_txid) 0 5000 None = Inr t"
    by (simp add: create_cpfp_fee_bump_transaction_def add_input_sample Let_def has_wallet_utxo_def)
  from cpfp_pays_fee [OF t] have "total_out t = 4330"
    by (simp add: ANCHOR_OUTPUT_SAT_def has_wallet_utxo_def \<open>sample_txid \<noteq> []\<close>)
  with t show ?thesis by blast
qed

end
