(* ===== verification/Eltoo.thy ===== *)
theory Eltoo
  imports Transactions
begin

text \<open>
  \<open>protocols/eltoo.py\<close>: the numbered states of a symmetric channel, the test that one overrides another, and
  the update and settlement transactions.  Overriding is shown to be a strict order, so that no sequence of
  overrides returns to an older state, and locktimes follow it; signed updates verify against the
  output they spend and keep the whole balance.  What orders updates on chain is only the
  \<open>nLockTime\<close> of each transaction: the multisig script the code uses does not check it.
\<close>

section \<open>States\<close>

definition ELTOO_BASE_LOCKTIME :: int where
  "ELTOO_BASE_LOCKTIME = 500000000"

record eltoo_state =
  state_number :: int
  sender_balance :: int
  receiver_balance :: int

definition eltoo_locktime :: "eltoo_state \<Rightarrow> int" where
  "eltoo_locktime s = ELTOO_BASE_LOCKTIME + state_number s"

definition validate_eltoo_override :: "eltoo_state \<Rightarrow> eltoo_state \<Rightarrow> bool res" where
  "validate_eltoo_override broadcast_state current_state =
     (if state_number current_state \<le> state_number broadcast_state then Inl PaymentCommunityError
      else Inr True)"

section \<open>Transactions\<close>

text \<open>The builder run of an update, up to the witness.\<close>

definition update_builder :: "btclib \<Rightarrow> string \<Rightarrow> int \<Rightarrow> eltoo_state \<Rightarrow> bytes \<Rightarrow> tx_builder res" where
  "update_builder L spending_txid spending_vout s p2wsh_spk =
     rbind (add_input L spending_txid spending_vout SEQUENCE_CLTV_ENABLE_MASK
              (TransactionBuilder (eltoo_locktime s))) (\<lambda>b.
       Inr (add_output (sender_balance s + receiver_balance s) p2wsh_spk b))"

text \<open>The signatures over the built transaction when both keys are given, else those passed in.\<close>

definition eltoo_sigs ::
    "btclib \<Rightarrow> bytes \<Rightarrow> tx \<Rightarrow> int \<Rightarrow> (bytes \<times> bytes) option \<Rightarrow> bytes \<Rightarrow> bytes \<Rightarrow> (bytes \<times> bytes) res" where
  "eltoo_sigs L redeem t capacity_sat secs sig_sender sig_receiver =
     (case secs of
        None \<Rightarrow> Inr (sig_sender, sig_receiver)
      | Some (sec_sender, sec_receiver) \<Rightarrow>
          let sighash = lib_sighash L redeem t 0 SIGHASH_ALL capacity_sat
          in rbind (sign_sighash L sec_sender sighash 1) (\<lambda>sig1.
             rbind (sign_sighash L sec_receiver sighash 1) (\<lambda>sig2.
               Inr (order_sigs (lib_pub L sec_sender) (lib_pub L sec_receiver) sig1 sig2))))"

definition create_eltoo_update_transaction ::
    "btclib \<Rightarrow> string \<Rightarrow> int \<Rightarrow> eltoo_state \<Rightarrow> bytes \<Rightarrow> bytes \<Rightarrow> bytes \<Rightarrow> (bytes \<times> bytes) option \<Rightarrow> tx res" where
  "create_eltoo_update_transaction L spending_txid spending_vout s multisig_redeem_script
       sig_sender sig_receiver secs =
     (let p2wsh_spk = lib_cscript L [Op OP_0, Push (sha256 multisig_redeem_script)];
          capacity_sat = sender_balance s + receiver_balance s
      in rbind (update_builder L spending_txid spending_vout s p2wsh_spk) (\<lambda>b.
         rbind (eltoo_sigs L multisig_redeem_script (build b) capacity_sat secs sig_sender sig_receiver) (\<lambda>(s1, s2).
         let witness = witness_multisig_2of2 s1 s2 multisig_redeem_script
         in rbind (update_builder L spending_txid spending_vout s p2wsh_spk) (\<lambda>b.
            Inr (build (add_witness_stack witness b))))))"

definition settlement_builder :: "btclib \<Rightarrow> string \<Rightarrow> int \<Rightarrow> eltoo_state \<Rightarrow> bytes \<Rightarrow> bytes \<Rightarrow> tx_builder res" where
  "settlement_builder L update_txid update_vout s p2wpkh_sender p2wpkh_receiver =
     rbind (add_input L update_txid update_vout SEQUENCE_CLTV_ENABLE_MASK (TransactionBuilder 0)) (\<lambda>b.
       Inr (add_output (receiver_balance s) p2wpkh_receiver (add_output (sender_balance s) p2wpkh_sender b)))"

definition create_eltoo_settlement_transaction ::
    "btclib \<Rightarrow> string \<Rightarrow> int \<Rightarrow> bytes \<Rightarrow> bytes \<Rightarrow> eltoo_state \<Rightarrow> bytes \<Rightarrow> bytes \<Rightarrow> bytes \<Rightarrow> (bytes \<times> bytes) option \<Rightarrow> tx res" where
  "create_eltoo_settlement_transaction L update_txid update_vout sender_pubkey receiver_pubkey s
       sig_sender sig_receiver multisig_redeem_script secs =
     (let p2wpkh_sender = lib_cscript L [Op OP_0, Push (lib_Hash160 L sender_pubkey)];
          p2wpkh_receiver = lib_cscript L [Op OP_0, Push (lib_Hash160 L receiver_pubkey)];
          capacity_sat = sender_balance s + receiver_balance s;
          secs = (if multisig_redeem_script = [] then None else secs)
      in rbind (settlement_builder L update_txid update_vout s p2wpkh_sender p2wpkh_receiver) (\<lambda>b.
         rbind (eltoo_sigs L multisig_redeem_script (build b) capacity_sat secs sig_sender sig_receiver) (\<lambda>(s1, s2).
         let witness = witness_multisig_2of2 s1 s2 multisig_redeem_script
         in rbind (settlement_builder L update_txid update_vout s p2wpkh_sender p2wpkh_receiver) (\<lambda>b.
            Inr (build (add_witness_stack witness b))))))"

section \<open>Overriding\<close>

text \<open>A run of overrides: each state accepted in place of the one before.\<close>

fun override_run :: "eltoo_state \<Rightarrow> eltoo_state list \<Rightarrow> eltoo_state res" where
  "override_run s [] = Inr s"
| "override_run s (u # us) = rbind (validate_eltoo_override s u) (\<lambda>_. override_run u us)"

lemma override_iff:
  "validate_eltoo_override s u = Inr True \<longleftrightarrow> state_number s < state_number u"
  by (auto simp: validate_eltoo_override_def)

lemma override_run_increases:
  "override_run s us = Inr t \<Longrightarrow> us \<noteq> [] \<Longrightarrow>
    state_number s < state_number t \<and> sorted_wrt (<) (map state_number (s # us))"
proof (induction us arbitrary: s)
  case Nil
  then show ?case by simp
next
  case (Cons u us)
  from Cons.prems have su: "state_number s < state_number u" and run: "override_run u us = Inr t"
    by (auto simp: rbind_eq_Inr validate_eltoo_override_def split: if_splits)
  show ?case
  proof (cases "us = []")
    case True
    with su run show ?thesis by simp
  next
    case False
    with Cons.IH [OF run] su show ?thesis by force
  qed
qed

text \<open>A run of accepted overrides strictly raises state number and locktime at every step; so
  the state it ends in can never be overridden by any state it went through.\<close>

theorem eltoo_overrides_never_roll_back:
  assumes "override_run s us = Inr t" and "us \<noteq> []" and "old \<in> set (s # us)"
  shows "sorted_wrt (<) (map eltoo_locktime (s # us)) \<and>
    validate_eltoo_override t old = Inl PaymentCommunityError"
proof -
  have sorted: "sorted_wrt (<) (map state_number (s # us))"
    using override_run_increases [OF assms(1,2)] by simp
  have "t = last (s # us)"
    using assms(1) by (induction us arbitrary: s) (auto simp: rbind_eq_Inr)
  moreover have "x = last xs \<or> state_number x < state_number (last xs)"
    if "sorted_wrt (<) (map state_number xs)" "x \<in> set xs" for x xs
    using that by (induction xs) (auto split: if_splits)
  ultimately have "state_number old \<le> state_number t"
    using sorted assms(3) by fastforce
  moreover have "sorted_wrt (<) (map eltoo_locktime (s # us))"
    using sorted by (simp add: sorted_wrt_map eltoo_locktime_def)
  ultimately show ?thesis
    by (simp add: validate_eltoo_override_def)
qed

section \<open>Signed updates\<close>

lemma eltoo_sigs_valid:
  assumes "wallet_lib L" and "eltoo_sigs L script t a (Some (k1, k2)) x y = Inr (s1, s2)"
    and "vin t' = vin t" "vout t' = vout t" "nLockTime t' = nLockTime t"
  shows "valid_sig L (spend_ctx script t' 0 a) (min (lib_pub L k1) (lib_pub L k2)) s1 \<and>
    valid_sig L (spend_ctx script t' 0 a) (max (lib_pub L k1) (lib_pub L k2)) s2"
proof -
  obtain sig1 sig2 where "sign_sighash L k1 (lib_sighash L script t 0 SIGHASH_ALL a) 1 = Inr sig1"
    and "sign_sighash L k2 (lib_sighash L script t 0 SIGHASH_ALL a) 1 = Inr sig2"
    and order: "order_sigs (lib_pub L k1) (lib_pub L k2) sig1 sig2 = (s1, s2)"
    using assms(2) by (auto simp: eltoo_sigs_def rbind_eq_Inr Let_def)
  then have "valid_sig L (spend_ctx script t' 0 a) (lib_pub L k1) sig1"
    and "valid_sig L (spend_ctx script t' 0 a) (lib_pub L k2) sig2"
    using wallet_lib.signed_valid [OF assms(1)] assms(3-5) by blast+
  from order_sigs_min_max [OF this order] show ?thesis .
qed

text \<open>An update signed with both keys spends the funding output, or any earlier update's
  output, of the same script, locks the whole balance under the same script again and carries the locktime of its state.\<close>

theorem eltoo_update_verifies:
  assumes "wallet_lib L" and "length (lib_pub L k1) < 65536" "length (lib_pub L k2) < 65536"
    and "script = create_multisig_2of2 L (lib_pub L k1) (lib_pub L k2)"
    and "create_eltoo_update_transaction L txid n s script x y (Some (k1, k2)) = Inr t"
  shows "vout t = [\<lparr>nValue = sender_balance s + receiver_balance s, scriptPubKey = create_p2wsh L script\<rparr>] \<and>
    nLockTime t = eltoo_locktime s \<and>
    verify_transaction_witness L E t 0 (create_p2wsh L script) (sender_balance s + receiver_balance s) = Inr True"
proof -
  let ?spk = "create_p2wsh L script" and ?a = "sender_balance s + receiver_balance s"
  obtain b s1 s2 where b: "update_builder L txid n s ?spk = Inr b"
    and sigs: "eltoo_sigs L script (build b) ?a (Some (k1, k2)) x y = Inr (s1, s2)"
    and t: "t = build (add_witness_stack (witness_multisig_2of2 s1 s2 script) b)"
    using assms(5) by (auto simp: create_eltoo_update_transaction_def Let_def rbind_eq_Inr create_p2wsh_def)
  have fields: "b_outputs b = [\<lparr>nValue = ?a, scriptPubKey = ?spk\<rparr>]" "b_witnesses b = []"
      "b_locktime b = eltoo_locktime s"
    using b by (auto simp: update_builder_def rbind_eq_Inr add_output_def dest!: add_input_InrD)
  have "verify_transaction_witness L E t 0 (p2wsh_address_spk L script) ?a = Inr True"
    by (rule multisig_spend_verifies [OF assms(1-4) eltoo_sigs_valid [OF assms(1) sigs]]) (simp_all add: t fields)
  then show ?thesis by (simp add: t fields wallet_lib.p2wsh_address [OF assms(1)])
qed

text \<open>The settlement of a state pays both balances and spends the output of its update.\<close>

theorem eltoo_settlement_verifies:
  assumes "wallet_lib L" and "length (lib_pub L k1) < 65536" "length (lib_pub L k2) < 65536"
    and "script = create_multisig_2of2 L (lib_pub L k1) (lib_pub L k2)" and "script \<noteq> []"
    and "create_eltoo_settlement_transaction L txid n p q s x y script (Some (k1, k2)) = Inr t"
  shows "map nValue (vout t) = [sender_balance s, receiver_balance s] \<and>
    verify_transaction_witness L E t 0 (create_p2wsh L script) (sender_balance s + receiver_balance s) = Inr True"
proof -
  let ?a = "sender_balance s + receiver_balance s"
  obtain b s1 s2 where b: "settlement_builder L txid n s (create_p2wpkh L p) (create_p2wpkh L q) = Inr b"
    and sigs: "eltoo_sigs L script (build b) ?a (Some (k1, k2)) x y = Inr (s1, s2)"
    and t: "t = build (add_witness_stack (witness_multisig_2of2 s1 s2 script) b)"
    using assms(5,6) by (auto simp: create_eltoo_settlement_transaction_def Let_def rbind_eq_Inr create_p2wpkh_def)
  have fields: "map nValue (b_outputs b) = [sender_balance s, receiver_balance s]" "b_witnesses b = []"
    using b by (auto simp: settlement_builder_def rbind_eq_Inr add_output_def dest!: add_input_InrD)
  have "verify_transaction_witness L E t 0 (p2wsh_address_spk L script) ?a = Inr True"
    by (rule multisig_spend_verifies [OF assms(1-4) eltoo_sigs_valid [OF assms(1) sigs]]) (simp_all add: t fields)
  then show ?thesis by (simp add: t fields wallet_lib.p2wsh_address [OF assms(1)])
qed

section \<open>Witnesses\<close>

definition sample_state :: "int \<Rightarrow> eltoo_state" where
  "sample_state n = \<lparr>state_number = n, sender_balance = 60000, receiver_balance = 40000\<rparr>"

theorem eltoo_overrides_never_roll_back_witness:
  "override_run (sample_state 1) [sample_state 2, sample_state 5] = Inr (sample_state 5) \<and>
    validate_eltoo_override (sample_state 5) (sample_state 2) = Inl PaymentCommunityError"
proof
  show run: "override_run (sample_state 1) [sample_state 2, sample_state 5] = Inr (sample_state 5)"
    by (simp add: sample_state_def validate_eltoo_override_def)
  show "validate_eltoo_override (sample_state 5) (sample_state 2) = Inl PaymentCommunityError"
    using eltoo_overrides_never_roll_back [OF run, of "sample_state 2"] by simp
qed

theorem eltoo_update_verifies_witness:
  "let script = create_multisig_2of2 wire_lib [3] [2]
   in \<exists>t. create_eltoo_update_transaction wire_lib sample_txid 0 (sample_state 4) script [] [] (Some ([3], [2])) = Inr t \<and>
      verify_transaction_witness wire_lib line_curve t 0 (create_p2wsh wire_lib script) 100000 = Inr True"
proof -
  let ?s = "create_multisig_2of2 wire_lib [3] [2]"
  obtain t where t: "create_eltoo_update_transaction wire_lib sample_txid 0 (sample_state 4) ?s [] [] (Some ([3], [2])) = Inr t"
    by (simp add: create_eltoo_update_transaction_def update_builder_def eltoo_sigs_def add_input_sample
        sign_sighash_def Let_def split_beta)
  show ?thesis
    using eltoo_update_verifies [OF wire_wallet_lib _ _ _ t, of line_curve] t
    by (auto simp: Let_def sample_state_def)
qed

end
