(* ===== verification/Shachain.thy ===== *)
theory Shachain
  imports Sha256
begin

text \<open>
  \<open>protocols/shachain.py\<close>: the derivation of per-commitment secrets from a seed, and the receiver that
  stores revealed secrets compactly.  The theorems: deriving from an ancestor agrees with deriving from the seed; a
  receiver fed with a generator's secrets returns exactly those secrets, for every index it was given; a
  secret that contradicts a stored one is refused; and, in the order BOLT 3 prescribes (from the highest
  index down), at most 48 elements are stored.
\<close>

section \<open>Derivation\<close>

text \<open>\<open>int.bit_length\<close> of a non-negative integer, and the number of trailing zeros the code computes with it.\<close>

fun bit_length :: "nat \<Rightarrow> nat" where
  "bit_length n = (if n = 0 then 0 else Suc (bit_length (n div 2)))"

declare bit_length.simps [simp del]

definition trailing_zeros :: "int \<Rightarrow> nat" where
  "trailing_zeros i = (if i = 0 then 48 else bit_length (nat (i AND - i)) - 1)"

text \<open>One turn of the loop: flip the bit and hash, if the index has it.\<close>

definition derive_step :: "int \<Rightarrow> nat \<Rightarrow> bytes \<Rightarrow> bytes res" where
  "derive_step index b p =
     (if bit index b then
        (if length p \<le> b div 8 then Inl IndexError
         else Inr (sha256 (p[b div 8 := p ! (b div 8) XOR push_bit (b mod 8) 1])))
      else Inr p)"

definition derive_shachain_secret :: "bytes \<Rightarrow> int \<Rightarrow> bytes res" where
  "derive_shachain_secret seed index =
     (if length seed \<noteq> 32 then Inl ValueError
      else if index < 0 \<or> push_bit 48 1 \<le> index then Inl ValueError
      else fold_res (derive_step index) (rev [0..<48]) seed)"

definition can_derive :: "int \<Rightarrow> int \<Rightarrow> bool" where
  "can_derive source_index target_index =
     (if source_index = target_index then True
      else
        let mask = NOT (push_bit (trailing_zeros source_index) 1 - 1) AND (push_bit 48 1 - 1)
        in (source_index AND mask) = (target_index AND mask))"

definition derive_from_ancestor :: "bytes \<Rightarrow> int \<Rightarrow> int \<Rightarrow> bytes res" where
  "derive_from_ancestor ancestor_secret ancestor_index target_index =
     (if ancestor_index = target_index then Inr ancestor_secret
      else fold_res (derive_step target_index) (rev [0..<trailing_zeros ancestor_index]) ancestor_secret)"

section \<open>Generator and receiver\<close>

text \<open>A generator is its seed (\<open>seed or secrets.token_bytes(32)\<close>, the random bytes an argument).\<close>

definition ShachainGenerator :: "bytes \<Rightarrow> bytes \<Rightarrow> bytes" where
  "ShachainGenerator seed random_bytes = (if seed = [] then random_bytes else seed)"

definition generator_secret :: "bytes \<Rightarrow> int \<Rightarrow> bytes res" where
  "generator_secret seed index = derive_shachain_secret seed index"

definition generator_commitment_secret :: "bytes \<Rightarrow> int \<Rightarrow> bytes res" where
  "generator_commitment_secret seed commitment_number =
     generator_secret seed (push_bit 48 1 - 1 - commitment_number)"

record receiver =
  elements :: "(int, string) pydict"
  last_index :: int

definition empty_receiver :: receiver where
  "empty_receiver = \<lparr>elements = [], last_index = -1\<rparr>"

text \<open>The tampering check: \<open>True\<close> if the first slot that can derive the index confirms the secret.\<close>

fun check_derivable :: "(int \<times> string) list \<Rightarrow> bytes \<Rightarrow> int \<Rightarrow> bool res" where
  "check_derivable [] secret index = Inr False"
| "check_derivable ((slot, s_hex) # items) secret index =
     rbind (bytes_fromhex s_hex) (\<lambda>s_bytes.
       if can_derive slot index then
         rbind (derive_from_ancestor s_bytes slot index) (\<lambda>derived.
           if derived \<noteq> secret then Inl ValueError else Inr True)
       else check_derivable items secret index)"

text \<open>The pruning loops over the sorted slots.\<close>

definition prune_from :: "int list \<Rightarrow> int \<Rightarrow> (int, string) pydict \<Rightarrow> (int, string) pydict" where
  "prune_from slots s1 d =
     fold (\<lambda>s2 d. if dict_get d s2 \<noteq> None \<and> s1 \<noteq> s2 \<and> can_derive s1 s2 then dict_del s2 d else d) slots d"

definition prune :: "(int, string) pydict \<Rightarrow> (int, string) pydict" where
  "prune d =
     (let slots = sort (dict_keys d)
      in fold (\<lambda>s1 d. if dict_get d s1 \<noteq> None then prune_from slots s1 d else d) slots d)"

definition add_secret :: "bytes \<Rightarrow> int \<Rightarrow> receiver \<Rightarrow> receiver res" where
  "add_secret secret index r =
     (if length secret \<noteq> 32 then Inl ValueError
      else rbind (check_derivable (elements r) secret index) (\<lambda>known.
        if known then Inr r
        else Inr (r\<lparr>elements := prune (dict_set index (hexlify secret) (elements r)), last_index := index\<rparr>)))"

fun find_secret :: "(int \<times> string) list \<Rightarrow> int \<Rightarrow> bytes option res" where
  "find_secret [] index = Inr None"
| "find_secret ((slot, s_hex) # items) index =
     (if can_derive slot index then
        rbind (bytes_fromhex s_hex) (\<lambda>b. rbind (derive_from_ancestor b slot index) (\<lambda>p. Inr (Some p)))
      else find_secret items index)"

definition get_secret :: "receiver \<Rightarrow> int \<Rightarrow> bytes option res" where
  "get_secret r index =
     (case dict_get (elements r) index of
        Some s_hex \<Rightarrow> rbind (bytes_fromhex s_hex) (\<lambda>b. Inr (Some b))
      | None \<Rightarrow> find_secret (elements r) index)"

definition get_commitment_secret :: "receiver \<Rightarrow> int \<Rightarrow> bytes option res" where
  "get_commitment_secret r commitment_number = get_secret r (push_bit 48 1 - 1 - commitment_number)"

section \<open>Trailing zeros and subtrees\<close>

definition in_tree :: "int \<Rightarrow> bool" where
  "in_tree i \<longleftrightarrow> 0 \<le> i \<and> i < 2 ^ 48"

lemma bit_length_power: "bit_length (2 ^ n) = Suc n"
  by (induction n) (subst bit_length.simps, simp add: bit_length.simps [of 0])+

text \<open>\<open>i & -i\<close> isolates the lowest bit.\<close>

lemma lowest_bit:
  assumes "odd (q :: int)"
  shows "(2 ^ n * q) AND - (2 ^ n * q) = 2 ^ n"
proof -
  have "q AND - q = 1"
  proof -
    obtain k where q: "q = 2 * k + 1" using assms by (rule oddE)
    then have "- q = NOT (2 * k)" by (simp add: not_eq_complement)
    then have "q AND - q = (1 + 2 * k) AND NOT (2 * k)" by (simp add: q add.commute)
    also have "\<dots> = 1"
      by (rule bit_eqI) (auto simp: bit_and_iff bit_not_iff bit_1_iff bit_double_iff even_bit_succ_iff)
    finally show ?thesis .
  qed
  moreover have "(2 ^ n * q) AND - (2 ^ n * q) = push_bit n (q AND - q)"
  proof -
    have "2 ^ n * q = push_bit n q" and "- (2 ^ n * q) = push_bit n (- q)"
      by (simp_all add: push_bit_eq_mult)
    then show ?thesis by (simp only: push_bit_and)
  qed
  ultimately show ?thesis by (simp add: push_bit_eq_mult)
qed

lemma trailing_zeros_eq: "odd q \<Longrightarrow> trailing_zeros (2 ^ n * q) = n"
  by (auto simp: trailing_zeros_def lowest_bit bit_length_power nat_power_eq)

lemma split_trailing:
  assumes "i \<noteq> (0 :: int)"
  obtains q where "odd q" and "i = 2 ^ trailing_zeros i * q"
proof -
  have "\<exists>n q. odd q \<and> i = 2 ^ n * q"
    using assms
  proof (induction "nat \<bar>i\<bar>" arbitrary: i rule: less_induct)
    case less
    show ?case
    proof (cases "odd i")
      case True
      then show ?thesis by (intro exI [of _ 0] exI [of _ i]) simp
    next
      case False
      then obtain j where j: "i = 2 * j" by blast
      with less.prems have "nat \<bar>j\<bar> < nat \<bar>i\<bar>" "j \<noteq> 0" by auto
      then obtain n q where "odd q" "j = 2 ^ n * q" using less.hyps by blast
      with j show ?thesis by (intro exI [of _ "Suc n"] exI [of _ q]) simp
    qed
  qed
  then show ?thesis using that trailing_zeros_eq by metis
qed

text \<open>A node's subtree: the indices that agree with it above its trailing zeros.\<close>

lemma mask_eq:
  assumes "in_tree i" and "n \<le> 48"
  shows "i AND (NOT (push_bit n 1 - 1) AND (push_bit 48 1 - 1)) = push_bit n (i div 2 ^ n)"
proof -
  have "(push_bit 48 1 - 1 :: int) = mask 48" "(push_bit n 1 - 1 :: int) = mask n"
    by (simp_all add: mask_eq_exp_minus_1)
  moreover have "i AND mask 48 = i"
    using assms(1) by (simp add: in_tree_def take_bit_eq_mask [symmetric] take_bit_int_eq_self)
  moreover have "i AND NOT (mask n) = push_bit n (i div 2 ^ n)"
    by (rule bit_eqI) (auto simp: bit_and_iff bit_not_iff bit_mask_iff bit_push_bit_iff
        drop_bit_eq_div [symmetric] bit_drop_bit_eq)
  ultimately show ?thesis
    by (metis and.assoc and.commute)
qed

lemma trailing_zeros_bound: "in_tree i \<Longrightarrow> i \<noteq> 0 \<Longrightarrow> trailing_zeros i < 48"
proof -
  assume i: "in_tree i" "i \<noteq> 0"
  obtain q where q: "odd q" "i = 2 ^ trailing_zeros i * q" using split_trailing [OF i(2)] .
  have "0 < 2 ^ trailing_zeros i * q" using q(2) i by (simp add: in_tree_def)
  then have "0 < q" by (simp add: zero_less_mult_iff)
  then have "2 ^ trailing_zeros i * 1 \<le> 2 ^ trailing_zeros i * q" by (intro mult_left_mono) simp_all
  with q(2) i(1) have "(2 :: int) ^ trailing_zeros i < 2 ^ 48" by (simp add: in_tree_def)
  then show ?thesis by (rule power_less_imp_less_exp [rotated]) simp
qed

lemma trailing_zeros_le: "in_tree i \<Longrightarrow> trailing_zeros i \<le> 48"
  using trailing_zeros_bound [of i] by (cases "i = 0") (simp_all add: trailing_zeros_def)

lemma can_derive_iff:
  assumes "in_tree s" and "in_tree t"
  shows "can_derive s t \<longleftrightarrow> s div 2 ^ trailing_zeros s = t div 2 ^ trailing_zeros s"
proof -
  have "push_bit n a = push_bit n b \<longleftrightarrow> a = b" for n and a b :: int
    by (simp add: push_bit_eq_mult)
  then show ?thesis
    unfolding can_derive_def Let_def mask_eq [OF assms(1) trailing_zeros_le [OF assms(1)]]
      mask_eq [OF assms(2) trailing_zeros_le [OF assms(1)]]
    by auto
qed

lemma can_derive_refl [simp]: "can_derive s s"
  by (simp add: can_derive_def)

lemma low_bits_zero: "in_tree s \<Longrightarrow> b < trailing_zeros s \<Longrightarrow> \<not> bit s b"
proof (cases "s = 0")
  case False
  assume b: "b < trailing_zeros s"
  obtain q where "s = 2 ^ trailing_zeros s * q" using split_trailing [OF False] .
  then have "s = push_bit (trailing_zeros s) q" by (simp add: push_bit_eq_mult mult.commute)
  then show ?thesis using b by (metis bit_push_bit_iff leD)
qed simp

lemma high_bits_agree:
  assumes "(s :: int) div 2 ^ z = t div 2 ^ z" and "z \<le> b"
  shows "bit s b \<longleftrightarrow> bit t b"
proof -
  have "bit (drop_bit z s) (b - z) = bit (drop_bit z t) (b - z)"
    using assms(1) by (simp add: drop_bit_eq_div)
  then show ?thesis using assms(2) by (simp add: bit_drop_bit_eq)
qed

section \<open>Deriving from an ancestor\<close>

lemma walk_cong:
  "(\<And>b. b \<in> set bs \<Longrightarrow> bit s b = bit t b) \<Longrightarrow> fold_res (derive_step s) bs p = fold_res (derive_step t) bs p"
proof (induction bs arbitrary: p)
  case (Cons b bs)
  then have "derive_step s b p = derive_step t b p" by (simp add: derive_step_def)
  with Cons show ?case by (cases "derive_step t b p") simp_all
qed simp

lemma walk_zeros: "(\<And>b. b \<in> set bs \<Longrightarrow> \<not> bit s b) \<Longrightarrow> fold_res (derive_step s) bs p = Inr p"
  by (induction bs) (simp_all add: derive_step_def)

lemma walk_ok:
  assumes "length p = 32" and "\<And>b. b \<in> set bs \<Longrightarrow> b < 48"
  shows "\<exists>q. fold_res (derive_step t) bs p = Inr q \<and> length q = 32"
  using assms
proof (induction bs arbitrary: p)
  case (Cons b bs)
  then have "b < 48" by simp
  with Cons.prems(1) have "b div 8 < length p" by simp
  then obtain q where "derive_step t b p = Inr q" "length q = 32"
    using Cons.prems(1) by (cases "bit t b") (auto simp: derive_step_def)
  with Cons show ?case by simp
qed simp

lemma derive_secret_ok:
  "length seed = 32 \<Longrightarrow> in_tree i \<Longrightarrow> \<exists>p. derive_shachain_secret seed i = Inr p \<and> length p = 32"
  using walk_ok [of seed "rev [0..<48]" i] by (auto simp: derive_shachain_secret_def push_bit_eq_mult in_tree_def)

lemma derive_secret_in_range:
  "derive_shachain_secret seed i = Inr p \<Longrightarrow> length seed = 32 \<and> in_tree i"
  by (auto simp: derive_shachain_secret_def push_bit_eq_mult in_tree_def split: if_splits)

lemma derive_ancestor:
  assumes "derive_shachain_secret seed s = Inr p" and "in_tree t" and "can_derive s t"
  shows "derive_from_ancestor p s t = derive_shachain_secret seed t"
proof (cases "s = t")
  case True
  with assms show ?thesis by (simp add: derive_from_ancestor_def)
next
  case False
  let ?z = "trailing_zeros s"
  have s: "in_tree s" "length seed = 32"
    using derive_secret_in_range [OF assms(1)] by auto
  have z: "?z \<le> 48" using s(1) by (rule trailing_zeros_le)
  then have split: "rev [0..<48] = rev [?z..<48] @ rev [0..<?z]"
    by (metis add.left_neutral le_add_diff_inverse rev_append upt_add_eq_append zero_le)
  have agree: "s div 2 ^ ?z = t div 2 ^ ?z"
    using assms(2,3) s(1) can_derive_iff by blast
  have "fold_res (derive_step s) (rev [?z..<48]) seed = Inr p"
    using assms(1) s(1) walk_zeros [of "rev [0..<?z]" s] low_bits_zero [OF s(1)]
    unfolding derive_shachain_secret_def split fold_res_append
    by (cases "fold_res (derive_step s) (rev [?z..<48]) seed") (auto split: if_splits)
  moreover have "fold_res (derive_step s) (rev [?z..<48]) seed = fold_res (derive_step t) (rev [?z..<48]) seed"
    by (rule walk_cong) (use high_bits_agree [OF agree] in auto)
  ultimately have "fold_res (derive_step t) (rev [0..<48]) seed = fold_res (derive_step t) (rev [0..<?z]) p"
    unfolding split fold_res_append by simp
  then show ?thesis
    using False s(2) assms(2)
    by (simp add: derive_from_ancestor_def derive_shachain_secret_def push_bit_eq_mult in_tree_def)
qed

text \<open>From the secret of an index every secret of its subtree is derived as from the seed.\<close>

theorem ancestor_derivation_agrees:
  assumes "derive_shachain_secret seed s = Inr p" and "0 \<le> t" and "t < 2 ^ 48" and "can_derive s t"
  shows "derive_from_ancestor p s t = derive_shachain_secret seed t"
  using assms derive_ancestor by (simp add: in_tree_def)

section \<open>The order of ancestors\<close>

lemma tz_dvd: "2 ^ trailing_zeros s dvd s"
proof (cases "s = 0")
  case False
  then show ?thesis using split_trailing [OF False] by (metis dvd_triv_left)
qed simp

lemma tz_greatest:
  assumes "in_tree s" and "s \<noteq> 0" and "2 ^ n dvd s"
  shows "n \<le> trailing_zeros s"
proof (rule ccontr)
  assume "\<not> n \<le> trailing_zeros s"
  obtain q where q: "odd q" "s = 2 ^ trailing_zeros s * q" using split_trailing [OF assms(2)] .
  have "(2 :: int) ^ Suc (trailing_zeros s) dvd 2 ^ n"
    using \<open>\<not> n \<le> trailing_zeros s\<close> by (intro le_imp_power_dvd) simp
  with assms(3) have "2 ^ trailing_zeros s * 2 dvd s"
    by (metis dvd_trans power_Suc2)
  then have "2 dvd q"
    by (metis q(2) dvd_times_left_cancel_iff power_not_zero zero_neq_numeral)
  with q(1) show False by simp
qed

text \<open>The subtree of an index is the interval of its trailing zeros.\<close>

lemma can_derive_interval:
  assumes "in_tree s" and "in_tree t"
  shows "can_derive s t \<longleftrightarrow> s \<le> t \<and> t < s + 2 ^ trailing_zeros s"
proof -
  obtain k where k: "s = 2 ^ trailing_zeros s * k" using tz_dvd by (rule dvdE)
  define w where "w = (2 :: int) ^ trailing_zeros s"
  have w: "0 < w" by (simp add: w_def)
  have "w * k div w = k" using w by simp
  then have "s div w = k" using k by (simp add: w_def)
  moreover have "k = t div w \<longleftrightarrow> w * k \<le> t \<and> t < w * k + w"
  proof
    assume "k = t div w"
    moreover have "w * (t div w) \<le> t \<and> t < w * (t div w) + w"
      using mult_div_mod_eq [of w t] pos_mod_bound [OF w, of t] pos_mod_sign [OF w, of t] by linarith
    ultimately show "w * k \<le> t \<and> t < w * k + w" by simp
  next
    assume "w * k \<le> t \<and> t < w * k + w"
    then show "k = t div w"
      using w by (intro int_div_pos_eq [symmetric, where r = "t - w * k"]) auto
  qed
  ultimately show ?thesis
    using can_derive_iff [OF assms] k by (simp add: w_def)
qed

lemma can_derive_trans:
  assumes "in_tree s" "in_tree u" "in_tree t" and "can_derive s u" and "can_derive u t"
  shows "can_derive s t"
proof (cases "s = u")
  case True
  with assms show ?thesis by simp
next
  case False
  let ?z = "trailing_zeros s" and ?y = "trailing_zeros u"
  have su: "s div 2 ^ ?z = u div 2 ^ ?z" and ut: "u div 2 ^ ?y = t div 2 ^ ?y"
    using assms can_derive_iff by blast+
  have "?y < ?z"
  proof (rule ccontr)
    assume "\<not> ?y < ?z"
    then have "(2 :: int) ^ ?z dvd u"
      by (metis dvd_trans le_imp_power_dvd linorder_not_less tz_dvd)
    then have "u = 2 ^ ?z * (u div 2 ^ ?z)" by simp
    also have "\<dots> = s" using su tz_dvd [of s] by (metis dvd_mult_div_cancel)
    finally show False using False by simp
  qed
  then obtain d where d: "?z = ?y + d" by (metis less_imp_add_positive)
  then have "x div 2 ^ ?z = x div 2 ^ ?y div 2 ^ d" for x :: int
    by (simp add: power_add zdiv_zmult2_eq)
  then show ?thesis
    using su ut can_derive_iff [OF assms(1,3)] by simp
qed

section \<open>Pruning\<close>

abbreviation keys_of :: "(int, string) pydict \<Rightarrow> int set" where
  "keys_of d \<equiv> dom (dict_get d)"

lemma prune_from_get:
  "dict_get (prune_from slots s1 d) =
    (\<lambda>k. if k \<in> set slots \<and> s1 \<noteq> k \<and> can_derive s1 k then None else dict_get d k)"
proof (induction slots arbitrary: d)
  case Nil
  then show ?case by (simp add: prune_from_def)
next
  case (Cons s2 slots)
  then show ?case by (auto simp: prune_from_def fun_eq_iff)
qed

lemma prune_from_wf: "wf_dict d \<Longrightarrow> wf_dict (prune_from slots s1 d)"
  unfolding prune_from_def by (induction slots arbitrary: d) simp_all

definition prune_step :: "int list \<Rightarrow> int \<Rightarrow> (int, string) pydict \<Rightarrow> (int, string) pydict" where
  "prune_step slots s1 d = (if dict_get d s1 \<noteq> None then prune_from slots s1 d else d)"

lemma prune_eq: "prune d = fold (prune_step (sort (dict_keys d))) (sort (dict_keys d)) d"
  by (simp add: prune_def prune_step_def [abs_def] Let_def)

lemma prune_step_get:
  "dict_get (prune_step slots s1 d) =
    (\<lambda>k. if s1 \<in> keys_of d \<and> k \<in> set slots \<and> s1 \<noteq> k \<and> can_derive s1 k then None else dict_get d k)"
  by (auto simp: prune_step_def prune_from_get fun_eq_iff)

lemma prune_step_keys:
  "keys_of (prune_step slots x d) =
    {k \<in> keys_of d. \<not> (x \<in> keys_of d \<and> k \<in> set slots \<and> x \<noteq> k \<and> can_derive x k)}"
  unfolding prune_step_get by (auto split: if_splits)

lemma prune_keys: "keys_of (fold (prune_step slots) xs d) \<subseteq> keys_of d"
proof (induction xs arbitrary: d)
  case (Cons x xs)
  then have "keys_of (fold (prune_step slots) (x # xs) d) \<subseteq> keys_of (prune_step slots x d)" by simp
  also have "\<dots> \<subseteq> keys_of d" unfolding prune_step_keys by blast
  finally show ?case .
qed simp

lemma prune_shrinks:
  "dict_get (fold (prune_step slots) xs d) k = Some v \<Longrightarrow> dict_get d k = Some v"
proof (induction xs arbitrary: d)
  case (Cons x xs)
  then have "dict_get (prune_step slots x d) k = Some v" by simp
  then show ?case by (simp add: prune_step_get split: if_splits)
qed simp

lemma prune_wf: "wf_dict d \<Longrightarrow> wf_dict (fold (prune_step slots) xs d)"
  by (induction xs arbitrary: d) (simp_all add: prune_step_def prune_from_wf)

lemma prune_separates:
  assumes "keys_of d \<subseteq> set slots" and "s1 \<in> set xs"
    and "s1 \<in> keys_of (fold (prune_step slots) xs d)" and "k \<in> keys_of (fold (prune_step slots) xs d)" and "s1 \<noteq> k"
  shows "\<not> can_derive s1 k"
  using assms
proof (induction xs rule: rev_induct)
  case (snoc x xs)
  let ?d = "fold (prune_step slots) xs d"
  have sub: "keys_of ?d \<subseteq> set slots"
    using snoc.prems(1) prune_keys by blast
  have "s1 \<in> keys_of (prune_step slots x ?d)" "k \<in> keys_of (prune_step slots x ?d)"
    using snoc.prems(3,4) by simp_all
  then have old: "s1 \<in> keys_of ?d" "k \<in> keys_of ?d"
    and kept: "x \<in> keys_of ?d \<Longrightarrow> k \<in> set slots \<Longrightarrow> x \<noteq> k \<Longrightarrow> \<not> can_derive x k"
    unfolding prune_step_keys by blast+
  show ?case
  proof (cases "s1 = x")
    case True
    with old kept sub snoc.prems(5) show ?thesis by blast
  next
    case False
    with snoc old show ?thesis by simp
  qed
qed simp

lemma prune_covers:
  assumes "\<And>k. k \<in> keys_of d \<Longrightarrow> in_tree k" and "k \<in> keys_of d"
  shows "\<exists>k' \<in> keys_of (fold (prune_step slots) xs d). can_derive k' k"
  using assms
proof (induction xs arbitrary: d k)
  case Nil
  then show ?case using can_derive_refl by (metis fold_simps(1))
next
  case (Cons x xs)
  let ?d = "prune_step slots x d"
  have tree: "in_tree j" if "j \<in> keys_of ?d" for j
    using that Cons.prems(1) [of j] unfolding prune_step_keys by blast
  obtain j where j: "j \<in> keys_of ?d" "can_derive j k"
  proof (cases "k \<in> keys_of ?d")
    case True
    then show ?thesis using that [of k] by simp
  next
    case False
    with Cons.prems(2) have "x \<in> keys_of d" "can_derive x k"
      unfolding prune_step_keys by blast+
    moreover then have "x \<in> keys_of ?d" unfolding prune_step_keys by blast
    ultimately show ?thesis using that by blast
  qed
  then obtain i where i: "i \<in> keys_of (fold (prune_step slots) xs ?d)" "can_derive i j"
    using Cons.IH [OF tree j(1)] by blast
  have "i \<in> keys_of ?d" using i(1) prune_keys by blast
  then have "can_derive i k"
    using can_derive_trans [OF tree tree [OF j(1)] Cons.prems(1) [OF Cons.prems(2)] i(2) j(2)] by blast
  with i(1) show ?case by auto
qed

section \<open>The receiver's invariant\<close>

text \<open>
  After the secrets of the indices \<open>A\<close> were added: every element is the seed's secret of its index,
  no element can derive another, and together they derive all of \<open>A\<close>.
\<close>

definition true_items :: "bytes \<Rightarrow> (int \<times> string) list \<Rightarrow> bool" where
  "true_items seed items \<longleftrightarrow> (\<forall>(k, h) \<in> set items. \<exists>p. derive_shachain_secret seed k = Inr p \<and> h = hexlify p)"

definition receiver_inv :: "bytes \<Rightarrow> int set \<Rightarrow> receiver \<Rightarrow> bool" where
  "receiver_inv seed A r \<longleftrightarrow>
     (\<forall>i \<in> A. in_tree i) \<and> wf_dict (elements r) \<and> true_items seed (elements r) \<and>
     keys_of (elements r) \<subseteq> A \<and>
     (\<forall>i \<in> A. \<exists>k \<in> keys_of (elements r). can_derive k i) \<and>
     (\<forall>k \<in> keys_of (elements r). \<forall>j \<in> keys_of (elements r). k \<noteq> j \<longrightarrow> \<not> can_derive k j)"

lemma receiver_tree: "receiver_inv seed A r \<Longrightarrow> k \<in> keys_of (elements r) \<Longrightarrow> in_tree k"
  unfolding receiver_inv_def by blast

lemma true_items_Cons:
  "true_items seed ((k, h) # items) \<longleftrightarrow>
    (\<exists>p. derive_shachain_secret seed k = Inr p \<and> h = hexlify p) \<and> true_items seed items"
  by (auto simp: true_items_def)

lemma true_items_tree: "true_items seed d \<Longrightarrow> k \<in> keys_of d \<Longrightarrow> in_tree k"
  by (auto simp: true_items_def dest!: map_of_SomeD dest: derive_secret_in_range)

lemma check_derivable_true:
  assumes "true_items seed items" and "in_tree i"
  shows "check_derivable items secret i =
    (if \<exists>k \<in> fst ` set items. can_derive k i
     then if derive_shachain_secret seed i = Inr secret then Inr True else Inl ValueError
     else Inr False)"
  using assms(1)
proof (induction items)
  case (Cons item items)
  obtain k h where item: "item = (k, h)" by (cases item)
  with Cons.prems obtain p where p: "derive_shachain_secret seed k = Inr p" "h = hexlify p"
    by (auto simp: true_items_Cons)
  show ?case
  proof (cases "can_derive k i")
    case True
    obtain q where "derive_shachain_secret seed i = Inr q"
      using derive_secret_ok derive_secret_in_range [OF p(1)] assms(2) by blast
    with derive_ancestor [OF p(1) assms(2) True] True p(2) item show ?thesis by simp
  next
    case False
    with Cons p item show ?thesis by (simp add: true_items_Cons)
  qed
qed simp

lemma find_secret_true:
  assumes "true_items seed items" and "in_tree i"
  shows "find_secret items i =
    (if \<exists>k \<in> fst ` set items. can_derive k i
     then rbind (derive_shachain_secret seed i) (\<lambda>p. Inr (Some p)) else Inr None)"
  using assms(1)
proof (induction items)
  case (Cons item items)
  obtain k h where item: "item = (k, h)" by (cases item)
  with Cons.prems obtain p where p: "derive_shachain_secret seed k = Inr p" "h = hexlify p"
    by (auto simp: true_items_Cons)
  show ?case
    using Cons p item derive_ancestor [OF p(1) assms(2)]
    by (cases "can_derive k i") (simp_all add: true_items_Cons)
qed simp

lemma get_secret_true:
  assumes "receiver_inv seed A r" and "in_tree i"
  shows "get_secret r i =
    (if \<exists>k \<in> keys_of (elements r). can_derive k i
     then rbind (derive_shachain_secret seed i) (\<lambda>p. Inr (Some p)) else Inr None)"
proof (cases "dict_get (elements r) i")
  case None
  have "keys_of (elements r) = fst ` set (elements r)" by (rule dom_map_of_conv_image_fst)
  with None find_secret_true [OF _ assms(2)] assms(1) show ?thesis
    by (simp add: get_secret_def receiver_inv_def)
next
  case (Some h)
  then have "(i, h) \<in> set (elements r)" by (rule dict_get_SomeD)
  with assms(1) obtain p where "derive_shachain_secret seed i = Inr p" "h = hexlify p"
    by (auto simp: receiver_inv_def true_items_def)
  moreover have "\<exists>k \<in> keys_of (elements r). can_derive k i"
    using Some can_derive_refl by blast
  ultimately show ?thesis using Some by (simp add: get_secret_def)
qed

lemma true_items_prune:
  assumes "wf_dict d" and "true_items seed d"
  shows "true_items seed (prune d)"
  unfolding true_items_def
proof (intro ballI, clarify)
  fix k h assume "(k, h) \<in> set (prune d)"
  then have "dict_get (prune d) k = Some h"
    using dict_get_iff [OF prune_wf [OF assms(1)]] by (simp add: prune_eq)
  then have "dict_get d k = Some h" unfolding prune_eq by (rule prune_shrinks)
  then have "(k, h) \<in> set d" by (rule dict_get_SomeD)
  with assms(2) show "\<exists>p. derive_shachain_secret seed k = Inr p \<and> h = hexlify p"
    by (auto simp: true_items_def)
qed

lemma add_secret_inv:
  assumes inv: "receiver_inv seed A r" and p: "derive_shachain_secret seed i = Inr p"
  shows "\<exists>r'. add_secret p i r = Inr r' \<and> receiver_inv seed (insert i A) r'"
proof -
  have i: "in_tree i" "length p = 32"
    using p derive_secret_in_range derive_secret_ok by fastforce+
  have items: "true_items seed (elements r)" "wf_dict (elements r)"
    using inv by (simp_all add: receiver_inv_def)
  have keys: "keys_of (elements r) = fst ` set (elements r)" by (rule dom_map_of_conv_image_fst)
  show ?thesis
  proof (cases "\<exists>k \<in> keys_of (elements r). can_derive k i")
    case True
    then have "add_secret p i r = Inr r"
      using check_derivable_true [OF items(1) i(1)] p i(2) keys by (simp add: add_secret_def)
    with True inv i(1) show ?thesis by (auto simp: receiver_inv_def)
  next
    case False
    define d where "d = dict_set i (hexlify p) (elements r)"
    have add: "add_secret p i r = Inr (r\<lparr>elements := prune d, last_index := i\<rparr>)"
      using False check_derivable_true [OF items(1) i(1)] i(2) keys by (simp add: add_secret_def d_def)
    have d: "wf_dict d" "true_items seed d" "keys_of d = insert i (keys_of (elements r))"
      using items p set_dict_set [of i "hexlify p" "elements r"]
      by (auto simp: d_def true_items_def wf_dict_set)
    have slots: "keys_of d \<subseteq> set (sort (dict_keys d))"
      using dom_map_of_conv_image_fst [of d] by (simp add: dict_keys_def)
    have A: "in_tree j" if "j \<in> insert i A" for j
      using that i(1) inv by (auto simp: receiver_inv_def)
    have d_tree: "in_tree k" if "k \<in> keys_of d" for k
      using true_items_tree [OF d(2) that] .
    have covers: "\<exists>k \<in> keys_of (prune d). can_derive k j" if j: "j \<in> insert i A" for j
    proof -
      have "\<exists>k \<in> keys_of d. can_derive k j"
        using j inv d(3) can_derive_refl [of i] by (auto simp: receiver_inv_def)
      then obtain k where k: "k \<in> keys_of d" "can_derive k j" by blast
      obtain k' where k': "k' \<in> keys_of (prune d)" "can_derive k' k"
        using prune_covers [OF d_tree k(1)] unfolding prune_eq by blast
      have "k' \<in> keys_of d" using k'(1) prune_keys unfolding prune_eq by blast
      with k k' have "can_derive k' j"
        using can_derive_trans [OF d_tree d_tree A [OF j]] by blast
      with k'(1) show ?thesis by blast
    qed
    have separate: "\<not> can_derive k j" if "k \<in> keys_of (prune d)" "j \<in> keys_of (prune d)" "k \<noteq> j" for k j
    proof -
      have "k \<in> set (sort (dict_keys d))"
        using that(1) slots prune_keys unfolding prune_eq by blast
      from prune_separates [OF slots this] that show ?thesis unfolding prune_eq by blast
    qed
    have "keys_of (prune d) \<subseteq> insert i A"
      using prune_keys d(3) inv unfolding prune_eq receiver_inv_def by blast
    then have "receiver_inv seed (insert i A) (r\<lparr>elements := prune d, last_index := i\<rparr>)"
      using A covers separate true_items_prune [OF d(1,2)] prune_wf [OF d(1)]
      unfolding receiver_inv_def by (simp add: prune_eq)
    with add show ?thesis by blast
  qed
qed

section \<open>What the receiver promises\<close>

text \<open>Revealing the seed's secrets of a list of indices, in any order.\<close>

definition reveal :: "bytes \<Rightarrow> int \<Rightarrow> receiver \<Rightarrow> receiver res" where
  "reveal seed i r = rbind (generator_secret seed i) (\<lambda>p. add_secret p i r)"

lemma reveal_inv:
  assumes "length seed = 32" and "receiver_inv seed A r" and "\<forall>i \<in> set is. in_tree i"
  shows "\<exists>r'. fold_res (reveal seed) is r = Inr r' \<and> receiver_inv seed (A \<union> set is) r'"
  using assms(2,3)
proof (induction "is" arbitrary: A r)
  case (Cons i "is")
  obtain p where p: "derive_shachain_secret seed i = Inr p"
    using derive_secret_ok [OF assms(1)] Cons.prems(2) by auto
  then obtain r1 where "reveal seed i r = Inr r1" "receiver_inv seed (insert i A) r1"
    using add_secret_inv [OF Cons.prems(1)] by (auto simp: reveal_def generator_secret_def)
  with Cons.IH [of "insert i A" r1] Cons.prems(2) show ?case by auto
qed simp

lemma empty_receiver_inv: "receiver_inv seed {} empty_receiver"
  by (simp add: receiver_inv_def empty_receiver_def true_items_def)

lemmas reveal_all = reveal_inv [OF _ empty_receiver_inv, simplified]

text \<open>Property C18: a receiver given the generator's secrets for any indices in any order accepts all of
  them, returns each of them again, and never returns for any index anything but the generator's secret.\<close>

theorem receiver_returns_revealed_secrets:
  assumes "length seed = 32" and "\<forall>i \<in> set is. 0 \<le> i \<and> i < 2 ^ 48"
  shows "\<exists>r. fold_res (reveal seed) is empty_receiver = Inr r \<and>
    (\<forall>i \<in> set is. get_secret r i = rbind (generator_secret seed i) (\<lambda>p. Inr (Some p))) \<and>
    (\<forall>i p. 0 \<le> i \<and> i < 2 ^ 48 \<and> get_secret r i = Inr (Some p) \<longrightarrow> generator_secret seed i = Inr p)"
proof -
  have tree: "\<forall>i \<in> set is. in_tree i" using assms(2) by (simp add: in_tree_def)
  obtain r where r: "fold_res (reveal seed) is empty_receiver = Inr r" "receiver_inv seed (set is) r"
    using reveal_all [OF assms(1) tree] by blast
  have "get_secret r i = rbind (generator_secret seed i) (\<lambda>p. Inr (Some p))" if "i \<in> set is" for i
    using get_secret_true [OF r(2)] tree r(2) that by (simp add: receiver_inv_def generator_secret_def)
  moreover have "generator_secret seed i = Inr p" if "in_tree i" "get_secret r i = Inr (Some p)" for i p
    using get_secret_true [OF r(2) that(1)] that(2)
    by (cases "derive_shachain_secret seed i") (simp_all add: generator_secret_def split: if_splits)
  ultimately show ?thesis using r(1) by (auto simp: in_tree_def)
qed

text \<open>Once an ancestor of an index has been revealed, a secret for that index other than the
  generator's is refused.\<close>

theorem receiver_refuses_tampered_secret:
  assumes "length seed = 32" and "\<forall>i \<in> set is. 0 \<le> i \<and> i < 2 ^ 48"
    and "fold_res (reveal seed) is empty_receiver = Inr r"
    and "a \<in> set is" and "can_derive a i" and "0 \<le> i" and "i < 2 ^ 48"
    and "generator_secret seed i \<noteq> Inr p"
  shows "add_secret p i r = Inl ValueError"
proof -
  have tree: "\<forall>i \<in> set is. in_tree i" "in_tree i" using assms(2,6,7) by (simp_all add: in_tree_def)
  have inv: "receiver_inv seed (set is) r"
    using reveal_all [OF assms(1) tree(1)] assms(3) by auto
  then obtain k where k: "k \<in> keys_of (elements r)" "can_derive k a"
    using assms(4) unfolding receiver_inv_def by blast
  have "in_tree k" using receiver_tree [OF inv k(1)] .
  with k(2) assms(4,5) tree have "can_derive k i"
    using can_derive_trans by blast
  moreover have "keys_of (elements r) = fst ` set (elements r)" by (rule dom_map_of_conv_image_fst)
  ultimately have "\<exists>k \<in> fst ` set (elements r). can_derive k i" using k(1) by blast
  moreover have "true_items seed (elements r)" using inv by (simp add: receiver_inv_def)
  ultimately have "check_derivable (elements r) p i = Inl ValueError"
    using assms(8) by (simp add: check_derivable_true [OF _ tree(2)] generator_secret_def del: image_iff bex_simps)
  then show ?thesis by (simp add: add_secret_def)
qed

section \<open>How much is stored\<close>

text \<open>
  If everything from some index up was revealed, two elements never have the same number of trailing zeros:
  the aligned block just below the larger one contains it, and lies among what was revealed.
\<close>

lemma same_zeros_derivable:
  assumes inv: "receiver_inv seed {m..<2 ^ 48} r" and "0 \<le> m"
    and a: "a \<in> keys_of (elements r)" and b: "b \<in> keys_of (elements r)" and "a < b" and "a \<noteq> 0"
  shows "trailing_zeros a \<noteq> trailing_zeros b"
proof
  assume same: "trailing_zeros a = trailing_zeros b"
  define z where "z = trailing_zeros b"
  have tree: "in_tree a" "in_tree b"
    using receiver_tree [OF inv] a b by blast+
  have "b \<noteq> 0" using \<open>a < b\<close> tree by (auto simp: in_tree_def)
  obtain x where x: "odd x" "a = 2 ^ z * x"
    using split_trailing [OF \<open>a \<noteq> 0\<close>] same by (metis z_def)
  obtain y where y: "odd y" "b = 2 ^ z * y"
    using split_trailing [OF \<open>b \<noteq> 0\<close>] by (metis z_def)
  have w: "(0 :: int) < 2 ^ z" by simp
  have "x < y" using \<open>a < b\<close> x(2) y(2) w by simp
  define c where "c = 2 ^ z * (y - 1)"
  have "x \<le> y - 1" "x \<noteq> y - 1" using \<open>x < y\<close> x(1) y(1) by auto
  then have c: "a < c" "c < b" using x(2) y(2) w by (simp_all add: c_def)
  have c_tree: "in_tree c" using c tree by (simp add: in_tree_def)
  have "2 ^ Suc z dvd c"
    using y(1) by (simp add: c_def mult.commute)
  then have tz: "Suc z \<le> trailing_zeros c"
    using c c_tree tree by (intro tz_greatest) (auto simp: in_tree_def)
  then have "(2 :: int) ^ Suc z \<le> 2 ^ trailing_zeros c" by (intro power_increasing) simp_all
  moreover have "b = c + 2 ^ z" by (simp add: c_def y(2) algebra_simps)
  ultimately have "can_derive c b"
    using tz c(2) w can_derive_interval [OF c_tree tree(2)] by simp
  moreover have "c \<in> {m..<2 ^ 48}"
    using c c_tree inv a by (auto simp: receiver_inv_def in_tree_def)
  then obtain k where k: "k \<in> keys_of (elements r)" "can_derive k c"
    using inv unfolding receiver_inv_def by blast
  moreover have k_tree: "in_tree k"
    using receiver_tree [OF inv k(1)] .
  ultimately have "can_derive k b" using can_derive_trans c_tree tree(2) by blast
  moreover have "k \<noteq> b"
    using can_derive_interval [OF k_tree c_tree] k(2) c(2) by auto
  ultimately show False using inv k(1) b unfolding receiver_inv_def by blast
qed

lemma stored_at_most_48:
  assumes inv: "receiver_inv seed {m..<2 ^ 48} r" and "0 \<le> m"
  shows "length (elements r) \<le> 48"
proof -
  let ?K = "keys_of (elements r)"
  have "length (elements r) = card (set (map fst (elements r)))"
    using inv by (metis receiver_inv_def wf_dict_def distinct_card length_map)
  then have len: "length (elements r) = card ?K"
    by (simp add: dom_map_of_conv_image_fst)
  have tree: "in_tree k" if "k \<in> ?K" for k
    using receiver_tree [OF inv that] .
  show ?thesis
  proof (cases "0 \<in> ?K")
    case True
    have "can_derive 0 k" if "k \<in> ?K" for k
      using that tree can_derive_interval [of 0 k] by (simp add: in_tree_def trailing_zeros_def)
    moreover have "\<not> can_derive 0 k" if "k \<in> ?K" "k \<noteq> 0" for k
      using True that inv unfolding receiver_inv_def by metis
    ultimately have "?K = {0}" using True by blast
    with len show ?thesis by simp
  next
    case False
    have "inj_on trailing_zeros ?K"
    proof (rule inj_onI)
      fix a b assume "a \<in> ?K" "b \<in> ?K" "trailing_zeros a = trailing_zeros b"
      then show "a = b"
        using same_zeros_derivable [OF assms] False by (metis linorder_neqE)
    qed
    moreover have "trailing_zeros ` ?K \<subseteq> {..<48}"
      using False tree trailing_zeros_bound by (metis image_subsetI lessThan_iff)
    ultimately have "card ?K \<le> card {..<48 :: nat}"
      by (intro card_inj_on_le) simp_all
    with len show ?thesis by simp
  qed
qed

text \<open>Property C19: in the order BOLT 3 prescribes, commitment by commitment from the highest index down, the
  receiver never stores more than 48 elements.\<close>

theorem receiver_stores_at_most_48:
  assumes "length seed = 32" and "n \<le> 2 ^ 48"
    and "fold_res (reveal seed) (map (\<lambda>c. 2 ^ 48 - 1 - int c) [0..<n]) empty_receiver = Inr r"
  shows "length (elements r) \<le> 48"
proof -
  let ?is = "map (\<lambda>c. 2 ^ 48 - 1 - int c) [0..<n]"
  have n: "int n \<le> 2 ^ 48" using assms(2) by simp
  have "set ?is = {2 ^ 48 - int n..<2 ^ 48}"
  proof (intro equalityI subsetI)
    fix i :: int assume i: "i \<in> {2 ^ 48 - int n..<2 ^ 48}"
    then have "i = 2 ^ 48 - 1 - int (nat (2 ^ 48 - 1 - i))" "nat (2 ^ 48 - 1 - i) < n" by auto
    then show "i \<in> set ?is" by (metis (no_types, lifting) atLeastLessThan_iff image_eqI le0 set_map set_upt)
  qed auto
  moreover have "\<forall>i \<in> set ?is. in_tree i" using n by (auto simp: in_tree_def)
  ultimately have "receiver_inv seed {2 ^ 48 - int n..<2 ^ 48} r"
    using reveal_all [OF assms(1)] assms(3) by (metis sum.inject(2))
  then show ?thesis by (rule stored_at_most_48) (use n in simp)
qed

section \<open>Witnesses\<close>

definition sample_seed :: bytes where
  "sample_seed = replicate 32 7"

lemma length_sample_seed [simp]: "length sample_seed = 32"
  by (simp add: sample_seed_def)

theorem ancestor_derivation_agrees_witness:
  "\<exists>p. derive_shachain_secret sample_seed 4 = Inr p \<and>
    derive_from_ancestor p 4 6 = derive_shachain_secret sample_seed 6"
proof -
  obtain p where p: "derive_shachain_secret sample_seed 4 = Inr p"
    using derive_secret_ok [of sample_seed 4] by (auto simp: in_tree_def)
  moreover have "can_derive 4 6" by code_simp
  ultimately show ?thesis using ancestor_derivation_agrees [OF p, of 6] by auto
qed

theorem receiver_returns_revealed_secrets_witness:
  "\<exists>r. fold_res (reveal sample_seed) [5, 4, 8] empty_receiver = Inr r \<and>
    get_secret r 5 = rbind (generator_secret sample_seed 5) (\<lambda>p. Inr (Some p))"
  using receiver_returns_revealed_secrets [of sample_seed "[5, 4, 8]"] by auto

theorem receiver_refuses_tampered_secret_witness:
  "\<exists>r p. fold_res (reveal sample_seed) [4] empty_receiver = Inr r \<and>
    length p = 32 \<and> add_secret p 6 r = Inl ValueError"
proof -
  obtain r where r: "fold_res (reveal sample_seed) [4] empty_receiver = Inr r"
    using reveal_all [of sample_seed "[4]"] by (auto simp: in_tree_def)
  have "can_derive 4 6" by code_simp
  moreover obtain p where p: "length p = 32" "generator_secret sample_seed 6 \<noteq> Inr p"
  proof (cases "generator_secret sample_seed 6 = Inr (replicate 32 0)")
    case True
    have "replicate 32 0 \<noteq> replicate 32 (1 :: byte)" by simp
    with True that [of "replicate 32 1"] show ?thesis by (metis length_replicate sum.inject(2))
  next
    case False
    then show ?thesis using that [of "replicate 32 0"] by simp
  qed
  ultimately have "add_secret p 6 r = Inl ValueError"
    by (intro receiver_refuses_tampered_secret [OF _ _ r, where a = 4]) simp_all
  with r p show ?thesis by blast
qed

theorem receiver_stores_at_most_48_witness:
  "\<exists>r. fold_res (reveal sample_seed) (map (\<lambda>c. 2 ^ 48 - 1 - int c) [0..<3]) empty_receiver = Inr r \<and>
    length (elements r) \<le> 48"
proof -
  obtain r where r: "fold_res (reveal sample_seed) (map (\<lambda>c. 2 ^ 48 - 1 - int c) [0..<3]) empty_receiver = Inr r"
    using reveal_all [of sample_seed "map (\<lambda>c. 2 ^ 48 - 1 - int c) [0..<3]"] by (auto simp: in_tree_def)
  then show ?thesis using receiver_stores_at_most_48 [of sample_seed 3 r] by auto
qed

end
