(* ===== verification/Routing.thy ===== *)
theory Routing
  imports Channel
begin

text \<open>
  \<open>network/routing.py\<close>: the network graph and the route search.  Channels are shared objects: the graph
  holds references (positions in a heap of channels), so that both directions of an edge and the nodes see the
  same balances.  \<open>heapq\<close> pops a least entry of a total order, which is what the head of a sorted list is
  (\<open>insort\<close>); the locale \<open>priority_queue\<close> states what the search uses of it.
\<close>

section \<open>Graph\<close>

type_synonym chan_heap = "channel list"

type_synonym adjacency = "(string, (string, nat) pydict) pydict"

definition adj_of :: "adjacency \<Rightarrow> string \<Rightarrow> (string, nat) pydict" where
  "adj_of adj u = (case dict_get adj u of None \<Rightarrow> [] | Some d \<Rightarrow> d)"

definition ensure_node :: "string \<Rightarrow> adjacency \<Rightarrow> adjacency" where
  "ensure_node u adj = (if dict_get adj u = None then dict_set u [] adj else adj)"

definition set_edge :: "string \<Rightarrow> string \<Rightarrow> nat \<Rightarrow> adjacency \<Rightarrow> adjacency" where
  "set_edge u v ref adj = dict_set u (dict_set v ref (adj_of adj u)) adj"

definition add_channel :: "chan_heap \<Rightarrow> nat \<Rightarrow> adjacency \<Rightarrow> adjacency" where
  "add_channel heap ref adj =
     (let c = heap ! ref;
          adj = ensure_node (receiver_alias c) (ensure_node (sender_alias c) adj)
      in set_edge (receiver_alias c) (sender_alias c) ref
           (set_edge (sender_alias c) (receiver_alias c) ref adj))"

definition get_capacity :: "chan_heap \<Rightarrow> adjacency \<Rightarrow> string \<Rightarrow> string \<Rightarrow> int" where
  "get_capacity heap adj u v =
     (case dict_get (adj_of adj u) v of
        None \<Rightarrow> 0
      | Some ref \<Rightarrow>
          if sender_alias (heap ! ref) = u then balance_sender_sat (heap ! ref)
          else balance_receiver_sat (heap ! ref))"

section \<open>Routes\<close>

definition calculate_routing_fee :: "int \<Rightarrow> int \<Rightarrow> int \<Rightarrow> int" where
  "calculate_routing_fee amount base ppm =
     calculate_fee \<lparr>base_fee_sat = base, fee_rate_ppm = ppm\<rparr> amount"

record route_hop =
  hop_sender :: string
  hop_receiver :: string
  hop_amount :: int
  hop_fee :: int
  hop_locktime :: int

record payment_route =
  hops :: "route_hop list"
  total_amount_sat :: int
  total_fee_sat :: int

fun route_path :: "route_hop list \<Rightarrow> string list" where
  "route_path [] = []"
| "route_path (h # hs) = hop_sender h # map hop_receiver (h # hs)"

text \<open>The arguments of one search.\<close>

record route_query =
  rq_source :: string
  rq_target :: string
  rq_amount :: int
  rq_base_locktime :: int
  rq_cltv_delta :: int
  rq_base_fee :: int
  rq_fee_ppm :: int

text \<open>
  The backward loop over a found path, from its last edge (the path is given reversed): \<open>None\<close> when an edge
  lacks capacity for amount and fee.
\<close>

fun build_hops ::
    "chan_heap \<Rightarrow> adjacency \<Rightarrow> route_query \<Rightarrow> string list \<Rightarrow> int \<Rightarrow> int \<Rightarrow> int \<Rightarrow> route_hop list \<Rightarrow> payment_route option"
where
  "build_hops heap adj q (v # u # rest) current_amount current_locktime total_fee hs =
     (let fee = (if v \<noteq> rq_target q
                 then calculate_routing_fee current_amount (rq_base_fee q) (rq_fee_ppm q) else 0);
          total_fee = total_fee + fee;
          amount = current_amount + fee
      in if get_capacity heap adj u v < amount then None
         else build_hops heap adj q (u # rest) amount (current_locktime + rq_cltv_delta q) total_fee
           (\<lparr>hop_sender = u, hop_receiver = v, hop_amount = amount, hop_fee = fee,
             hop_locktime = current_locktime\<rparr> # hs))"
| "build_hops heap adj q _ current_amount current_locktime total_fee hs =
     Some \<lparr>hops = hs, total_amount_sat = current_amount, total_fee_sat = total_fee\<rparr>"

section \<open>The search\<close>

type_synonym entry = "nat \<times> string \<times> string list"

text \<open>\<open>heappush\<close>, and the pushes for the neighbours of a node.\<close>

definition heappush :: "entry list \<Rightarrow> entry \<Rightarrow> entry list" where
  "heappush queue e = insort e queue"

definition push_neighbors ::
    "chan_heap \<Rightarrow> adjacency \<Rightarrow> route_query \<Rightarrow> nat \<Rightarrow> string \<Rightarrow> string list \<Rightarrow> entry list \<Rightarrow> entry list" where
  "push_neighbors heap adj q cost current path queue =
     fold (\<lambda>neighbor queue.
         if neighbor \<notin> set path \<and> rq_amount q \<le> get_capacity heap adj current neighbor
         then heappush queue (cost + 1, neighbor, path @ [neighbor]) else queue)
       (dict_keys (adj_of adj current)) queue"

lemma length_push_neighbors_absent: "dict_get adj u = None \<Longrightarrow> push_neighbors heap adj q c u p queue = queue"
  by (simp add: push_neighbors_def adj_of_def dict_keys_def)

text \<open>
  The \<open>while\<close> loop.  Every turn either expands a node of the graph not yet visited, or shortens the
  queue.
\<close>

function search ::
    "chan_heap \<Rightarrow> adjacency \<Rightarrow> route_query \<Rightarrow> entry list \<Rightarrow> string list \<Rightarrow> payment_route res" where
  "search heap adj q [] visited = Inl RouteNotFoundError"
| "search heap adj q ((cost, current, path) # queue) visited =
     (if current = rq_target q then
        (case build_hops heap adj q (rev path) (rq_amount q) (rq_base_locktime q) 0 [] of
           Some route \<Rightarrow> Inr route
         | None \<Rightarrow> search heap adj q queue visited)
      else if current \<in> set visited then search heap adj q queue visited
      else search heap adj q (push_neighbors heap adj q cost current path queue) (current # visited))"
  by pat_completeness auto
termination
proof (relation "measures
    [\<lambda>(heap, adj, q, queue, visited). card (set (dict_keys adj) - set visited),
     \<lambda>(heap, adj, q, queue, visited). length queue]", goal_cases)
  case (4 heap adj q cost current path queue visited)
  show ?case
  proof (cases "dict_get adj current")
    case None
    then have "set (dict_keys adj) - set (current # visited) = set (dict_keys adj) - set visited"
      by (auto simp: dict_get_None)
    with None show ?thesis by (simp add: length_push_neighbors_absent)
  next
    case (Some d)
    then have "current \<in> set (dict_keys adj)" by (metis dict_get_None option.distinct(1))
    then have "card (set (dict_keys adj) - set (current # visited)) < card (set (dict_keys adj) - set visited)"
      using 4 by (intro psubset_card_mono) auto
    then show ?thesis by simp
  qed
qed simp_all

definition find_route :: "chan_heap \<Rightarrow> adjacency \<Rightarrow> route_query \<Rightarrow> payment_route res" where
  "find_route heap adj q =
     (if dict_get adj (rq_source q) = None \<or> dict_get adj (rq_target q) = None
      then Inl RouteNotFoundError
      else search heap adj q [(0, rq_source q, [rq_source q])] [])"

text \<open>\<open>NetworkGraph.find_path\<close>, with the default strategy.\<close>

definition find_path :: "chan_heap \<Rightarrow> adjacency \<Rightarrow> route_query \<Rightarrow> payment_route res" where
  "find_path heap adj q = find_route heap adj q"

section \<open>The priority queue\<close>

locale priority_queue =
  fixes push :: "'q \<Rightarrow> 'e :: linorder \<Rightarrow> 'q" and entries :: "'q \<Rightarrow> 'e list"
  assumes entries_push: "set (entries (push queue e)) = insert e (set (entries queue))"
    and sorted_push: "sorted (entries queue) \<Longrightarrow> sorted (entries (push queue e))"
begin

lemma entries_push_all:
  "set (entries (fold (\<lambda>x queue. if P x then push queue (f x) else queue) xs queue)) =
    set (entries queue) \<union> f ` {x \<in> set xs. P x}"
  by (induction xs arbitrary: queue) (auto simp: entries_push)

lemma sorted_push_all:
  "sorted (entries queue) \<Longrightarrow> sorted (entries (fold (\<lambda>x queue. if P x then push queue (f x) else queue) xs queue))"
  by (induction xs arbitrary: queue) (auto simp: sorted_push)

text \<open>The popped entry is least.\<close>

lemma popped_least: "sorted (entries queue) \<Longrightarrow> entries queue = e # es \<Longrightarrow> x \<in> set es \<Longrightarrow> e \<le> x"
  by simp

end

interpretation hq: priority_queue heappush "\<lambda>queue. queue"
  by unfold_locales (simp_all add: heappush_def set_insort_key sorted_insort)

section \<open>What a route is\<close>

fun hops_ok :: "chan_heap \<Rightarrow> adjacency \<Rightarrow> route_query \<Rightarrow> route_hop list \<Rightarrow> bool" where
  "hops_ok heap adj q [] = True"
| "hops_ok heap adj q [h] =
     (hop_receiver h = rq_target q \<and> hop_fee h = 0 \<and> hop_amount h = rq_amount q \<and>
      hop_locktime h = rq_base_locktime q \<and>
      hop_amount h \<le> get_capacity heap adj (hop_sender h) (hop_receiver h))"
| "hops_ok heap adj q (h # h' # hs) =
     (hop_receiver h = hop_sender h' \<and>
      hop_fee h = calculate_routing_fee (hop_amount h') (rq_base_fee q) (rq_fee_ppm q) \<and>
      hop_amount h = hop_amount h' + hop_fee h \<and>
      hop_locktime h = hop_locktime h' + rq_cltv_delta q \<and>
      hop_amount h \<le> get_capacity heap adj (hop_sender h) (hop_receiver h) \<and>
      hops_ok heap adj q (h' # hs))"

definition first_amount :: "route_query \<Rightarrow> route_hop list \<Rightarrow> int" where
  "first_amount q hs = (case hs of [] \<Rightarrow> rq_amount q | h # _ \<Rightarrow> hop_amount h)"

definition next_locktime :: "route_query \<Rightarrow> route_hop list \<Rightarrow> int" where
  "next_locktime q hs =
     (case hs of [] \<Rightarrow> rq_base_locktime q | h # _ \<Rightarrow> hop_locktime h + rq_cltv_delta q)"

lemma route_path_last: "hops_ok heap adj q hs \<Longrightarrow> hs \<noteq> [] \<Longrightarrow> last (route_path hs) = rq_target q"
  by (induction heap adj q hs rule: hops_ok.induct) auto

lemma build_hops_ok:
  assumes "build_hops heap adj q (x # rest) (first_amount q hs) (next_locktime q hs) (sum_list (map hop_fee hs)) hs = Some r"
    and "hops_ok heap adj q hs" and "if hs = [] then x = rq_target q else x = hop_sender (hd hs) \<and> x \<noteq> rq_target q"
    and "rq_target q \<notin> set rest"
  shows "hops_ok heap adj q (hops r) \<and>
    (if hops r = [] then rest = [] \<and> hs = [] else route_path (hops r) = rev rest @ (x # tl (route_path hs))) \<and>
    total_amount_sat r = first_amount q (hops r) \<and> total_fee_sat r = sum_list (map hop_fee (hops r))"
  using assms
proof (induction rest arbitrary: x hs)
  case Nil
  then show ?case by (cases hs) (auto simp: first_amount_def)
next
  case (Cons u rest)
  define fee where "fee = (if x \<noteq> rq_target q
      then calculate_routing_fee (first_amount q hs) (rq_base_fee q) (rq_fee_ppm q) else 0)"
  define h where "h = \<lparr>hop_sender = u, hop_receiver = x, hop_amount = first_amount q hs + fee,
      hop_fee = fee, hop_locktime = next_locktime q hs\<rparr>"
  have cap: "hop_amount h \<le> get_capacity heap adj u x"
    and rec: "build_hops heap adj q (u # rest) (first_amount q (h # hs)) (next_locktime q (h # hs))
        (sum_list (map hop_fee (h # hs))) (h # hs) = Some r"
    using Cons.prems(1)
    by (auto simp: Let_def h_def fee_def first_amount_def [of _ "_ # _"] next_locktime_def [of _ "_ # _"]
        add.commute split: if_splits)
  have "hops_ok heap adj q (h # hs)"
    using Cons.prems(2,3) cap
    by (cases hs) (auto simp: h_def fee_def first_amount_def next_locktime_def split: if_splits)
  from Cons.IH [OF rec this] Cons.prems(4) show ?case
    by (cases hs) (auto simp: h_def split: if_splits)
qed

section \<open>Every route returned is a valid one\<close>

definition edge_ok :: "chan_heap \<Rightarrow> adjacency \<Rightarrow> route_query \<Rightarrow> string \<Rightarrow> string \<Rightarrow> bool" where
  "edge_ok heap adj q u v \<longleftrightarrow> v \<in> set (dict_keys (adj_of adj u)) \<and> rq_amount q \<le> get_capacity heap adj u v"

definition entry_ok :: "chan_heap \<Rightarrow> adjacency \<Rightarrow> route_query \<Rightarrow> entry \<Rightarrow> bool" where
  "entry_ok heap adj q e =
     (case e of (cost, current, path) \<Rightarrow>
        path \<noteq> [] \<and> hd path = rq_source q \<and> last path = current \<and> distinct path \<and>
        length path = cost + 1 \<and> successively (edge_ok heap adj q) path)"

lemma set_push_neighbors:
  "set (push_neighbors heap adj q cost u path queue) =
    set queue \<union> (\<lambda>v. (cost + 1, v, path @ [v])) ` {v. edge_ok heap adj q u v \<and> v \<notin> set path}"
  by (auto simp: push_neighbors_def hq.entries_push_all edge_ok_def)

lemma entry_ok_push:
  assumes "entry_ok heap adj q (cost, u, path)" and "\<forall>e \<in> set queue. entry_ok heap adj q e"
  shows "\<forall>e \<in> set (push_neighbors heap adj q cost u path queue). entry_ok heap adj q e"
  using assms by (auto simp: set_push_neighbors entry_ok_def successively_append_iff)

lemma search_sound:
  assumes "search heap adj q queue visited = Inr r" and "\<forall>e \<in> set queue. entry_ok heap adj q e"
  shows "\<exists>cost path. entry_ok heap adj q (cost, rq_target q, path) \<and>
    build_hops heap adj q (rev path) (rq_amount q) (rq_base_locktime q) 0 [] = Some r"
  using assms
proof (induction heap adj q queue visited rule: search.induct)
  case (1 heap adj q visited)
  then show ?case by simp
next
  case (2 heap adj q cost current path queue visited)
  show ?case
  proof (cases "current = rq_target q")
    case True
    with 2 show ?thesis
      by (cases "build_hops heap adj q (rev path) (rq_amount q) (rq_base_locktime q) 0 []") auto
  next
    case False
    with 2 entry_ok_push [of heap adj q cost current path queue] show ?thesis
      by (auto split: if_splits)
  qed
qed

text \<open>
  Breadth-first order.  \<open>D\<close> is the cost at which each visited node was popped: it is at most every cost
  still queued, and every usable edge out of a visited node leads to a visited or queued one at most one step further.
\<close>

definition frontier_ok :: "chan_heap \<Rightarrow> adjacency \<Rightarrow> route_query \<Rightarrow> entry list \<Rightarrow> string list \<Rightarrow> (string \<Rightarrow> nat) \<Rightarrow> bool" where
  "frontier_ok heap adj q queue visited D \<longleftrightarrow>
     sorted queue \<and> rq_target q \<notin> set visited \<and>
     (\<forall>e \<in> set queue. entry_ok heap adj q e \<and> set (butlast (snd (snd e))) \<subseteq> set visited) \<and>
     (\<forall>u \<in> set visited. \<forall>e \<in> set queue. D u \<le> fst e) \<and>
     (\<forall>u v. u \<in> set visited \<longrightarrow> edge_ok heap adj q u v \<longrightarrow>
        v \<in> set visited \<and> D v \<le> D u + 1 \<or> (\<exists>c p. (c, v, p) \<in> set queue \<and> c \<le> D u + 1)) \<and>
     (rq_source q \<in> set visited \<and> D (rq_source q) = 0 \<or> (\<exists>p. (0, rq_source q, p) \<in> set queue))"

lemma frontier_edge:
  assumes "frontier_ok heap adj q queue visited D" and "u \<in> set visited" and "edge_ok heap adj q u v"
  shows "v \<in> set visited \<and> D v \<le> D u + 1 \<or> (\<exists>c p. (c, v, p) \<in> set queue \<and> c \<le> D u + 1)"
  using assms unfolding frontier_ok_def by blast

lemma frontier_skip:
  assumes "frontier_ok heap adj q ((cost, u, path) # queue) visited D" and "u \<in> set visited"
  shows "frontier_ok heap adj q queue visited D"
proof -
  have "D u \<le> cost" using assms by (auto simp: frontier_ok_def)
  then have old: "v \<in> set visited \<and> D v \<le> D w + 1 \<or> (\<exists>c p. (c, v, p) \<in> set queue \<and> c \<le> D w + 1)"
    if w: "w \<in> set visited" and edge: "edge_ok heap adj q w v" for w v
  proof -
    from frontier_edge [OF assms(1) w edge] show ?thesis
      using assms(2) \<open>D u \<le> cost\<close> by auto
  qed
  have src: "rq_source q \<in> set visited \<and> D (rq_source q) = 0 \<or> (\<exists>p. (0, rq_source q, p) \<in> set queue)"
    using assms \<open>D u \<le> cost\<close> by (auto simp: frontier_ok_def)
  show ?thesis
    using assms(1) old src unfolding frontier_ok_def by simp
qed

lemma sorted_push_neighbors: "sorted queue \<Longrightarrow> sorted (push_neighbors heap adj q cost u path queue)"
  by (simp add: push_neighbors_def hq.sorted_push_all)

lemma frontier_expand:
  assumes inv: "frontier_ok heap adj q ((cost, u, path) # queue) visited D"
    and new: "u \<notin> set visited" "u \<noteq> rq_target q"
  shows "frontier_ok heap adj q (push_neighbors heap adj q cost u path queue) (u # visited) (D(u := cost))"
proof -
  let ?queue = "push_neighbors heap adj q cost u path queue"
  have least: "\<forall>e \<in> set queue. cost \<le> fst e"
    using inv by (auto simp: frontier_ok_def less_eq_prod_def)
  have seen: "\<forall>w \<in> set visited. D w \<le> cost"
    using inv by (auto simp: frontier_ok_def)
  have entry: "entry_ok heap adj q (cost, u, path)" and "set (butlast path) \<subseteq> set visited"
    using inv by (auto simp: frontier_ok_def)
  moreover have "path = butlast path @ [u]"
    using entry unfolding entry_ok_def prod.case by (metis append_butlast_last_id)
  then have "set path = insert u (set (butlast path))"
    by (metis Un_insert_right list.simps(15) set_append sup_bot.right_neutral empty_set)
  ultimately have path: "set path \<subseteq> insert u (set visited)" by blast
  have entries: "\<forall>e \<in> set ?queue. entry_ok heap adj q e"
    using inv entry by (intro entry_ok_push) (auto simp: frontier_ok_def)
  have "\<forall>e \<in> set ?queue. set (butlast (snd (snd e))) \<subseteq> set (u # visited)"
    using inv path by (auto simp: set_push_neighbors frontier_ok_def)
  moreover have "\<forall>w \<in> set (u # visited). \<forall>e \<in> set ?queue. (D(u := cost)) w \<le> fst e"
    using inv least seen by (auto simp: set_push_neighbors frontier_ok_def)
  moreover have "v \<in> set (u # visited) \<and> (D(u := cost)) v \<le> (D(u := cost)) w + 1 \<or>
      (\<exists>c p. (c, v, p) \<in> set ?queue \<and> c \<le> (D(u := cost)) w + 1)"
    if w: "w \<in> set (u # visited)" and edge: "edge_ok heap adj q w v" for w v
  proof (cases "w = u")
    case True
    show ?thesis
    proof (cases "v \<in> set path")
      case True
      with \<open>w = u\<close> path seen show ?thesis by (auto intro: le_SucI)
    next
      case False
      with \<open>w = u\<close> edge have "(cost + 1, v, path @ [v]) \<in> set ?queue"
        by (auto simp: set_push_neighbors)
      then show ?thesis using \<open>w = u\<close> by fastforce
    qed
  next
    case False
    with w have "w \<in> set visited" by simp
    from frontier_edge [OF inv this edge]
    consider "v \<in> set visited" "D v \<le> D w + 1" | c p where "(c, v, p) \<in> set queue" "c \<le> D w + 1"
      | "v = u" "cost \<le> D w + 1"
      by auto
    then show ?thesis
      using False new(1) by cases (auto simp: set_push_neighbors)
  qed
  moreover have "rq_source q \<in> set (u # visited) \<and> (D(u := cost)) (rq_source q) = 0 \<or>
      (\<exists>p. (0, rq_source q, p) \<in> set ?queue)"
    using inv new(1) by (auto simp: set_push_neighbors frontier_ok_def)
  moreover have "sorted ?queue"
    using inv by (intro sorted_push_neighbors) (simp add: frontier_ok_def)
  ultimately show ?thesis
    using entries inv new(2) unfolding frontier_ok_def by simp
qed

text \<open>A walk from the source runs within the visited nodes or leaves them over a queued node.\<close>

lemma frontier_walk:
  assumes inv: "frontier_ok heap adj q queue visited D"
    and walk: "successively (edge_ok heap adj q) w" "w \<noteq> []" "hd w = rq_source q"
  shows "(set w \<subseteq> set visited \<and> D (last w) + 1 \<le> length w) \<or> (\<exists>c v p. (c, v, p) \<in> set queue \<and> c + 1 \<le> length w)"
  using walk
proof (induction w rule: rev_induct)
  case Nil
  then show ?case by simp
next
  case (snoc v w)
  show ?case
  proof (cases "w = []")
    case True
    with snoc.prems inv show ?thesis by (fastforce simp: frontier_ok_def)
  next
    case False
    with snoc consider "set w \<subseteq> set visited" "D (last w) + 1 \<le> length w"
      | c u p where "(c, u, p) \<in> set queue" "c + 1 \<le> length w"
      by (fastforce simp: successively_append_iff)
    then show ?thesis
    proof cases
      case 1
      have "edge_ok heap adj q (last w) v" using snoc.prems False by (simp add: successively_append_iff)
      moreover have "last w \<in> set visited" using 1 False by auto
      ultimately consider "v \<in> set visited" "D v \<le> D (last w) + 1"
        | c p where "(c, v, p) \<in> set queue" "c \<le> D (last w) + 1"
        using frontier_edge [OF inv] by blast
      then show ?thesis
      proof cases
        case 1
        with \<open>set w \<subseteq> set visited\<close> \<open>D (last w) + 1 \<le> length w\<close> show ?thesis by simp
      next
        case (2 c p)
        with \<open>D (last w) + 1 \<le> length w\<close> have "c + 1 \<le> length (w @ [v])" by simp
        with 2(1) show ?thesis by blast
      qed
    next
      case 2
      then show ?thesis by fastforce
    qed
  qed
qed

definition usable_walk :: "chan_heap \<Rightarrow> adjacency \<Rightarrow> route_query \<Rightarrow> string list \<Rightarrow> bool" where
  "usable_walk heap adj q w \<longleftrightarrow>
     w \<noteq> [] \<and> hd w = rq_source q \<and> last w = rq_target q \<and> successively (edge_ok heap adj q) w"

lemma length_build_hops:
  "build_hops heap adj q xs amount locktime fee hs = Some r \<Longrightarrow> length (hops r) = length hs + (length xs - 1)"
  by (induction heap adj q xs amount locktime fee hs rule: build_hops.induct)
    (auto simp: Let_def split: if_splits)

lemma build_hops_free:
  assumes "rq_base_fee q = 0" and "rq_fee_ppm q = 0" and "successively (edge_ok heap adj q) (rev xs)"
  shows "\<exists>r. build_hops heap adj q xs (rq_amount q) locktime fee hs = Some r"
  using assms(3)
proof (induction xs arbitrary: locktime fee hs)
  case Nil
  then show ?case by simp
next
  case (Cons v xs)
  then show ?case
    by (cases xs)
      (auto simp: Let_def assms(1,2) calculate_routing_fee_def calculate_fee_def successively_append_iff edge_ok_def)
qed

text \<open>
  When the fees fit on every usable path, the loop finds a path with the fewest hops, or no walk leads to the target.
\<close>

lemma search_shortest:
  assumes "frontier_ok heap adj q queue visited D"
    and "\<And>cost path. entry_ok heap adj q (cost, rq_target q, path) \<Longrightarrow>
      \<exists>r. build_hops heap adj q (rev path) (rq_amount q) (rq_base_locktime q) 0 [] = Some r"
  shows "case search heap adj q queue visited of
      Inl e \<Rightarrow> e = RouteNotFoundError \<and> (\<forall>w. \<not> usable_walk heap adj q w)
    | Inr r \<Rightarrow> \<forall>w. usable_walk heap adj q w \<longrightarrow> length (hops r) + 1 \<le> length w"
  using assms
proof (induction heap adj q queue visited arbitrary: D rule: search.induct)
  case (1 heap adj q visited)
  have "\<not> usable_walk heap adj q w" for w
  proof
    assume w: "usable_walk heap adj q w"
    then have "set w \<subseteq> set visited"
      using frontier_walk [OF 1(1), of w] by (simp add: usable_walk_def)
    moreover have "rq_target q \<in> set w" using w by (metis last_in_set usable_walk_def)
    ultimately show False using 1(1) by (auto simp: frontier_ok_def)
  qed
  then show ?case by simp
next
  case (2 heap adj q cost current path queue visited)
  show ?case
  proof (cases "current = rq_target q")
    case True
    then have entry: "entry_ok heap adj q (cost, rq_target q, path)"
      using 2(4) by (simp add: frontier_ok_def)
    from 2(5) [OF this] obtain r where r: "build_hops heap adj q (rev path) (rq_amount q) (rq_base_locktime q) 0 [] = Some r"
      by blast
    have "length (hops r) = cost"
      using length_build_hops [OF r] entry by (simp add: entry_ok_def)
    moreover have "cost + 1 \<le> length w" if w: "usable_walk heap adj q w" for w
    proof -
      have "rq_target q \<in> set w" using w by (metis last_in_set usable_walk_def)
      then obtain c v p where "(c, v, p) \<in> set ((cost, current, path) # queue)" "c + 1 \<le> length w"
        using frontier_walk [OF 2(4), of w] w 2(4) by (auto simp: usable_walk_def frontier_ok_def)
      moreover have "cost \<le> c"
        using 2(4) calculation(1) by (auto simp: frontier_ok_def less_eq_prod_def)
      ultimately show ?thesis by simp
    qed
    ultimately show ?thesis using True r by simp
  next
    case False
    show ?thesis
    proof (cases "current \<in> set visited")
      case True
      with False 2(2) [OF False True frontier_skip [OF 2(4) True] 2(5)] show ?thesis by simp
    next
      case unseen: False
      with False 2(3) [OF False unseen frontier_expand [OF 2(4) unseen False] 2(5)] show ?thesis by simp
    qed
  qed
qed

section \<open>A small network\<close>

lemma case_option_ex: "(case m of None \<Rightarrow> False | Some r \<Rightarrow> P r \<and> Q r) \<Longrightarrow> \<exists>r. m = Some r \<and> P r \<and> Q r"
  by (cases m) simp_all

text \<open>Four channels over which a payment of 100 fits, on one of the two ways with a fee.\<close>

definition edge_channel :: "string \<Rightarrow> string \<Rightarrow> int \<Rightarrow> channel" where
  "edge_channel u v amount =
     \<lparr>channel_id = u @ v, sender_alias = u, receiver_alias = v, sender_pubkey_hex = [], receiver_pubkey_hex = [],
      capacity_sat = amount, balance_sender_sat = amount, balance_receiver_sat = 0, channel_status = CH_OPEN,
      funding_txid = None, funding_vout = None, active_htlcs = [], sequence_number = 0, store = empty_store\<rparr>"

definition small_heap :: chan_heap where
  "small_heap = [edge_channel ''S'' ''A'' 100, edge_channel ''S'' ''B'' 1000,
     edge_channel ''B'' ''A'' 1000, edge_channel ''A'' ''T'' 1000]"

definition small_graph :: adjacency where
  "small_graph = fold (add_channel small_heap) [0, 1, 2, 3] []"

definition small_query :: "string \<Rightarrow> int \<Rightarrow> route_query" where
  "small_query source fee = \<lparr>rq_source = source, rq_target = ''T'', rq_amount = 100, rq_base_locktime = 100,
     rq_cltv_delta = 40, rq_base_fee = fee, rq_fee_ppm = 0\<rparr>"

lemma small_B_route:
  "find_path small_heap small_graph (small_query ''B'' 1) =
     Inr \<lparr>hops = [\<lparr>hop_sender = ''B'', hop_receiver = ''A'', hop_amount = 101, hop_fee = 1, hop_locktime = 140\<rparr>,
                 \<lparr>hop_sender = ''A'', hop_receiver = ''T'', hop_amount = 100, hop_fee = 0, hop_locktime = 100\<rparr>],
         total_amount_sat = 101, total_fee_sat = 1\<rparr>"
  by code_simp

lemma small_B_free:
  "find_path small_heap small_graph (small_query ''B'' 0) =
     Inr \<lparr>hops = [\<lparr>hop_sender = ''B'', hop_receiver = ''A'', hop_amount = 100, hop_fee = 0, hop_locktime = 140\<rparr>,
                 \<lparr>hop_sender = ''A'', hop_receiver = ''T'', hop_amount = 100, hop_fee = 0, hop_locktime = 100\<rparr>],
         total_amount_sat = 100, total_fee_sat = 0\<rparr>"
  by code_simp

section \<open>Properties of the search\<close>

text \<open>Property C20: a route the search returns leads from source to target without repeating a node, over
  channels with capacity for what each hop forwards; every hop forwards what the next one does plus its fee, the last
  one exactly the amount; locktimes fall by the delta towards the target; the totals are those of the hops.\<close>

theorem find_path_returns_valid_route:
  assumes "find_path heap adj q = Inr r"
  shows "hops_ok heap adj q (hops r) \<and> distinct (route_path (hops r)) \<and>
    (if hops r = [] then rq_source q = rq_target q
     else hd (route_path (hops r)) = rq_source q \<and> last (route_path (hops r)) = rq_target q) \<and>
    total_fee_sat r = sum_list (map hop_fee (hops r)) \<and> total_amount_sat r = first_amount q (hops r)"
proof -
  have "search heap adj q [(0, rq_source q, [rq_source q])] [] = Inr r"
    using assms by (simp add: find_path_def find_route_def split: if_splits)
  from search_sound [OF this] obtain cost path where path: "entry_ok heap adj q (cost, rq_target q, path)"
    and build: "build_hops heap adj q (rev path) (rq_amount q) (rq_base_locktime q) 0 [] = Some r"
    by (auto simp: entry_ok_def)
  have "path \<noteq> []" and "last path = rq_target q" using path by (simp_all add: entry_ok_def)
  then have p: "path = rev (rev (butlast path)) @ [rq_target q]" by (metis append_butlast_last_id rev_rev_ident)
  define rest where "rest = rev (butlast path)"
  have p: "path = rev rest @ [rq_target q]" using p by (simp add: rest_def)
  then have rev: "rev path = rq_target q # rest" by simp
  have "rq_target q \<notin> set rest" using path p by (auto simp: entry_ok_def)
  with build rev have "hops_ok heap adj q (hops r) \<and>
      (if hops r = [] then rest = [] else route_path (hops r) = rev rest @ [rq_target q]) \<and>
      total_amount_sat r = first_amount q (hops r) \<and> total_fee_sat r = sum_list (map hop_fee (hops r))"
    using build_hops_ok [of heap adj q "rq_target q" rest "[]" r]
    by (simp add: first_amount_def next_locktime_def split: if_splits)
  then show ?thesis
    using path p by (auto simp: entry_ok_def split: if_splits)
qed


theorem find_path_returns_valid_route_witness:
  "\<exists>r. find_path small_heap small_graph (small_query ''B'' 1) = Inr r \<and>
     hops_ok small_heap small_graph (small_query ''B'' 1) (hops r) \<and> route_path (hops r) = [''B'', ''A'', ''T'']"
  by (intro exI conjI, rule small_B_route, rule find_path_returns_valid_route [OF small_B_route, THEN conjunct1]) simp

text \<open>Property C21: without fees the search is complete and shortest: between nodes of the graph it returns a
  route with the fewest hops among all walks over channels with capacity for the amount, and RouteNotFoundError exactly when
  there is no such walk.  In particular it returns on every graph.\<close>

theorem find_path_shortest:
  assumes "rq_base_fee q = 0" and "rq_fee_ppm q = 0"
    and "dict_get adj (rq_source q) \<noteq> None" and "dict_get adj (rq_target q) \<noteq> None"
  shows "case find_path heap adj q of
      Inl e \<Rightarrow> e = RouteNotFoundError \<and> (\<forall>w. \<not> usable_walk heap adj q w)
    | Inr r \<Rightarrow> \<forall>w. usable_walk heap adj q w \<longrightarrow> length (hops r) + 1 \<le> length w"
proof -
  have "frontier_ok heap adj q [(0, rq_source q, [rq_source q])] [] (\<lambda>_. 0)"
    by (simp add: frontier_ok_def entry_ok_def)
  moreover have "\<exists>r. build_hops heap adj q (rev path) (rq_amount q) (rq_base_locktime q) 0 [] = Some r"
    if "entry_ok heap adj q (cost, rq_target q, path)" for cost path
    using that assms(1,2) by (intro build_hops_free) (auto simp: entry_ok_def)
  ultimately have "case search heap adj q [(0, rq_source q, [rq_source q])] [] of
      Inl e \<Rightarrow> e = RouteNotFoundError \<and> (\<forall>w. \<not> usable_walk heap adj q w)
    | Inr r \<Rightarrow> \<forall>w. usable_walk heap adj q w \<longrightarrow> length (hops r) + 1 \<le> length w"
    by (rule search_shortest)
  then show ?thesis
    using assms(3,4) by (auto simp: find_path_def find_route_def simp del: search.simps)
qed

theorem find_path_shortest_witness:
  "\<exists>r. find_path small_heap small_graph (small_query ''B'' 0) = Inr r \<and> length (hops r) + 1 \<le> length [''B'', ''A'', ''T'']"
proof -
  have nodes: "dict_get small_graph ''B'' \<noteq> None" "dict_get small_graph ''T'' \<noteq> None"
    and walk: "usable_walk small_heap small_graph (small_query ''B'' 0) [''B'', ''A'', ''T'']"
    by code_simp+
  have "case find_path small_heap small_graph (small_query ''B'' 0) of
      Inl e \<Rightarrow> e = RouteNotFoundError \<and> (\<forall>w. \<not> usable_walk small_heap small_graph (small_query ''B'' 0) w)
    | Inr r \<Rightarrow> \<forall>w. usable_walk small_heap small_graph (small_query ''B'' 0) w \<longrightarrow> length (hops r) + 1 \<le> length w"
    using nodes by (intro find_path_shortest) (simp_all add: small_query_def)
  with walk show ?thesis by (auto split: sum.splits)
qed

text \<open>With fees the search can miss a viable route.  From S the node A is first reached over the direct
  channel, which carries the amount but not the fee; A is then marked visited, so that the way through B, on which every hop
  has the capacity, is never tried: the search raises RouteNotFoundError although that route passes every check.\<close>

theorem find_path_misses_alternate:
  "find_path small_heap small_graph (small_query ''S'' 1) = Inl RouteNotFoundError \<and>
   (\<exists>r. build_hops small_heap small_graph (small_query ''S'' 1) (rev [''S'', ''B'', ''A'', ''T'']) 100 100 0 [] = Some r \<and>
      hops_ok small_heap small_graph (small_query ''S'' 1) (hops r) \<and>
      route_path (hops r) = [''S'', ''B'', ''A'', ''T''])"
proof -
  have "find_path small_heap small_graph (small_query ''S'' 1) = Inl RouteNotFoundError"
    by code_simp
  moreover have "case build_hops small_heap small_graph (small_query ''S'' 1) (rev [''S'', ''B'', ''A'', ''T'']) 100 100 0 [] of
      None \<Rightarrow> False
    | Some r \<Rightarrow> hops_ok small_heap small_graph (small_query ''S'' 1) (hops r) \<and>
        route_path (hops r) = [''S'', ''B'', ''A'', ''T'']"
    by code_simp
  ultimately show ?thesis by (intro conjI case_option_ex)
qed

end
