(* ===== verification/Node.thy ===== *)
theory Node
  imports Channel_Ledger Curve_Lib Contracts
begin

text \<open>
  \<open>domain/node.py\<close>: nodes, the channels they share and the payments over one hop.  Channels are objects that two
  nodes (and a network graph) refer to: the world is a heap of channels, in the order they were created, and a list of nodes
  whose dictionaries hold positions in the heap.  A call returns the world with its result, since some raise after
  having changed it.  Random bytes are arguments.
\<close>

section \<open>State\<close>

record node =
  node_alias :: string
  node_secret :: bytes
  node_pubkey :: bytes
  node_pubkey_hex :: string
  node_address :: string
  node_channels :: "(string, nat) pydict"
  known_preimages :: "(string, string) pydict"
  revocation_secrets :: "(string, (int, string) pydict) pydict"

record world =
  chans :: "channel list"
  nodes :: "node list"

type_synonym 'a call = "world \<times> 'a res"

section \<open>Keys and secrets\<close>

text \<open>\<open>generate_secret\<close>, \<open>generate_keypair\<close>: a WIF text that is given and not empty is loaded.\<close>

definition generate_secret :: "bytes \<Rightarrow> bytes \<times> bytes" where
  "generate_secret random_bytes = (random_bytes, sha256 random_bytes)"

definition generate_keypair :: "btclib \<Rightarrow> string option \<Rightarrow> bytes \<Rightarrow> (bytes \<times> bytes) res" where
  "generate_keypair L wif random_bytes =
     (case wif of
        Some w \<Rightarrow>
          if w \<noteq> [] then rbind (lib_wif L w) (\<lambda>secret. Inr (secret, lib_pub L secret))
          else Inr (random_bytes, lib_pub L random_bytes)
      | None \<Rightarrow> Inr (random_bytes, lib_pub L random_bytes))"

text \<open>The text of the P2WPKH address is the wallet library's (\<open>address\<close>, of version and program).\<close>

definition new_node :: "btclib \<Rightarrow> (int \<Rightarrow> bytes \<Rightarrow> string) \<Rightarrow> string \<Rightarrow> string option \<Rightarrow> bytes \<Rightarrow> node res" where
  "new_node L address alias wif_key random_bytes =
     rbind (generate_keypair L wif_key random_bytes) (\<lambda>(secret, pubkey).
       Inr \<lparr>node_alias = alias, node_secret = secret, node_pubkey = pubkey, node_pubkey_hex = lib_b2x L pubkey,
            node_address = address 0 (lib_Hash160 L pubkey), node_channels = [], known_preimages = [],
            revocation_secrets = []\<rparr>)"

section \<open>Channels of a node\<close>

definition update_node :: "nat \<Rightarrow> (node \<Rightarrow> node) \<Rightarrow> world \<Rightarrow> world" where
  "update_node i f w = w\<lparr>nodes := (nodes w)[i := f (nodes w ! i)]\<rparr>"

definition has_channel_with :: "node \<Rightarrow> string \<Rightarrow> bool" where
  "has_channel_with n peer_alias \<longleftrightarrow> dict_get (node_channels n) peer_alias \<noteq> None"

definition get_channel_with :: "node \<Rightarrow> string \<Rightarrow> nat res" where
  "get_channel_with n peer_alias =
     (case dict_get (node_channels n) peer_alias of None \<Rightarrow> Inl ChannelStateError | Some ref \<Rightarrow> Inr ref)"

text \<open>The script \<open>Channel.multisig_redeem_script\<close> of a channel's two keys.\<close>

definition multisig_redeem_script :: "btclib \<Rightarrow> channel \<Rightarrow> bytes res" where
  "multisig_redeem_script L c =
     (case lib_x L (sender_pubkey_hex c) of None \<Rightarrow> Inl ValueError
      | Some pk1 \<Rightarrow> (case lib_x L (receiver_pubkey_hex c) of None \<Rightarrow> Inl ValueError
         | Some pk2 \<Rightarrow> Inr (create_multisig_2of2 L pk1 pk2)))"

definition new_channel :: "node \<Rightarrow> node \<Rightarrow> int \<Rightarrow> channel" where
  "new_channel self peer capacity =
     \<lparr>channel_id = ''chan_'' @ node_alias self @ ''_'' @ node_alias peer,
      sender_alias = node_alias self, receiver_alias = node_alias peer,
      sender_pubkey_hex = node_pubkey_hex self, receiver_pubkey_hex = node_pubkey_hex peer,
      capacity_sat = capacity, balance_sender_sat = capacity, balance_receiver_sat = 0,
      channel_status = CH_OPEN, funding_txid = None, funding_vout = None, active_htlcs = [],
      sequence_number = 0, store = empty_store\<rparr>"

definition link_channel :: "string \<Rightarrow> nat \<Rightarrow> node \<Rightarrow> node" where
  "link_channel peer_alias ref n =
     n\<lparr>node_channels := dict_set peer_alias ref (node_channels n),
       revocation_secrets := dict_set peer_alias [] (revocation_secrets n)\<rparr>"

definition open_channel :: "nat \<Rightarrow> nat \<Rightarrow> int \<Rightarrow> world \<Rightarrow> world \<times> nat" where
  "open_channel i j capacity w =
     (let ref = length (chans w);
          a = node_alias (nodes w ! i); b = node_alias (nodes w ! j);
          w = w\<lparr>chans := chans w @ [new_channel (nodes w ! i) (nodes w ! j) capacity]\<rparr>
      in (update_node j (link_channel a ref) (update_node i (link_channel b ref) w), ref))"

section \<open>Payments\<close>

definition create_invoice :: "btclib \<Rightarrow> nat \<Rightarrow> bytes \<Rightarrow> world \<Rightarrow> world \<times> (string \<times> string)" where
  "create_invoice L i random_bytes w =
     (let (preimage, hash) = generate_secret random_bytes;
          preimage_hex = lib_b2x L preimage;
          hash_hex = lib_b2x L hash
      in (update_node i (\<lambda>n. n\<lparr>known_preimages := dict_set hash_hex preimage_hex (known_preimages n)\<rparr>) w,
          (preimage_hex, hash_hex)))"

definition new_htlc :: "string \<Rightarrow> string \<Rightarrow> int \<Rightarrow> int \<Rightarrow> string \<Rightarrow> htlc_contract" where
  "new_htlc hid hash amount lock offerer =
     \<lparr>htlc_id = hid, payment_hash = hash, htlc_amount_sat = amount, htlc_locktime = lock,
      offerer_alias = Some offerer, preimage = None, settled = False, refunded = False, htlc_status = HTLC_OFFERED\<rparr>"

text \<open>
  The channel is changed before the revocation secret is made and stored; a peer without an entry in
  \<open>revocation_secrets\<close> is a KeyError at that point.
\<close>

definition remember_secret :: "string \<Rightarrow> int \<Rightarrow> string \<Rightarrow> node \<Rightarrow> node" where
  "remember_secret peer_alias seq secret n =
     n\<lparr>revocation_secrets := dict_set peer_alias
         (dict_set seq secret (the (dict_get (revocation_secrets n) peer_alias))) (revocation_secrets n)\<rparr>"

definition route_htlc_payment ::
    "btclib \<Rightarrow> 'p eclib \<Rightarrow> nat \<Rightarrow> string \<Rightarrow> int \<Rightarrow> string \<Rightarrow> int \<Rightarrow> string \<Rightarrow> bytes \<Rightarrow> world \<Rightarrow> bool call" where
  "route_htlc_payment L E i target amount hash lock hid random_bytes w =
     (case get_channel_with (nodes w ! i) target of
        Inl e \<Rightarrow> (w, Inl e)
      | Inr ref \<Rightarrow>
          let alias = node_alias (nodes w ! i) in
          (case add_htlc (chans w ! ref) (new_htlc hid hash amount lock alias) (Some alias) of
             Inl e \<Rightarrow> (w, Inl e)
           | Inr c \<Rightarrow>
               let w = w\<lparr>chans := (chans w)[ref := c]\<rparr> in
               (case generate_revocation_secret E random_bytes of
                  Inl e \<Rightarrow> (w, Inl e)
                | Inr (secret, point) \<Rightarrow>
                    if dict_get (revocation_secrets (nodes w ! i)) target = None then (w, Inl KeyError)
                    else (update_node i (remember_secret target (sequence_number c) (lib_b2x L secret)) w, Inr True))))"

definition fulfill_htlc :: "btclib \<Rightarrow> nat \<Rightarrow> string \<Rightarrow> string \<Rightarrow> string \<Rightarrow> world \<Rightarrow> bool call" where
  "fulfill_htlc L i peer_alias hid preimage_hex w =
     (case get_channel_with (nodes w ! i) peer_alias of
        Inl e \<Rightarrow> (w, Inl e)
      | Inr ref \<Rightarrow>
          (case redeem_htlc L (chans w ! ref) hid preimage_hex of
             Inl e \<Rightarrow> (w, Inl e)
           | Inr (c, h) \<Rightarrow> (w\<lparr>chans := (chans w)[ref := c]\<rparr>, Inr True)))"

definition node_refund_htlc :: "nat \<Rightarrow> string \<Rightarrow> string \<Rightarrow> int \<Rightarrow> world \<Rightarrow> bool call" where
  "node_refund_htlc i peer_alias hid current_block_height w =
     (case get_channel_with (nodes w ! i) peer_alias of
        Inl e \<Rightarrow> (w, Inl e)
      | Inr ref \<Rightarrow>
          (case refund_htlc (chans w ! ref) hid current_block_height of
             Inl e \<Rightarrow> (w, Inl e)
           | Inr (c, h) \<Rightarrow> (w\<lparr>chans := (chans w)[ref := c]\<rparr>, Inr True)))"

section \<open>The world and its parts\<close>

lemma update_node_simps [simp]:
  "length (nodes (update_node i f w)) = length (nodes w)"
  "chans (update_node i f w) = chans w"
  by (simp_all add: update_node_def)

lemma nth_update_node:
  "i < length (nodes w) \<Longrightarrow> nodes (update_node i f w) ! k = (if k = i then f (nodes w ! i) else nodes w ! k)"
  by (simp add: update_node_def nth_list_update)

lemma link_channel_sel [simp]:
  "node_alias (link_channel p r n) = node_alias n"
  "dict_get (node_channels (link_channel p r n)) = (dict_get (node_channels n))(p \<mapsto> r)"
  "dict_get (revocation_secrets (link_channel p r n)) = (dict_get (revocation_secrets n))(p \<mapsto> [])"
  by (simp_all add: link_channel_def)

lemma remember_secret_sel [simp]:
  "node_alias (remember_secret p k x n) = node_alias n"
  "node_channels (remember_secret p k x n) = node_channels n"
  "dict_get (revocation_secrets (remember_secret p k x n)) q = None \<longleftrightarrow>
     q \<noteq> p \<and> dict_get (revocation_secrets n) q = None"
  by (simp_all add: remember_secret_def)

text \<open>What two nodes see of a channel between them.\<close>

definition shares :: "world \<Rightarrow> nat \<Rightarrow> nat \<Rightarrow> nat \<Rightarrow> bool" where
  "shares w i j ref \<longleftrightarrow>
     i < length (nodes w) \<and> j < length (nodes w) \<and> i \<noteq> j \<and> ref < length (chans w) \<and>
     dict_get (node_channels (nodes w ! i)) (node_alias (nodes w ! j)) = Some ref \<and>
     dict_get (node_channels (nodes w ! j)) (node_alias (nodes w ! i)) = Some ref \<and>
     {sender_alias (chans w ! ref), receiver_alias (chans w ! ref)} = {node_alias (nodes w ! i), node_alias (nodes w ! j)}"

definition network_ok :: "world \<Rightarrow> bool" where
  "network_ok w \<longleftrightarrow>
     distinct (map node_alias (nodes w)) \<and>
     (\<forall>c \<in> set (chans w). channel_inv c \<and> total_sat c = capacity_sat c) \<and>
     (\<forall>i < length (nodes w). \<forall>p ref. dict_get (node_channels (nodes w ! i)) p = Some ref \<longrightarrow>
        dict_get (revocation_secrets (nodes w ! i)) p \<noteq> None \<and>
        (\<exists>j. node_alias (nodes w ! j) = p \<and> shares w i j ref))"

section \<open>The network\<close>

text \<open>
  Nodes without channels come first; then channels are opened between different nodes, invoices made, HTLCs offered
  over a free id with a non-negative amount, redeemed and refunded.  A call that raises leaves the world as it was then.
\<close>

inductive network :: "btclib \<Rightarrow> 'p eclib \<Rightarrow> world \<Rightarrow> bool" for L E where
  start: "distinct (map node_alias ns) \<Longrightarrow> \<forall>n \<in> set ns. node_channels n = [] \<Longrightarrow>
    network L E \<lparr>chans = [], nodes = ns\<rparr>"
| open_chan: "network L E w \<Longrightarrow> i < length (nodes w) \<Longrightarrow> j < length (nodes w) \<Longrightarrow> i \<noteq> j \<Longrightarrow> 0 \<le> capacity \<Longrightarrow>
    network L E (fst (open_channel i j capacity w))"
| invoice: "network L E w \<Longrightarrow> i < length (nodes w) \<Longrightarrow> network L E (fst (create_invoice L i random w))"
| pay: "network L E w \<Longrightarrow> i < length (nodes w) \<Longrightarrow> 0 \<le> amount \<Longrightarrow>
    (\<And>ref. get_channel_with (nodes w ! i) p = Inr ref \<Longrightarrow> dict_get (active_htlcs (chans w ! ref)) hid = None) \<Longrightarrow>
    network L E (fst (route_htlc_payment L E i p amount hash lock hid random w))"
| fulfill: "network L E w \<Longrightarrow> i < length (nodes w) \<Longrightarrow> network L E (fst (fulfill_htlc L i p hid x w))"
| refund: "network L E w \<Longrightarrow> i < length (nodes w) \<Longrightarrow> network L E (fst (node_refund_htlc i p hid height w))"

text \<open>Every call but \<open>open_channel\<close> changes at most one channel, by a ledger operation, and no link.\<close>

lemma distinct_alias_inj:
  "distinct (map node_alias ns) \<Longrightarrow> i < length ns \<Longrightarrow> j < length ns \<Longrightarrow> node_alias (ns ! i) = node_alias (ns ! j) \<longleftrightarrow> i = j"
  by (metis length_map nth_eq_iff_index_eq nth_map)

lemma network_ok_channel:
  assumes "network_ok w" and "ref < length (chans w)"
    and "channel_inv c" and "total_sat c = capacity_sat c"
    and "sender_alias c = sender_alias (chans w ! ref)" and "receiver_alias c = receiver_alias (chans w ! ref)"
  shows "network_ok (w\<lparr>chans := (chans w)[ref := c]\<rparr>)"
proof -
  have "\<forall>d \<in> set ((chans w)[ref := c]). channel_inv d \<and> total_sat d = capacity_sat d"
    using assms set_update_subset_insert [of "chans w" ref c] by (auto simp: network_ok_def)
  moreover have "shares (w\<lparr>chans := (chans w)[ref := c]\<rparr>) i j r \<longleftrightarrow> shares w i j r" for i j r
    using assms(2,5,6) by (auto simp: shares_def nth_list_update)
  ultimately show ?thesis using assms(1) by (simp add: network_ok_def)
qed

lemma network_ok_node:
  assumes "network_ok w" and "i < length (nodes w)"
    and "node_alias (f (nodes w ! i)) = node_alias (nodes w ! i)"
    and "node_channels (f (nodes w ! i)) = node_channels (nodes w ! i)"
    and "\<And>q. dict_get (revocation_secrets (nodes w ! i)) q \<noteq> None \<Longrightarrow>
      dict_get (revocation_secrets (f (nodes w ! i))) q \<noteq> None"
  shows "network_ok (update_node i f w)"
proof -
  have same: "node_alias (nodes (update_node i f w) ! k) = node_alias (nodes w ! k)" for k
    using assms by (simp add: nth_update_node)
  have chan: "node_channels (nodes (update_node i f w) ! k) = node_channels (nodes w ! k)" for k
    using assms by (simp add: nth_update_node)
  have "map node_alias (nodes (update_node i f w)) = map node_alias (nodes w)"
    by (rule nth_equalityI) (simp_all add: same)
  moreover have "shares (update_node i f w) k j r \<longleftrightarrow> shares w k j r" for k j r
    by (simp add: shares_def same chan)
  moreover have "dict_get (revocation_secrets (nodes (update_node i f w) ! k)) q \<noteq> None"
    if "dict_get (revocation_secrets (nodes w ! k)) q \<noteq> None" for k q
    using that assms(2,5) by (cases "k = i") (simp_all add: nth_update_node)
  ultimately show ?thesis
    using assms(1) unfolding network_ok_def by (simp add: same chan)
qed

lemma network_ok_open:
  assumes "network_ok w" and "i < length (nodes w)" and "j < length (nodes w)" and "i \<noteq> j" and "0 \<le> capacity"
  shows "network_ok (fst (open_channel i j capacity w)) \<and> shares (fst (open_channel i j capacity w)) i j (length (chans w))"
proof -
  let ?w = "fst (open_channel i j capacity w)"
  let ?c = "new_channel (nodes w ! i) (nodes w ! j) capacity"
  define ref where "ref = length (chans w)"
  have inj: "node_alias (nodes w ! k) = node_alias (nodes w ! l) \<longleftrightarrow> k = l"
    if "k < length (nodes w)" "l < length (nodes w)" for k l
    using assms(1) that by (simp add: network_ok_def distinct_alias_inj)
  have w: "chans ?w = chans w @ [?c]" "length (nodes ?w) = length (nodes w)"
    by (simp_all add: open_channel_def Let_def)
  have node: "nodes ?w ! k = (if k = j then link_channel (node_alias (nodes w ! i)) ref (nodes w ! j)
      else if k = i then link_channel (node_alias (nodes w ! j)) ref (nodes w ! i) else nodes w ! k)" for k
    using assms(2-4) by (simp add: open_channel_def Let_def nth_update_node ref_def)
  have same: "node_alias (nodes ?w ! k) = node_alias (nodes w ! k)" for k
    by (simp add: node)
  have "map node_alias (nodes ?w) = map node_alias (nodes w)"
    by (rule nth_equalityI) (simp_all add: same w)
  then have distinct: "distinct (map node_alias (nodes ?w))"
    using assms(1) by (simp add: network_ok_def)
  have "opened ?c" using assms(5) by (simp add: opened_def new_channel_def)
  then have inv: "\<forall>c \<in> set (chans ?w). channel_inv c \<and> total_sat c = capacity_sat c"
    using assms(1) opened_inv by (auto simp: w network_ok_def)
  have new: "shares ?w i j ref" "shares ?w j i ref"
    using assms(2-4) by (auto simp: shares_def w node ref_def new_channel_def nth_append)
  have old: "shares ?w k l r"
    if "shares w k l r" "{k, l} \<noteq> {i, j}" for k l r
    using that assms(2-4) inj by (auto simp: shares_def w node nth_append split: if_splits)
  have "dict_get (revocation_secrets (nodes ?w ! k)) p \<noteq> None \<and>
      (\<exists>l. node_alias (nodes ?w ! l) = p \<and> shares ?w k l r)"
    if k: "k < length (nodes w)" and r: "dict_get (node_channels (nodes ?w ! k)) p = Some r" for k p r
  proof (cases "\<exists>l. p = node_alias (nodes w ! l) \<and> (k = i \<and> l = j \<or> k = j \<and> l = i)")
    case True
    then have "r = ref" using r assms(4) by (auto simp: node)
    with True new show ?thesis by (auto simp: node assms(4))
  next
    case False
    then have "dict_get (node_channels (nodes w ! k)) p = Some r"
      and "dict_get (revocation_secrets (nodes ?w ! k)) p = dict_get (revocation_secrets (nodes w ! k)) p"
      using r by (auto simp: node split: if_splits)
    then obtain l where l: "node_alias (nodes w ! l) = p" "shares w k l r"
        "dict_get (revocation_secrets (nodes ?w ! k)) p \<noteq> None"
      using assms(1) k by (fastforce simp: network_ok_def)
    then have "{k, l} \<noteq> {i, j}" using False by (auto simp: doubleton_eq_iff)
    with l old show ?thesis by (auto simp: same)
  qed
  with distinct inv new(1) show ?thesis by (simp add: network_ok_def w(2) ref_def)
qed

lemma network_okD:
  assumes "network_ok w" and "i < length (nodes w)" and "get_channel_with (nodes w ! i) p = Inr ref"
  obtains j where "node_alias (nodes w ! j) = p" "shares w i j ref" "ref < length (chans w)"
    "channel_inv (chans w ! ref)" "total_sat (chans w ! ref) = capacity_sat (chans w ! ref)"
    "dict_get (revocation_secrets (nodes w ! i)) p \<noteq> None"
proof -
  have "dict_get (node_channels (nodes w ! i)) p = Some ref"
    using assms(3) by (simp add: get_channel_with_def split: option.splits)
  with assms(1,2) obtain j where j: "node_alias (nodes w ! j) = p" "shares w i j ref"
      "dict_get (revocation_secrets (nodes w ! i)) p \<noteq> None"
    unfolding network_ok_def by blast
  moreover have "ref < length (chans w)" using j(2) by (simp add: shares_def)
  ultimately show thesis using assms(1) that by (simp add: network_ok_def)
qed

text \<open>A channel operation on the channel with a peer, whatever its result.\<close>

lemma network_ok_exec:
  assumes ok: "network_ok w" and i: "i < length (nodes w)" and ref: "get_channel_with (nodes w ! i) p = Inr ref"
    and exec: "admissible op (chans w ! ref)" "channel_exec L op (chans w ! ref) = Inr c"
    and frame: "sender_alias c = sender_alias (chans w ! ref)" "receiver_alias c = receiver_alias (chans w ! ref)"
  shows "network_ok (w\<lparr>chans := (chans w)[ref := c]\<rparr>)"
proof -
  from network_okD [OF ok i ref] have "ref < length (chans w)" "channel_inv (chans w ! ref)"
      "total_sat (chans w ! ref) = capacity_sat (chans w ! ref)"
    by blast+
  with exec frame show ?thesis
    by (intro network_ok_channel ok) (auto intro: chan.exec_inv simp: chan.exec_total channel_exec_capacity)
qed

lemma network_ok_invoice: "network_ok w \<Longrightarrow> i < length (nodes w) \<Longrightarrow> network_ok (fst (create_invoice L i random w))"
  by (simp add: create_invoice_def Let_def case_prod_unfold network_ok_node)

lemma network_ok_route:
  assumes ok: "network_ok w" and i: "i < length (nodes w)" and "0 \<le> amount"
    and fresh: "\<And>ref. get_channel_with (nodes w ! i) p = Inr ref \<Longrightarrow> dict_get (active_htlcs (chans w ! ref)) hid = None"
  shows "network_ok (fst (route_htlc_payment L E i p amount hash lock hid random w))"
proof (cases "get_channel_with (nodes w ! i) p")
  case (Inl e)
  then show ?thesis using ok by (simp add: route_htlc_payment_def)
next
  case (Inr ref)
  let ?a = "node_alias (nodes w ! i)"
  let ?h = "new_htlc hid hash amount lock ?a"
  show ?thesis
  proof (cases "add_htlc (chans w ! ref) ?h (Some ?a)")
    case (Inl e)
    then show ?thesis using ok \<open>get_channel_with _ _ = Inr ref\<close> by (simp add: route_htlc_payment_def Let_def)
  next
    case add: (Inr c)
    have "admissible (Offer ?h (Some ?a)) (chans w ! ref)"
      using fresh [OF Inr] \<open>0 \<le> amount\<close> by (simp add: new_htlc_def spec_defs)
    then have ok': "network_ok (w\<lparr>chans := (chans w)[ref := c]\<rparr>)"
      using add_htlc_frame [OF add] add by (intro network_ok_exec [OF ok i Inr, of "Offer ?h (Some ?a)" L]) auto
    have "network_ok (update_node i (remember_secret p n x) (w\<lparr>chans := (chans w)[ref := c]\<rparr>))" for n x
      using i by (intro network_ok_node [OF ok']) simp_all
    with ok' add Inr show ?thesis
      by (simp add: route_htlc_payment_def Let_def split: sum.splits)
  qed
qed

lemma network_ok_fulfill:
  assumes ok: "network_ok w" and i: "i < length (nodes w)"
  shows "network_ok (fst (fulfill_htlc L i p hid x w))"
proof (cases "get_channel_with (nodes w ! i) p")
  case (Inr ref)
  have "network_ok (w\<lparr>chans := (chans w)[ref := c]\<rparr>)" if "redeem_htlc L (chans w ! ref) hid x = Inr (c, h)" for c h
    using that redeem_htlc_frame [OF that]
    by (intro network_ok_exec [OF ok i Inr, of "Redeem hid x" L]) (auto simp: map_sum_fst_eq_Inr)
  with ok Inr show ?thesis by (auto simp: fulfill_htlc_def split: sum.splits)
qed (simp add: ok fulfill_htlc_def)

lemma network_ok_refund:
  assumes ok: "network_ok w" and i: "i < length (nodes w)"
  shows "network_ok (fst (node_refund_htlc i p hid height w))"
proof (cases "get_channel_with (nodes w ! i) p")
  case (Inr ref)
  have "network_ok (w\<lparr>chans := (chans w)[ref := c]\<rparr>)" if "refund_htlc (chans w ! ref) hid height = Inr (c, h)" for c h
    using that refund_htlc_frame [OF that]
    by (intro network_ok_exec [OF ok i Inr, of "Refund hid height"]) (auto simp: map_sum_fst_eq_Inr)
  with ok Inr show ?thesis by (auto simp: node_refund_htlc_def split: sum.splits)
qed (simp add: ok node_refund_htlc_def)

lemma network_network_ok: "network L E w \<Longrightarrow> network_ok w"
proof (induction rule: network.induct)
  case (start ns)
  then show ?case by (auto simp: network_ok_def)
next
  case (open_chan w i j capacity)
  then show ?case using network_ok_open by blast
qed (auto intro: network_ok_invoice network_ok_route network_ok_fulfill network_ok_refund)

section \<open>A payment over one channel\<close>

lemma add_htlc_by_party:
  assumes "is_open c" and "a \<in> {sender_alias c, receiver_alias c}" and "a \<noteq> []"
    and "h = new_htlc hid hash amount lock a" and "amount \<le> get_balance c a"
  shows "\<exists>c'. add_htlc c h (Some a) = Inr c' \<and> get_balance c' a = get_balance c a - amount \<and>
    (\<forall>b. b \<noteq> a \<longrightarrow> get_balance c' b = get_balance c b) \<and>
    active_htlcs c' = dict_set hid h (active_htlcs c) \<and>
    sender_alias c' = sender_alias c \<and> receiver_alias c' = receiver_alias c"
  using assms
  by (cases "a = sender_alias c") (auto simp: add_htlc_def Let_def get_balance_def spec_defs new_htlc_def)

lemma redeem_by_other:
  assumes "dict_get (active_htlcs c) hid = Some (new_htlc hid hash amount lock a)"
    and "{sender_alias c, receiver_alias c} = {a, b}" and "a \<noteq> b" and "a \<noteq> []"
    and "lib_x L x = Some p" and "lib_b2x L (sha256 p) = hash"
  shows "\<exists>c' h. redeem_htlc L c hid x = Inr (c', h) \<and> get_balance c' b = get_balance c b + amount \<and>
    get_balance c' a = get_balance c a \<and> dict_get (active_htlcs c') = (dict_get (active_htlcs c))(hid := None)"
  using assms
  by (cases "a = sender_alias c")
    (auto simp: redeem_htlc_def Let_def get_balance_def spec_defs new_htlc_def drop_htlc_def doubleton_eq_iff)

section \<open>Properties\<close>

text \<open>Property C22: in every world reached by opening channels, making invoices and offering, redeeming and refunding
  HTLCs, with or without exceptions on the way, all balances are non-negative and every channel accounts for exactly its
  capacity, as long as channels are opened between two different nodes with a capacity that is not negative, and HTLCs are offered
  with an amount that is not negative and an id that is not in flight on the channel; the code checks none of this.  And whenever a node has a channel with a peer, that peer exists and has the same channel object with it.\<close>

theorem network_invariant:
  assumes "network L E w"
  shows "(\<forall>c \<in> set (chans w). 0 \<le> balance_sender_sat c \<and> 0 \<le> balance_receiver_sat c \<and> total_sat c = capacity_sat c) \<and>
    (\<forall>i < length (nodes w). \<forall>p ref. get_channel_with (nodes w ! i) p = Inr ref \<longrightarrow>
      ref < length (chans w) \<and>
      (\<exists>j < length (nodes w). node_alias (nodes w ! j) = p \<and>
         get_channel_with (nodes w ! j) (node_alias (nodes w ! i)) = Inr ref))"
proof (intro conjI ballI allI impI)
  note ok = network_network_ok [OF assms]
  fix c assume "c \<in> set (chans w)"
  with ok have "channel_inv c" "total_sat c = capacity_sat c" by (auto simp: network_ok_def)
  then show "0 \<le> balance_sender_sat c" "0 \<le> balance_receiver_sat c" "total_sat c = capacity_sat c"
    by (simp_all add: channel_inv_def)
next
  fix i p ref
  assume i: "i < length (nodes w)" and ref: "get_channel_with (nodes w ! i) p = Inr ref"
  from network_okD [OF network_network_ok [OF assms] i ref] obtain j
    where "node_alias (nodes w ! j) = p" "shares w i j ref" by blast
  then show "ref < length (chans w)" and "\<exists>j < length (nodes w). node_alias (nodes w ! j) = p \<and>
      get_channel_with (nodes w ! j) (node_alias (nodes w ! i)) = Inr ref"
    by (auto simp: shares_def get_channel_with_def)
qed

text \<open>Two nodes with a channel of 100 between them.\<close>

definition plain_node :: "string \<Rightarrow> node" where
  "plain_node a = \<lparr>node_alias = a, node_secret = [], node_pubkey = [], node_pubkey_hex = [], node_address = [],
     node_channels = [], known_preimages = [], revocation_secrets = []\<rparr>"

definition pair_world :: world where
  "pair_world = fst (open_channel 0 1 100 \<lparr>chans = [], nodes = [plain_node ''Alice'', plain_node ''Bob'']\<rparr>)"

lemma pair_network: "network L E pair_world"
  unfolding pair_world_def
  by (rule network.open_chan [OF network.start]) (simp_all add: plain_node_def)

lemma pair_shares: "shares pair_world 0 1 0"
  by code_simp

theorem network_invariant_witness: "total_sat (chans pair_world ! 0) = capacity_sat (chans pair_world ! 0)"
proof -
  have "0 < length (chans pair_world)" by code_simp
  then show ?thesis using network_invariant [OF pair_network [of wire_lib line_curve]] nth_mem by blast
qed

text \<open>Property C23: an invoice is paid.  Between two nodes that share an open channel, for an amount the payer has on its
  side and a free HTLC id: the payee's invoice, the payer's HTLC over its hash and the payee's redemption with its preimage all
  succeed; the payer's balance falls and the payee's rises by the amount, whichever of them funded the channel, and no other
  channel changes.\<close>

theorem invoice_is_paid:
  assumes "network L E w" and "shares w i j ref" and "is_open (chans w ! ref)"
    and "dict_get (active_htlcs (chans w ! ref)) hid = None" and "node_alias (nodes w ! i) \<noteq> []"
    and "amount \<le> get_balance (chans w ! ref) (node_alias (nodes w ! i))"
    and "\<forall>b. lib_x L (lib_b2x L b) = Some b"
    and "generate_revocation_secret E random' = Inr sp"
    and "create_invoice L j random w = (w1, (x, hash))"
    and "route_htlc_payment L E i (node_alias (nodes w ! j)) amount hash lock hid random' w1 = (w2, r2)"
    and "fulfill_htlc L j (node_alias (nodes w ! i)) hid x w2 = (w3, r3)"
  shows "r2 = Inr True \<and> r3 = Inr True \<and>
    get_balance (chans w3 ! ref) (node_alias (nodes w ! i)) =
      get_balance (chans w ! ref) (node_alias (nodes w ! i)) - amount \<and>
    get_balance (chans w3 ! ref) (node_alias (nodes w ! j)) =
      get_balance (chans w ! ref) (node_alias (nodes w ! j)) + amount \<and>
    dict_get (active_htlcs (chans w3 ! ref)) hid = None \<and> (\<forall>k. k \<noteq> ref \<longrightarrow> chans w3 ! k = chans w ! k)"
proof -
  note ok = network_network_ok [OF assms(1)]
  define a b where "a = node_alias (nodes w ! i)" and "b = node_alias (nodes w ! j)"
  have sh: "i < length (nodes w)" "j < length (nodes w)" "i \<noteq> j" "ref < length (chans w)"
      "get_channel_with (nodes w ! i) b = Inr ref" "get_channel_with (nodes w ! j) a = Inr ref"
      "{sender_alias (chans w ! ref), receiver_alias (chans w ! ref)} = {a, b}"
    using assms(2) by (simp_all add: shares_def get_channel_with_def a_def b_def)
  have ab: "a \<noteq> b"
    using ok sh(1-3) by (simp add: network_ok_def distinct_alias_inj a_def b_def)
  have x: "x = lib_b2x L random" "hash = lib_b2x L (sha256 random)"
    and w1: "w1 = update_node j (\<lambda>n. n\<lparr>known_preimages := dict_set hash x (known_preimages n)\<rparr>) w"
    using assms(9) by (auto simp: create_invoice_def generate_secret_def Let_def)
  have c1: "chans w1 = chans w" "node_alias (nodes w1 ! k) = node_alias (nodes w ! k)"
      "get_channel_with (nodes w1 ! k) = get_channel_with (nodes w ! k)"
      "revocation_secrets (nodes w1 ! k) = revocation_secrets (nodes w ! k)" for k
    using sh(2) by (auto simp: w1 nth_update_node get_channel_with_def)
  obtain c where c: "add_htlc (chans w ! ref) (new_htlc hid hash amount lock a) (Some a) = Inr c"
      "get_balance c a = get_balance (chans w ! ref) a - amount"
      "get_balance c b = get_balance (chans w ! ref) b"
      "active_htlcs c = dict_set hid (new_htlc hid hash amount lock a) (active_htlcs (chans w ! ref))"
      "{sender_alias c, receiver_alias c} = {a, b}"
    using add_htlc_by_party [OF assms(3), of a _ hid hash amount lock] sh(7) assms(5,6) ab
    by (fastforce simp: a_def b_def)
  have rev: "dict_get (revocation_secrets (nodes w ! i)) b \<noteq> None"
    using network_okD [OF ok sh(1,5)] by blast
  have "w2 = update_node i (remember_secret b (sequence_number c) (lib_b2x L (fst sp))) (w1\<lparr>chans := (chans w1)[ref := c]\<rparr>) \<and> r2 = Inr True"
    using assms(8,10) c(1) rev sh(5)
    by (cases sp) (simp add: route_htlc_payment_def c1 a_def [symmetric] b_def [symmetric] Let_def split: if_splits)
  then have w2: "chans w2 = (chans w)[ref := c]" "r2 = Inr True"
      "node_alias (nodes w2 ! i) = a" "get_channel_with (nodes w2 ! j) a = Inr ref"
    using sh w1 by (auto simp: c1 nth_update_node a_def b_def get_channel_with_def)
  have "dict_get (active_htlcs c) hid = Some (new_htlc hid hash amount lock a)" by (simp add: c(4))
  moreover have "a \<noteq> []" using assms(5) by (simp add: a_def)
  moreover have "lib_x L x = Some random" using assms(7) x(1) by simp
  ultimately obtain c' h where c': "redeem_htlc L c hid x = Inr (c', h)" "get_balance c' b = get_balance c b + amount"
      "get_balance c' a = get_balance c a" "dict_get (active_htlcs c') = (dict_get (active_htlcs c))(hid := None)"
    using redeem_by_other [OF _ c(5) ab] x(2) by blast
  have "w3 = w2\<lparr>chans := (chans w2)[ref := c']\<rparr> \<and> r3 = Inr True"
    using assms(11) c'(1) sh(4) by (simp add: fulfill_htlc_def a_def [symmetric] w2)
  then show ?thesis
    using w2 c(2,3) c' sh(4) by (simp add: a_def [symmetric] b_def [symmetric])
qed

theorem invoice_is_paid_witness:
  "\<exists>w1 x hash w2 w3. create_invoice wire_lib 1 [7] pair_world = (w1, (x, hash)) \<and>
     route_htlc_payment wire_lib line_curve 0 ''Bob'' 30 hash 500 ''h'' (replicate 31 0 @ [1]) w1 = (w2, Inr True) \<and>
     fulfill_htlc wire_lib 1 ''Alice'' ''h'' x w2 = (w3, Inr True) \<and>
     get_balance (chans w3 ! 0) ''Bob'' = 30"
proof -
  let ?r = "replicate 31 0 @ [1] :: bytes"
  obtain w1 x hash where 1: "create_invoice wire_lib 1 [7] pair_world = (w1, (x, hash))"
    by (metis prod_cases3)
  obtain w2 r2 where 2: "route_htlc_payment wire_lib line_curve 0 (node_alias (nodes pair_world ! 1)) 30 hash 500 ''h'' ?r w1 = (w2, r2)"
    by fastforce
  obtain w3 r3 where 3: "fulfill_htlc wire_lib 1 (node_alias (nodes pair_world ! 0)) ''h'' x w2 = (w3, r3)"
    by fastforce
  have sec: "generate_revocation_secret line_curve ?r = Inr (?r, 2 # ?r)"
    by code_simp
  have start: "is_open (chans pair_world ! 0)" "dict_get (active_htlcs (chans pair_world ! 0)) ''h'' = None"
      "node_alias (nodes pair_world ! 0) = ''Alice''" "node_alias (nodes pair_world ! 1) = ''Bob''"
      "get_balance (chans pair_world ! 0) ''Alice'' = 100" "get_balance (chans pair_world ! 0) ''Bob'' = 0"
    by code_simp+
  have "r2 = Inr True \<and> r3 = Inr True \<and> get_balance (chans w3 ! 0) ''Bob'' = 30"
    using invoice_is_paid [OF pair_network pair_shares start(1,2) _ _ _ sec 1 2 3] start
    by (simp add: unhexlify_hexlify)
  with 1 2 3 start(3,4) show ?thesis by auto
qed

end
