(* ===== verification/PTLC.thy ===== *)
theory PTLC
  imports Taproot Transactions
begin

text \<open>
  \<open>protocols/ptlc.py\<close>: Schnorr adaptor signatures in the two variants of the module (plain SHA-256 challenge over
  compressed points, and BIP 340 challenge over x coordinates), their verification, adaptation and the extraction of the
  payment secret, and the Taproot settlement.  The PTLC script is in \<open>Contracts\<close>, its P2WSH settlement in
  \<open>Transactions\<close>.  Arguments that may be bytes or an integer are a datatype.
\<close>

section \<open>Signatures and arguments\<close>

record adaptor_signature =
  r_hex :: string
  s_prime_hex :: string
  payment_point_hex :: string

datatype sig_arg = SigNone | SigInt int | SigBytes bytes | SigAdaptor adaptor_signature

datatype key_arg = KeyInt int | KeyBytes bytes

definition r_prime :: "adaptor_signature \<Rightarrow> bytes res" where
  "r_prime a = bytes_fromhex (r_hex a)"

definition s_prime :: "adaptor_signature \<Rightarrow> int res" where
  "s_prime a = rbind (bytes_fromhex (s_prime_hex a)) (\<lambda>b. Inr (uint_be b))"

definition payment_point :: "adaptor_signature \<Rightarrow> bytes res" where
  "payment_point a = (if payment_point_hex a \<noteq> [] then bytes_fromhex (payment_point_hex a) else Inr [])"

text \<open>The private key as scalar and as the bytes that enter the nonce.\<close>

fun private_scalar :: "key_arg \<Rightarrow> int" where
  "private_scalar (KeyInt p) = p mod SECP256K1_ORDER"
| "private_scalar (KeyBytes b) = uint_be (take 32 b) mod SECP256K1_ORDER"

fun private_bytes :: "key_arg \<Rightarrow> bytes res" where
  "private_bytes (KeyInt p) = to_bytes_be 32 (p mod SECP256K1_ORDER)"
| "private_bytes (KeyBytes b) = Inr (take 32 b)"

definition adaptor_nonce :: "bytes \<Rightarrow> bytes \<Rightarrow> bytes \<Rightarrow> int" where
  "adaptor_nonce priv_bytes msg_hash payment_point_bytes =
     (let k_secret = hash_scalar (priv_bytes @ msg_hash @ payment_point_bytes) in if k_secret = 0 then 1 else k_secret)"

section \<open>Adaptor signatures\<close>

definition adaptor_challenge :: "bytes \<Rightarrow> bytes \<Rightarrow> bytes \<Rightarrow> int" where
  "adaptor_challenge R P msg_hash = hash_scalar (R @ P @ msg_hash)"

definition bip340_challenge :: "bytes \<Rightarrow> bytes \<Rightarrow> bytes \<Rightarrow> int" where
  "bip340_challenge r_x P_x msg_hash =
     uint_be (tagged_hash ''BIP0340/challenge'' (r_x @ P_x @ msg_hash)) mod SECP256K1_ORDER"

text \<open>
  Both signers differ in the challenge only; \<open>create_adaptor\<close> is their common body with the challenge as a function of
  the compressed points.
\<close>

definition create_adaptor ::
    "(bytes \<Rightarrow> bytes \<Rightarrow> bytes \<Rightarrow> int) \<Rightarrow> 'p eclib \<Rightarrow> key_arg \<Rightarrow> bytes \<Rightarrow> bytes \<Rightarrow> adaptor_signature res" where
  "create_adaptor challenge E private_key payment_point_bytes msg_hash =
     rbind (private_bytes private_key) (\<lambda>priv_bytes.
     let p_priv = private_scalar private_key in
     rbind (ec_point_mul E p_priv) (\<lambda>P_pub.
     let k_secret = adaptor_nonce priv_bytes msg_hash payment_point_bytes in
     rbind (ec_point_mul E k_secret) (\<lambda>R_point.
     rbind (ec_point_add E R_point payment_point_bytes) (\<lambda>R_prime_point.
     let e = challenge R_prime_point P_pub msg_hash;
         s_prime_scalar = (k_secret + e * p_priv) mod SECP256K1_ORDER in
     rbind (to_bytes_be 32 s_prime_scalar) (\<lambda>s_bytes.
       Inr \<lparr>r_hex = hexlify R_prime_point, s_prime_hex = hexlify s_bytes,
            payment_point_hex = hexlify payment_point_bytes\<rparr>)))))"

definition create_adaptor_signature :: "'p eclib \<Rightarrow> key_arg \<Rightarrow> bytes \<Rightarrow> bytes \<Rightarrow> adaptor_signature res" where
  "create_adaptor_signature = create_adaptor adaptor_challenge"

definition create_bip340_adaptor_signature :: "'p eclib \<Rightarrow> key_arg \<Rightarrow> bytes \<Rightarrow> bytes \<Rightarrow> adaptor_signature res" where
  "create_bip340_adaptor_signature =
     create_adaptor (\<lambda>R P. bip340_challenge (take 32 (drop 1 R)) (take 32 (drop 1 P)))"

text \<open>Every exception of the verification is answered with \<open>False\<close>.\<close>

definition except_false :: "bool res \<Rightarrow> bool" where
  "except_false r = (case r of Inl e \<Rightarrow> False | Inr b \<Rightarrow> b)"

lemma except_false_simps [simp]: "except_false (Inl e) = False" "except_false (Inr b) = b"
  by (simp_all add: except_false_def)

definition adaptor_point :: "adaptor_signature \<Rightarrow> bytes option \<Rightarrow> bytes res" where
  "adaptor_point a payment_point_bytes =
     (case payment_point_bytes of Some T \<Rightarrow> Inr T | None \<Rightarrow> bytes_fromhex (payment_point_hex a))"

definition verify_adaptor_signature :: "'p eclib \<Rightarrow> adaptor_signature \<Rightarrow> bytes \<Rightarrow> bytes \<Rightarrow> bytes option \<Rightarrow> bool" where
  "verify_adaptor_signature E a pubkey msg_hash payment_point_bytes =
     except_false
       (rbind (adaptor_point a payment_point_bytes) (\<lambda>T_point.
        rbind (r_prime a) (\<lambda>R_prime_point.
        rbind (s_prime a) (\<lambda>s.
        let e = adaptor_challenge R_prime_point pubkey msg_hash in
        rbind (ec_point_mul E s) (\<lambda>s_prime_G.
        rbind (ec_point_sub E R_prime_point T_point) (\<lambda>R_point.
        rbind (ec_scalar_mul_point E e pubkey) (\<lambda>e_P.
        rbind (ec_point_add E R_point e_P) (\<lambda>expected_point. Inr (s_prime_G = expected_point)))))))))"

definition verify_bip340_adaptor_signature :: "'p eclib \<Rightarrow> adaptor_signature \<Rightarrow> bytes \<Rightarrow> bytes \<Rightarrow> bytes option \<Rightarrow> bool" where
  "verify_bip340_adaptor_signature E a pubkey msg_hash payment_point_bytes =
     except_false
       (rbind (adaptor_point a payment_point_bytes) (\<lambda>T_point.
        rbind (r_prime a) (\<lambda>R_prime_point.
        let P_x = (if length pubkey = 33 then take 32 (drop 1 pubkey) else take 32 pubkey) in
        rbind (s_prime a) (\<lambda>s.
        let e = bip340_challenge (take 32 (drop 1 R_prime_point)) P_x msg_hash in
        rbind (ec_point_mul E s) (\<lambda>s_prime_G.
        rbind (ec_point_sub E R_prime_point T_point) (\<lambda>R_point.
        let P_comp = (if length pubkey = 33 then pubkey
                      else if length pubkey = 32 then 2 # pubkey else pubkey) in
        rbind (ec_scalar_mul_point E e P_comp) (\<lambda>e_P.
        rbind (ec_point_add E R_point e_P) (\<lambda>expected_point. Inr (s_prime_G = expected_point)))))))))"

text \<open>\<open>int.from_bytes(final_signature, "big") % N\<close>, the whole text whatever its length.\<close>

definition verify_schnorr_signature :: "'p eclib \<Rightarrow> bytes \<Rightarrow> bytes \<Rightarrow> bytes \<Rightarrow> key_arg \<Rightarrow> bool" where
  "verify_schnorr_signature E pubkey msg_hash r_point final_signature =
     except_false
       (let s = (case final_signature of KeyInt i \<Rightarrow> i mod SECP256K1_ORDER
                 | KeyBytes b \<Rightarrow> uint_be b mod SECP256K1_ORDER);
            e = adaptor_challenge r_point pubkey msg_hash in
        rbind (ec_point_mul E s) (\<lambda>s_G.
        rbind (ec_scalar_mul_point E e pubkey) (\<lambda>e_P.
        rbind (ec_point_add E r_point e_P) (\<lambda>expected. Inr (s_G = expected)))))"

definition adapt_signature :: "adaptor_signature \<Rightarrow> key_arg \<Rightarrow> bytes res" where
  "adapt_signature a secret_scalar =
     rbind (s_prime a) (\<lambda>s. to_bytes_be 32 ((s + private_scalar secret_scalar) mod SECP256K1_ORDER))"

definition adapt_bip340_signature :: "adaptor_signature \<Rightarrow> key_arg \<Rightarrow> bytes res" where
  "adapt_bip340_signature a secret_scalar =
     rbind (s_prime a) (\<lambda>s.
     rbind (r_prime a) (\<lambda>R.
     rbind (to_bytes_be 32 ((s + private_scalar secret_scalar) mod SECP256K1_ORDER)) (\<lambda>s_bytes.
       Inr (take 32 (drop 1 R) @ s_bytes))))"

text \<open>
  The two scalars \<open>extract_adaptor_secret\<close> subtracts: the final signature and the adaptor's, in one order after an
  \<open>AdaptorSignature\<close>, in the other otherwise.  A value that can neither be sliced nor used as a number is a TypeError.
\<close>

fun extract_scalars :: "sig_arg \<Rightarrow> sig_arg \<Rightarrow> (int \<times> int) res" where
  "extract_scalars (SigAdaptor a) y =
     rbind (s_prime a) (\<lambda>sp.
       case y of SigInt s \<Rightarrow> Inr (s, sp) | SigBytes b \<Rightarrow> Inr (uint_be (take 32 b), sp) | _ \<Rightarrow> Inl TypeError)"
| "extract_scalars x y =
     rbind (case x of SigInt s \<Rightarrow> Inr s | SigBytes b \<Rightarrow> Inr (uint_be (take 32 b)) | _ \<Rightarrow> Inl TypeError) (\<lambda>s.
       case y of
         SigInt sp \<Rightarrow> Inr (s, sp)
       | SigBytes b \<Rightarrow> Inr (s, uint_be (take 32 b))
       | SigAdaptor a \<Rightarrow> rbind (s_prime a) (\<lambda>sp. Inr (s, sp))
       | SigNone \<Rightarrow> Inl TypeError)"

definition extract_adaptor_secret :: "sig_arg \<Rightarrow> sig_arg \<Rightarrow> bytes res" where
  "extract_adaptor_secret x y =
     rbind (extract_scalars x y) (\<lambda>(s, sp). to_bytes_be 32 ((s - sp) mod SECP256K1_ORDER))"

definition create_taproot_ptlc_settlement_transaction ::
    "btclib \<Rightarrow> string \<Rightarrow> int \<Rightarrow> bytes \<Rightarrow> int \<Rightarrow> bytes \<Rightarrow> tx res" where
  "create_taproot_ptlc_settlement_transaction L funding_txid funding_vout claimer_pubkey_x amount_sat schnorr_sig_64 =
     rbind (create_p2tr L claimer_pubkey_x) (\<lambda>p2tr_spk.
     rbind (add_input L funding_txid funding_vout 0xFFFFFFFF (TransactionBuilder 0)) (\<lambda>b.
       let b = add_output amount_sat p2tr_spk b
       in Inr (build (if schnorr_sig_64 \<noteq> [] then add_witness_stack [schnorr_sig_64] b else b))))"

section \<open>Scalars as 32 bytes\<close>

lemma scalar_bytes_ok: "\<exists>b. to_bytes_be 32 (i mod SECP256K1_ORDER) = Inr b \<and> uint_be b = i mod SECP256K1_ORDER \<and> length b = 32"
proof -
  have "0 \<le> i mod SECP256K1_ORDER" by simp
  moreover have "i mod SECP256K1_ORDER < 256 ^ 32"
    by (rule less_trans [OF pos_mod_bound [OF order_pos] order_less])
  ultimately obtain b where "to_bytes_be 32 (i mod SECP256K1_ORDER) = Inr b" "length b = 32"
    using to_bytes_be_ok by blast
  then show ?thesis using to_bytes_be_roundtrip by blast
qed

lemma private_scalar_mod [simp]: "private_scalar k mod SECP256K1_ORDER = private_scalar k"
  by (cases k) simp_all

lemma private_bytes_ok: "\<exists>b. private_bytes k = Inr b"
  using scalar_bytes_ok by (cases k) auto

lemma adaptor_nonce_mod: "adaptor_nonce b m T mod SECP256K1_ORDER = adaptor_nonce b m T"
  and adaptor_nonce_nonzero: "adaptor_nonce b m T \<noteq> 0"
  by (simp_all add: adaptor_nonce_def hash_scalar_def Let_def SECP256K1_ORDER_def)

text \<open>What an adapted signature gives away: the difference of the scalars.\<close>

lemma extract_adapted:
  assumes "adapt_signature a t = Inr s"
  shows "extract_adaptor_secret (SigAdaptor a) (SigBytes s) = to_bytes_be 32 (private_scalar t)"
proof -
  obtain sp where sp: "s_prime a = Inr sp" and s: "to_bytes_be 32 ((sp + private_scalar t) mod SECP256K1_ORDER) = Inr s"
    using assms by (auto simp: adapt_signature_def rbind_eq_Inr)
  have "length s = 32" and u: "uint_be s = (sp + private_scalar t) mod SECP256K1_ORDER"
    using s by (simp_all add: length_to_bytes_be to_bytes_be_roundtrip)
  moreover have "((sp + private_scalar t) mod SECP256K1_ORDER - sp) mod SECP256K1_ORDER = private_scalar t"
    by (metis add_diff_cancel_left' mod_diff_left_eq private_scalar_mod)
  ultimately show ?thesis by (simp add: extract_adaptor_secret_def sp)
qed

section \<open>Signatures over the group\<close>

context curve_group
begin

text \<open>The signing equation: with the scalar \<open>k + e p\<close> both sides are the same point.\<close>

lemma schnorr_equation:
  assumes P: "pub p = Inr P" and R: "pub r = Inr R" and e: "e mod SECP256K1_ORDER \<noteq> 0"
    and ep: "(e * p) mod SECP256K1_ORDER \<noteq> 0" and s: "s mod SECP256K1_ORDER = (r + e * p) mod SECP256K1_ORDER"
    and s0: "s mod SECP256K1_ORDER \<noteq> 0"
  shows "\<exists>q x. ec_point_mul E s = Inr q \<and> ec_scalar_mul_point E e P = Inr x \<and> ec_point_add E R x = Inr q"
proof -
  obtain x where x: "pub (e * p) = Inr x" using pub_ok [OF ep] by blast
  obtain q where q: "pub s = Inr q" using pub_ok [OF s0] by blast
  have "ec_scalar_mul_point E e P = Inr x" using scalar_mul_point [OF e P] x by simp
  moreover have "ec_point_add E R x = pub (r + e * p)" by (rule point_add [OF R x])
  moreover have "pub (r + e * p) = Inr q" using pub_cong [OF s] q by simp
  ultimately show ?thesis using point_mul [OF s0] q by auto
qed

lemma create_adaptor_ok:
  assumes "private_scalar key \<noteq> 0" and "pub (private_scalar key) = Inr P" and "pub t = Inr T"
    and "private_bytes key = Inr kb" and "(adaptor_nonce kb m T + t) mod SECP256K1_ORDER \<noteq> 0"
  shows "\<exists>R sb. create_adaptor ch E key T m =
      Inr \<lparr>r_hex = hexlify R, s_prime_hex = hexlify sb, payment_point_hex = hexlify T\<rparr> \<and>
    pub (adaptor_nonce kb m T + t) = Inr R \<and>
    uint_be sb = (adaptor_nonce kb m T + ch R P m * private_scalar key) mod SECP256K1_ORDER"
proof -
  let ?k = "adaptor_nonce kb m T"
  obtain R where R: "pub (?k + t) = Inr R" using pub_ok [OF assms(5)] by blast
  have k: "?k mod SECP256K1_ORDER \<noteq> 0" by (simp add: adaptor_nonce_mod adaptor_nonce_nonzero)
  then obtain K where K: "pub ?k = Inr K" using pub_ok by blast
  obtain sb where sb: "to_bytes_be 32 ((?k + ch R P m * private_scalar key) mod SECP256K1_ORDER) = Inr sb"
    and "uint_be sb = (?k + ch R P m * private_scalar key) mod SECP256K1_ORDER"
    using scalar_bytes_ok by blast
  moreover have "ec_point_mul E (private_scalar key) = Inr P"
    using point_mul [of "private_scalar key"] assms(1,2) by simp
  moreover have "ec_point_mul E ?k = Inr K" using point_mul [OF k] K by simp
  moreover have "ec_point_add E K T = Inr R" using point_add [OF K assms(3)] R by simp
  ultimately show ?thesis
    using R assms(4) by (intro exI [of _ R] exI [of _ sb]) (simp add: create_adaptor_def)
qed

lemma adaptor_verifies:
  assumes "pub p = Inr P" and "pub t = Inr T" and "pub (k + t) = Inr R" and "t mod SECP256K1_ORDER \<noteq> 0"
    and "uint_be sb = (k + e * p) mod SECP256K1_ORDER" and "uint_be sb \<noteq> 0"
    and "e = adaptor_challenge R P m" and "(e * p) mod SECP256K1_ORDER \<noteq> 0" and "k mod SECP256K1_ORDER \<noteq> 0"
  shows "verify_adaptor_signature E
    \<lparr>r_hex = hexlify R, s_prime_hex = hexlify sb, payment_point_hex = hexlify T\<rparr> P m None"
proof -
  obtain K where K: "pub k = Inr K" using pub_ok [OF assms(9)] by blast
  have sub: "ec_point_sub E R T = Inr K"
    using point_sub [OF assms(3,2,4)] K by simp
  have e0: "e mod SECP256K1_ORDER \<noteq> 0" using assms(8) by (metis mod_mult_left_eq mult_zero_left mod_0)
  have s: "uint_be sb mod SECP256K1_ORDER = (k + e * p) mod SECP256K1_ORDER" "uint_be sb mod SECP256K1_ORDER \<noteq> 0"
    using assms(5,6) by simp_all
  from schnorr_equation [OF assms(1) K e0 assms(8) s] sub show ?thesis
    by (auto simp: verify_adaptor_signature_def adaptor_point_def r_prime_def s_prime_def assms(7))
qed

lemma schnorr_verifies:
  assumes "pub p = Inr P" and "pub r = Inr R"
    and "uint_be sb = (r + e * p) mod SECP256K1_ORDER" and "uint_be sb \<noteq> 0"
    and "e = adaptor_challenge R P m" and "(e * p) mod SECP256K1_ORDER \<noteq> 0"
  shows "verify_schnorr_signature E P m R (KeyBytes sb)"
proof -
  have e0: "e mod SECP256K1_ORDER \<noteq> 0" using assms(6) by (metis mod_mult_left_eq mult_zero_left mod_0)
  have s: "uint_be sb mod SECP256K1_ORDER = (r + e * p) mod SECP256K1_ORDER" "uint_be sb mod SECP256K1_ORDER \<noteq> 0"
    using assms(3,4) by simp_all
  from schnorr_equation [OF assms(1,2) e0 assms(6) s] s(1) assms(3) show ?thesis
    by (auto simp: verify_schnorr_signature_def Let_def assms(5))
qed

end

section \<open>Properties\<close>

lemma adaptor_completes:
  assumes E: "curve_group E" and p: "private_scalar key \<noteq> 0" and t: "t mod SECP256K1_ORDER \<noteq> 0"
    and P: "ec_point_mul E (private_scalar key) = Inr P" and T: "ec_point_mul E t = Inr T"
    and kb: "private_bytes key = Inr kb" and kt: "(adaptor_nonce kb m T + t) mod SECP256K1_ORDER \<noteq> 0"
  shows "\<exists>a s R. create_adaptor_signature E key T m = Inr a \<and> r_prime a = Inr R \<and>
      adapt_signature a (KeyInt t) = Inr s \<and>
      extract_adaptor_secret (SigAdaptor a) (SigBytes s) = to_bytes_be 32 (t mod SECP256K1_ORDER) \<and>
      (adaptor_challenge R P m * private_scalar key mod SECP256K1_ORDER = 0 \<or> s_prime a = Inr 0 \<or>
        verify_adaptor_signature E a P m None) \<and>
      (adaptor_challenge R P m * private_scalar key mod SECP256K1_ORDER = 0 \<or> uint_be s = 0 \<or>
        verify_schnorr_signature E P m R (KeyBytes s))"
proof -
  let ?k = "adaptor_nonce kb m T" and ?p = "private_scalar key"
  have pub: "curve_group.pub E ?p = Inr P" "curve_group.pub E t = Inr T"
    using P T curve_group.point_mul [OF E, of ?p] curve_group.point_mul [OF E t] p by simp_all
  obtain R sb where R: "curve_group.pub E (?k + t) = Inr R"
    and a: "create_adaptor_signature E key T m =
      Inr \<lparr>r_hex = hexlify R, s_prime_hex = hexlify sb, payment_point_hex = hexlify T\<rparr>"
    and sb: "uint_be sb = (?k + adaptor_challenge R P m * ?p) mod SECP256K1_ORDER"
    using curve_group.create_adaptor_ok [OF E p pub kb kt] unfolding create_adaptor_signature_def by blast
  let ?a = "\<lparr>r_hex = hexlify R, s_prime_hex = hexlify sb, payment_point_hex = hexlify T\<rparr>"
  let ?e = "adaptor_challenge R P m"
  have k: "?k mod SECP256K1_ORDER \<noteq> 0" by (simp add: adaptor_nonce_mod adaptor_nonce_nonzero)
  obtain s where s: "adapt_signature ?a (KeyInt t) = Inr s"
    and us: "uint_be s = (uint_be sb + t mod SECP256K1_ORDER) mod SECP256K1_ORDER"
    using scalar_bytes_ok [of "uint_be sb + t mod SECP256K1_ORDER"] by (auto simp: adapt_signature_def s_prime_def)
  have us': "uint_be s = (?k + t + ?e * ?p) mod SECP256K1_ORDER"
    by (simp add: us sb mod_simps) (simp add: algebra_simps)
  have "verify_adaptor_signature E ?a P m None" if "?e * ?p mod SECP256K1_ORDER \<noteq> 0" "uint_be sb \<noteq> 0"
    using curve_group.adaptor_verifies [OF E pub R t sb that(2) refl that(1) k] .
  moreover have "verify_schnorr_signature E P m R (KeyBytes s)"
    if "?e * ?p mod SECP256K1_ORDER \<noteq> 0" "uint_be s \<noteq> 0"
    using curve_group.schnorr_verifies [OF E pub(1) R us' that(2) refl that(1)] .
  moreover have "extract_adaptor_secret (SigAdaptor ?a) (SigBytes s) = to_bytes_be 32 (t mod SECP256K1_ORDER)"
    using extract_adapted [OF s] by simp
  ultimately show ?thesis
    using a s by (intro exI [of _ ?a] exI [of _ s] exI [of _ R]) (auto simp: r_prime_def s_prime_def)
qed

text \<open>Property C24: adaptor signatures work, over any group with the laws of the curve.  For a non-zero key and payment
  secret the signer's adaptor signature verifies against key, message and payment point; adapted with the secret it is a
  Schnorr signature that verifies; and whoever has both extracts exactly the secret.  The exceptions are the scalars that
  happen to be zero modulo the group order: nonce plus secret, challenge times key, and the signature itself.\<close>

theorem adaptor_signature_completes:
  assumes "curve_group E" and "private_scalar key \<noteq> 0" and "t mod SECP256K1_ORDER \<noteq> 0"
    and "ec_point_mul E (private_scalar key) = Inr P" and "ec_point_mul E t = Inr T" and "private_bytes key = Inr kb"
  shows "(adaptor_nonce kb m T + t) mod SECP256K1_ORDER = 0 \<or>
    (\<exists>a s R. create_adaptor_signature E key T m = Inr a \<and> r_prime a = Inr R \<and>
      adapt_signature a (KeyInt t) = Inr s \<and>
      extract_adaptor_secret (SigAdaptor a) (SigBytes s) = to_bytes_be 32 (t mod SECP256K1_ORDER) \<and>
      (adaptor_challenge R P m * private_scalar key mod SECP256K1_ORDER = 0 \<or> s_prime a = Inr 0 \<or>
        verify_adaptor_signature E a P m None) \<and>
      (adaptor_challenge R P m * private_scalar key mod SECP256K1_ORDER = 0 \<or> uint_be s = 0 \<or>
        verify_schnorr_signature E P m R (KeyBytes s)))"
  using adaptor_completes [OF assms] by blast

theorem adaptor_signature_completes_witness:
  "\<exists>P T kb. ec_point_mul line_curve 5 = Inr P \<and> ec_point_mul line_curve 7 = Inr T \<and>
    ((adaptor_nonce kb [1] T + 7) mod SECP256K1_ORDER = 0 \<or>
     (\<exists>a s. create_adaptor_signature line_curve (KeyInt 5) T [1] = Inr a \<and>
        adapt_signature a (KeyInt 7) = Inr s \<and>
        extract_adaptor_secret (SigAdaptor a) (SigBytes s) = to_bytes_be 32 (7 mod SECP256K1_ORDER)))"
proof -
  have key: "private_scalar (KeyInt 5) = 5" and 7: "7 mod SECP256K1_ORDER \<noteq> 0"
    by (simp_all add: SECP256K1_ORDER_def)
  obtain P T where P: "ec_point_mul line_curve 5 = Inr P" and T: "ec_point_mul line_curve 7 = Inr T"
    using line.point_mul [of 5] line.point_mul [of 7] line.pub_ok [of 5] line.pub_ok [of 7]
    by (auto simp: SECP256K1_ORDER_def)
  obtain kb where kb: "private_bytes (KeyInt 5) = Inr kb" using private_bytes_ok by blast
  have "curve_group line_curve" ..
  note this_one = adaptor_signature_completes [OF this, of "KeyInt 5" 7 P T kb "[1]", unfolded key]
  show ?thesis using this_one [OF _ 7 P T kb] P T by (metis zero_neq_numeral)
qed

end
