(* ===== verification/Stream_Cipher.thy ===== *)
theory Stream_Cipher
  imports Sha256
begin

text \<open>
  The symmetric primitives of \<open>protocols/sphinx.py\<close>.  \<open>hmac_sha256\<close> is the standard library's
  \<open>hmac.new(key, m, "sha256")\<close>.  The ChaCha20 key stream comes from the package \<open>cryptography\<close> and is a parameter of the
  onion's definitions; what they rely on is the locale \<open>key_stream\<close>: a stream has the length asked for, and a longer
  one extends a shorter one.  The cipher of RFC 8439 with zero counter and nonce is an instance.
\<close>

section \<open>HMAC\<close>

definition hmac_key :: "bytes \<Rightarrow> bytes" where
  "hmac_key key =
     (let k = (if 64 < length key then sha256 key else key) in k @ replicate (64 - length k) 0)"

definition hmac_sha256 :: "bytes \<Rightarrow> bytes \<Rightarrow> bytes" where
  "hmac_sha256 key msg =
     (let k = hmac_key key
      in sha256 (map (\<lambda>b. b XOR 0x5c) k @ sha256 (map (\<lambda>b. b XOR 0x36) k @ msg)))"

lemma length_hmac_sha256 [simp]: "length (hmac_sha256 key msg) = 32"
  by (simp add: hmac_sha256_def Let_def)

section \<open>Key streams\<close>

type_synonym stream_cipher = "bytes \<Rightarrow> nat \<Rightarrow> bytes"

locale key_stream =
  fixes stream :: stream_cipher
  assumes length_stream: "length key = 32 \<Longrightarrow> length (stream key n) = n"
    and take_stream: "length key = 32 \<Longrightarrow> n \<le> m \<Longrightarrow> take n (stream key m) = stream key n"
begin

lemma nth_stream: "length key = 32 \<Longrightarrow> i < n \<Longrightarrow> n \<le> m \<Longrightarrow> stream key m ! i = stream key n ! i"
  by (metis take_stream nth_take)

lemma xor_stream_cancel: "length key = 32 \<Longrightarrow> length a \<le> n \<Longrightarrow> bytes_xor (bytes_xor a (stream key n)) (stream key n) = a"
  by (simp add: length_stream)

end

section \<open>ChaCha20\<close>

definition rotl :: "nat \<Rightarrow> w32 \<Rightarrow> w32" where
  "rotl n w = rotr (32 - n) w"

text \<open>A quarter round on the words at four positions of the state.\<close>

definition quarter :: "nat \<Rightarrow> nat \<Rightarrow> nat \<Rightarrow> nat \<Rightarrow> w32 list \<Rightarrow> w32 list" where
  "quarter i j k l s =
     (let a = s ! i + s ! j; d = rotl 16 (s ! l XOR a);
          c = s ! k + d;     b = rotl 12 (s ! j XOR c);
          a = a + b;         d = rotl 8 (d XOR a);
          c = c + d;         b = rotl 7 (b XOR c)
      in s[i := a, j := b, k := c, l := d])"

definition double_round :: "w32 list \<Rightarrow> w32 list" where
  "double_round =
     quarter 3 4 9 14 \<circ> quarter 2 7 8 13 \<circ> quarter 1 6 11 12 \<circ> quarter 0 5 10 15 \<circ>
     quarter 3 7 11 15 \<circ> quarter 2 6 10 14 \<circ> quarter 1 5 9 13 \<circ> quarter 0 4 8 12"

fun le_words :: "bytes \<Rightarrow> w32 list" where
  "le_words (a # b # c # d # bs) = word_of_bytes [d, c, b, a] # le_words bs"
| "le_words _ = []"

definition chacha_block :: "bytes \<Rightarrow> nat \<Rightarrow> bytes" where
  "chacha_block key counter =
     (let s = [0x61707865, 0x3320646e, 0x79622d32, 0x6b206574] @ le_words key @ [word_of_nat counter, 0, 0, 0];
          t = (double_round ^^ 10) s
      in concat (map (\<lambda>(x, y). rev (bytes_of_word (x + y))) (zip s t)))"

definition chacha20 :: stream_cipher where
  "chacha20 key n = take n (concat (map (chacha_block key) [0..<(n + 63) div 64]))"

text \<open>The test vector of RFC 8439, section 2.1.1.\<close>

lemma quarter_test:
  "quarter 0 1 2 3 [0x11111111, 0x01020304, 0x9b8d6f43, 0x01234567] = [0xea2a92f4, 0xcb1cf8ce, 0x4581472e, 0x5881c4bb]"
  by code_simp

lemma length_le_words: "length (le_words bs) = length bs div 4"
  by (induction bs rule: le_words.induct) auto

lemma length_quarter [simp]: "length (quarter i j k l s) = length s"
  by (simp add: quarter_def Let_def)

lemma length_double_rounds: "length ((double_round ^^ n) s) = length s"
  by (induction n) (simp_all add: double_round_def)

lemma length_words_bytes: "length (concat (map (\<lambda>(x, y). rev (bytes_of_word (x + y))) zs)) = 4 * length zs"
  by (induction zs) (auto simp: bytes_of_word_def)

lemma length_chacha_block: "length key = 32 \<Longrightarrow> length (chacha_block key counter) = 64"
  unfolding chacha_block_def Let_def length_words_bytes length_zip length_double_rounds
  by (simp add: length_le_words)

interpretation cc: key_stream chacha20
proof unfold_locales
  fix key :: bytes and n :: nat
  assume key: "length key = 32"
  have len: "length (concat (map (chacha_block key) ns)) = 64 * length ns" for ns
    by (induction ns) (simp_all add: length_chacha_block [OF key])
  show "length (chacha20 key n) = n"
    by (simp add: chacha20_def len)
  fix m
  assume "n \<le> m"
  then have "(n + 63) div 64 \<le> (m + 63) div 64" by (intro div_le_mono) simp
  then have "[0..<(m + 63) div 64] = [0..<(n + 63) div 64] @ [(n + 63) div 64..<(m + 63) div 64]"
    by (metis le_add_diff_inverse upt_add_eq_append zero_le)
  moreover have "n \<le> length (concat (map (chacha_block key) [0..<(n + 63) div 64]))"
    by (simp add: len)
  ultimately show "take n (chacha20 key m) = chacha20 key n"
    using \<open>n \<le> m\<close> by (simp add: chacha20_def min_def)
qed

end
