(* ===== verification/Sphinx.thy ===== *)
theory Sphinx
  imports Node Text Stream_Cipher
begin

text \<open>
  The fixed-size onion packets of \<open>protocols/sphinx.py\<close> (BOLT 4): derivation of the shared secrets along the route with
  blinding of the ephemeral key, the filler, wrapping from the last hop to the first, and unwrapping at one hop.  The key
  stream is a parameter with the laws of the locale \<open>key_stream\<close>, the curve one with those of \<open>curve_group\<close>.  Fresh keys
  take their random bytes as an argument, one string per key that may be generated.
\<close>

section \<open>Packets\<close>

abbreviation (input) "SPHINX_HEADER_BYTES \<equiv> (32 :: nat)"

definition BOLT4_ROUTING_INFO_SIZE :: nat where
  "BOLT4_ROUTING_INFO_SIZE = 1300"

definition BOLT4_HEADER_SIZE :: nat where
  "BOLT4_HEADER_SIZE = 1 + 33 + BOLT4_ROUTING_INFO_SIZE + SPHINX_HEADER_BYTES"

definition BOLT4_HOP_PAYLOAD_SIZE :: nat where
  "BOLT4_HOP_PAYLOAD_SIZE = 65"

lemmas bolt4_sizes = BOLT4_ROUTING_INFO_SIZE_def BOLT4_HEADER_SIZE_def BOLT4_HOP_PAYLOAD_SIZE_def

record sphinx_payload =
  sp_next_hop :: string
  sp_amount_sat :: int
  sp_cltv_locktime :: int

record sphinx_packet =
  ephemeral_key_hex :: string
  routing_info_hex :: string
  hmac_hex :: string
  sphinx_version :: int

definition is_bolt4_binary :: "sphinx_packet \<Rightarrow> bool" where
  "is_bolt4_binary p \<longleftrightarrow> length (routing_info_hex p) = BOLT4_ROUTING_INFO_SIZE * 2"

definition to_binary :: "sphinx_packet \<Rightarrow> bytes res" where
  "to_binary p =
     (if sphinx_version p < 0 \<or> 256 \<le> sphinx_version p then Inl ValueError
      else
        rbind (bytes_fromhex (ephemeral_key_hex p)) (\<lambda>ephem_bytes.
        rbind (bytes_fromhex (routing_info_hex p)) (\<lambda>routing_bytes.
        rbind (bytes_fromhex (hmac_hex p)) (\<lambda>hmac_bytes.
          Inr (word_of_int (sphinx_version p) # ephem_bytes @ routing_bytes @ hmac_bytes)))))"

definition from_binary :: "bytes \<Rightarrow> sphinx_packet res" where
  "from_binary data =
     (if length data \<noteq> BOLT4_HEADER_SIZE then Inl ValueError
      else Inr \<lparr>ephemeral_key_hex = hexlify (py_slice 1 34 data), routing_info_hex = hexlify (py_slice 34 1334 data),
                hmac_hex = hexlify (py_slice 1334 1366 data), sphinx_version = uint (data ! 0)\<rparr>)"

section \<open>Secrets\<close>

datatype secret_arg = SecText string | SecBytes bytes

definition derive_shared_secret :: "btclib \<Rightarrow> 'p eclib \<Rightarrow> secret_arg \<Rightarrow> bytes \<Rightarrow> bytes res" where
  "derive_shared_secret L E sec pubkey =
     rbind (case sec of SecText w \<Rightarrow> lib_wif L w | SecBytes b \<Rightarrow> Inr b) (\<lambda>sec_bytes.
     let priv_scalar = uint_be (take 32 sec_bytes) in
     rbind (ec_scalar_mul_point E priv_scalar pubkey) (\<lambda>shared_point. Inr (sha256 shared_point)))"

definition compute_hmac :: "bytes \<Rightarrow> bytes \<Rightarrow> string" where
  "compute_hmac key message = hexlify (hmac_sha256 key message)"

definition chacha20_xor :: "stream_cipher \<Rightarrow> bytes \<Rightarrow> bytes \<Rightarrow> bytes" where
  "chacha20_xor stream key data = bytes_xor data (stream key (length data))"

definition rho_key :: "bytes \<Rightarrow> bytes" where
  "rho_key shared_secret = sha256 (byte_lit ''rho'' @ shared_secret)"

definition mu_key :: "bytes \<Rightarrow> bytes" where
  "mu_key shared_secret = sha256 (byte_lit ''mu'' @ shared_secret)"

lemma length_keys [simp]: "length (rho_key ss) = 32" "length (mu_key ss) = 32"
  by (simp_all add: rho_key_def mu_key_def)

text \<open>The blinding factor of a hop, never zero.\<close>

definition blind_scalar :: "bytes \<Rightarrow> bytes \<Rightarrow> int" where
  "blind_scalar ephem shared_secret =
     (let b = hash_scalar (ephem @ shared_secret) in if b = 0 then 1 else b)"

lemma blind_scalar_mod: "blind_scalar e ss mod SECP256K1_ORDER = blind_scalar e ss"
  and blind_scalar_nonzero: "blind_scalar e ss \<noteq> 0"
  by (simp_all add: blind_scalar_def hash_scalar_def Let_def SECP256K1_ORDER_def)

section \<open>Public keys of the route\<close>

datatype pubkey_arg = PubBytes bytes | PubText string

definition parse_node_pubkey :: "btclib \<Rightarrow> pubkey_arg \<Rightarrow> bytes \<Rightarrow> bytes res" where
  "parse_node_pubkey L val random_bytes =
     (case val of
        PubBytes b \<Rightarrow>
          if length b = 33 then Inr b
          else if length b = 32
          then rbind (generate_keypair L (Some (lib_wif_text L b)) random_bytes) (\<lambda>(sec, pub). Inr pub)
          else Inl ValueError
      | PubText s \<Rightarrow>
          if length s = 66 then bytes_fromhex s
          else rbind (generate_keypair L (Some s) random_bytes) (\<lambda>(sec, pub). Inr pub))"

definition node_pub_of :: "btclib \<Rightarrow> (string, pubkey_arg) pydict \<Rightarrow> string \<Rightarrow> bytes \<Rightarrow> bytes res" where
  "node_pub_of L node_pubkeys node_name random_bytes =
     (case dict_get node_pubkeys node_name of
        None \<Rightarrow> Inl KeyError
      | Some val \<Rightarrow> parse_node_pubkey L val random_bytes)"

text \<open>A hop: the node, the next node it is told, the amount and the locktime.\<close>

type_synonym hop = "string \<times> string \<times> int \<times> int"

text \<open>
  The loop along the route: the ephemeral key each hop will see and the secret shared with it.
\<close>

fun derive_hops ::
    "btclib \<Rightarrow> 'p eclib \<Rightarrow> (string, pubkey_arg) pydict \<Rightarrow> hop list \<Rightarrow> bytes list \<Rightarrow> int \<Rightarrow> bytes \<Rightarrow> (bytes \<times> bytes) list res"
where
  "derive_hops L E node_pubkeys [] randoms d_current E_current = Inr []"
| "derive_hops L E node_pubkeys ((node_name, _) # hs) randoms d_current E_current =
     rbind (node_pub_of L node_pubkeys node_name (hd randoms)) (\<lambda>node_pub.
     rbind (ec_scalar_mul_point E d_current node_pub) (\<lambda>shared_point.
     let ss = sha256 shared_point;
         d_next = (d_current * blind_scalar E_current ss) mod SECP256K1_ORDER in
     rbind (ec_point_mul E d_next) (\<lambda>E_next.
     rbind (derive_hops L E node_pubkeys hs (tl randoms) d_next E_next) (\<lambda>rest.
       Inr ((E_current, ss) # rest)))))"

section \<open>The filler\<close>

definition max_hops :: nat where
  "max_hops = 20"

definition filler_size :: nat where
  "filler_size = (max_hops + 1) * BOLT4_HOP_PAYLOAD_SIZE"

definition filler_step :: "stream_cipher \<Rightarrow> bytes \<Rightarrow> bytes \<Rightarrow> bytes" where
  "filler_step stream shared_secret filler =
     bytes_xor (drop BOLT4_HOP_PAYLOAD_SIZE filler @ replicate BOLT4_HOP_PAYLOAD_SIZE 0)
       (stream (rho_key shared_secret) filler_size)"

definition generate_bolt4_filler :: "stream_cipher \<Rightarrow> nat \<Rightarrow> bytes list \<Rightarrow> bytes" where
  "generate_bolt4_filler stream num_hops shared_secrets =
     slice_from ((int max_hops - int num_hops + 2) * int BOLT4_HOP_PAYLOAD_SIZE)
       (fold (filler_step stream) (take (num_hops - 1) shared_secrets) (replicate filler_size 0))"

section \<open>Wrapping\<close>

definition hop_payload :: "hop \<Rightarrow> bytes \<Rightarrow> bytes res" where
  "hop_payload h next_hmac =
     (case h of (node_name, next_hop, amount, cltv) \<Rightarrow>
        rbind (to_bytes_be 8 amount) (\<lambda>amt_b.
        rbind (to_bytes_be 4 cltv) (\<lambda>cltv_b.
          Inr ([0] @ ljust 16 0 (take 16 (utf8_encode next_hop)) @ amt_b @ cltv_b @ replicate 4 0 @ next_hmac))))"

definition wrap_layer ::
    "stream_cipher \<Rightarrow> bytes \<Rightarrow> bool \<Rightarrow> hop \<Rightarrow> bytes \<Rightarrow> bytes \<times> bytes \<Rightarrow> (bytes \<times> bytes) res" where
  "wrap_layer stream filler is_last h shared_secret inner =
     (case inner of (mix_header, next_hmac) \<Rightarrow>
        rbind (hop_payload h next_hmac) (\<lambda>payload.
          let mix_header = payload @ take (length mix_header - BOLT4_HOP_PAYLOAD_SIZE) mix_header;
              mix_header = bytes_xor mix_header (stream (rho_key shared_secret) BOLT4_ROUTING_INFO_SIZE);
              mix_header = (if is_last \<and> filler \<noteq> []
                            then slice_to (int BOLT4_ROUTING_INFO_SIZE - int (length filler)) mix_header @ filler
                            else mix_header)
          in Inr (mix_header, hmac_sha256 (mu_key shared_secret) mix_header)))"

text \<open>The layers from the last hop to the first.\<close>

fun wrap_layers :: "stream_cipher \<Rightarrow> bytes \<Rightarrow> bytes \<Rightarrow> (hop \<times> bytes) list \<Rightarrow> (bytes \<times> bytes) res" where
  "wrap_layers stream filler mix_header [] = Inr (mix_header, replicate 32 0)"
| "wrap_layers stream filler mix_header ((h, ss) # layers) =
     rbind (wrap_layers stream filler mix_header layers)
       (wrap_layer stream filler (layers = []) h ss)"

text \<open>The ephemeral key is generated from the first string of random bytes.\<close>

definition create_bolt4_binary_packet ::
    "btclib \<Rightarrow> 'p eclib \<Rightarrow> stream_cipher \<Rightarrow> hop list \<Rightarrow> (string, pubkey_arg) pydict \<Rightarrow> bytes \<Rightarrow> bytes list \<Rightarrow> sphinx_packet res"
where
  "create_bolt4_binary_packet L E stream hs node_pubkeys session_random randoms =
     rbind (generate_keypair L None session_random) (\<lambda>(ephemeral_sec, ephemeral_pub).
     let session_key = take 32 ephemeral_sec; d = uint_be session_key mod SECP256K1_ORDER in
     rbind (derive_hops L E node_pubkeys hs randoms d ephemeral_pub) (\<lambda>derived.
     let filler = generate_bolt4_filler stream (length hs) (map snd derived);
         mix_header = stream (sha256 (byte_lit ''pad'' @ session_key)) BOLT4_ROUTING_INFO_SIZE in
     rbind (wrap_layers stream filler mix_header (zip hs (map snd derived))) (\<lambda>(mix_header, next_hmac).
       case derived of
         [] \<Rightarrow> Inl IndexError
       | (ephem, _) # _ \<Rightarrow>
           Inr \<lparr>ephemeral_key_hex = hexlify ephem, routing_info_hex = hexlify mix_header,
                hmac_hex = hexlify next_hmac, sphinx_version = 0\<rparr>)))"

section \<open>Unwrapping\<close>

definition unwrap_bolt4_binary_packet ::
    "btclib \<Rightarrow> 'p eclib \<Rightarrow> stream_cipher \<Rightarrow> sphinx_packet \<Rightarrow> string \<Rightarrow> bytes \<Rightarrow> (sphinx_payload \<times> sphinx_packet option) res"
where
  "unwrap_bolt4_binary_packet L E stream packet node_wif_key random_bytes =
     rbind (generate_keypair L (Some node_wif_key) random_bytes) (\<lambda>(node_sec, _).
     rbind (bytes_fromhex (ephemeral_key_hex packet)) (\<lambda>ephem_pub.
     rbind (derive_shared_secret L E (SecBytes node_sec) ephem_pub) (\<lambda>shared_secret.
     rbind (bytes_fromhex (routing_info_hex packet)) (\<lambda>routing_bytes.
     let expected_hmac = hmac_sha256 (mu_key shared_secret) routing_bytes in
     rbind (bytes_fromhex (hmac_hex packet)) (\<lambda>hmac_bytes.
     if hmac_bytes \<noteq> expected_hmac then Inl PaymentCommunityError
     else
       let padded = routing_bytes @ replicate BOLT4_ROUTING_INFO_SIZE 0;
           unwrapped = bytes_xor padded (stream (rho_key shared_secret) (2 * BOLT4_ROUTING_INFO_SIZE));
           payload_bytes = take BOLT4_HOP_PAYLOAD_SIZE unwrapped in
       case utf8_decode (rstrip 0 (py_slice 1 17 payload_bytes)) of
         None \<Rightarrow> Inl ValueError
       | Some next_hop \<Rightarrow>
           let next_hmac = py_slice 33 65 payload_bytes;
               payload = \<lparr>sp_next_hop = next_hop, sp_amount_sat = uint_be (py_slice 17 25 payload_bytes),
                          sp_cltv_locktime = uint_be (py_slice 25 29 payload_bytes)\<rparr>
           in if next_hop = [] \<or> next_hmac = replicate 32 0 then Inr (payload, None)
              else
                rbind (ec_scalar_mul_point E (blind_scalar ephem_pub shared_secret) ephem_pub) (\<lambda>next_ephem.
                  Inr (payload,
                       Some \<lparr>ephemeral_key_hex = hexlify next_ephem,
                             routing_info_hex = hexlify (py_slice BOLT4_HOP_PAYLOAD_SIZE
                               (BOLT4_HOP_PAYLOAD_SIZE + BOLT4_ROUTING_INFO_SIZE) unwrapped),
                             hmac_hex = hexlify next_hmac, sphinx_version = 0\<rparr>)))))))"

section \<open>The filler meets the layers\<close>

text \<open>
  The routing information a hop passes on ends in bytes of its own key stream.  The sender has put the same bytes at
  the end of the inner header: that is what the filler is for.
\<close>

definition filler_of :: "stream_cipher \<Rightarrow> bytes list \<Rightarrow> bytes" where
  "filler_of stream secrets = fold (filler_step stream) secrets (replicate 1365 0)"

lemma filler_of_snoc: "filler_of stream (secrets @ [ss]) = filler_step stream ss (filler_of stream secrets)"
  by (simp add: filler_of_def)

lemma generate_bolt4_filler_eq:
  assumes "n \<le> 20"
  shows "generate_bolt4_filler stream n secrets = drop (65 * (22 - n)) (filler_of stream (take (n - 1) secrets))"
proof -
  have "nat ((20 - int n + 2) * 65) = 65 * (22 - n)" and "0 \<le> (20 - int n + 2) * 65"
    using assms by (simp_all add: nat_diff_distrib nat_mult_distrib)
  then show ?thesis
    by (simp add: generate_bolt4_filler_def filler_of_def slice_from_def max_hops_def filler_size_def bolt4_sizes)
qed

lemma length_hop_payload:
  assumes "hop_payload h m = Inr p" and "length m = 32"
  shows "length p = 65"
  using assms
  by (auto simp: hop_payload_def rbind_eq_Inr ljust_def length_to_bytes_be split: prod.splits)

context key_stream
begin

lemma filler_step_nth:
  assumes "length f = 1365" and "i < 1365"
  shows "filler_step stream ss f ! i = (if i < 1300 then f ! (65 + i) else 0) XOR stream (rho_key ss) 1365 ! i"
  using assms
  by (simp add: filler_step_def filler_size_def max_hops_def bolt4_sizes nth_bytes_xor length_stream nth_append)

lemma length_filler_of [simp]: "length (filler_of stream secrets) = 1365"
  by (induction secrets rule: rev_induct)
    (simp_all add: filler_of_snoc filler_step_def filler_size_def max_hops_def bolt4_sizes length_stream,
     simp add: filler_of_def)

text \<open>One layer that is not the last, and the last one.\<close>

lemma wrap_layer_inner:
  assumes "wrap_layer stream filler False h ss (mh', m) = Inr (mh, hm)" and "length mh' = 1300" and "length m = 32"
  obtains payload where "hop_payload h m = Inr payload" "length payload = 65" "length mh = 1300"
    "hm = hmac_sha256 (mu_key ss) mh"
    "\<And>i. i < 1300 \<Longrightarrow> mh ! i = (if i < 65 then payload ! i else mh' ! (i - 65)) XOR stream (rho_key ss) 1300 ! i"
proof -
  obtain payload where p: "hop_payload h m = Inr payload"
    and mh: "mh = bytes_xor (payload @ take 1235 mh') (stream (rho_key ss) 1300)"
    and hm: "hm = hmac_sha256 (mu_key ss) mh"
    using assms(1,2) by (auto simp: wrap_layer_def rbind_eq_Inr bolt4_sizes Let_def)
  have len: "length payload = 65" using length_hop_payload [OF p assms(3)] .
  show thesis
  proof (rule that [OF p len _ hm])
    show "length mh = 1300" using len assms(2) by (simp add: mh length_stream)
    show "mh ! i = (if i < 65 then payload ! i else mh' ! (i - 65)) XOR stream (rho_key ss) 1300 ! i"
      if "i < 1300" for i
      using that len assms(2) by (simp add: mh nth_bytes_xor length_stream nth_append)
  qed
qed

lemma wrap_layer_last:
  assumes "wrap_layer stream filler True h ss (mix, m) = Inr (mh, hm)" and "length mix = 1300" and "length m = 32"
    and "length filler \<le> 1235"
  obtains payload where "hop_payload h m = Inr payload" "length payload = 65" "length mh = 1300"
    "hm = hmac_sha256 (mu_key ss) mh"
    "\<And>i. i < 65 \<Longrightarrow> mh ! i = payload ! i XOR stream (rho_key ss) 1300 ! i"
    "\<And>i. i < length filler \<Longrightarrow> mh ! (1300 - length filler + i) = filler ! i"
proof -
  define x where "x p = bytes_xor (p @ take 1235 mix) (stream (rho_key ss) 1300)" for p
  obtain payload where p: "hop_payload h m = Inr payload"
    and mh: "mh = (if filler \<noteq> [] then take (1300 - length filler) (x payload) @ filler else x payload)"
    and hm: "hm = hmac_sha256 (mu_key ss) mh"
    using assms(1,2,4)
    by (auto simp: wrap_layer_def rbind_eq_Inr bolt4_sizes slice_to_def x_def nat_diff_distrib Let_def split: if_splits)
  have len: "length payload = 65" using length_hop_payload [OF p assms(3)] .
  have lx: "length (x payload) = 1300" using len assms(2) by (simp add: x_def length_stream)
  have nx: "x payload ! i = payload ! i XOR stream (rho_key ss) 1300 ! i" if "i < 65" for i
    using that len by (simp add: x_def nth_bytes_xor length_stream nth_append)
  show thesis
  proof (rule that [OF p len _ hm])
    show "length mh = 1300" using lx assms(4) by (simp add: mh)
    show "mh ! i = payload ! i XOR stream (rho_key ss) 1300 ! i" if "i < 65" for i
      using that lx nx assms(4) by (simp add: mh nth_append)
    show "mh ! (1300 - length filler + i) = filler ! i" if "i < length filler" for i
      using that lx assms(4) by (auto simp: mh nth_append)
  qed
qed

lemma length_wrap_layers:
  "wrap_layers stream filler mix layers = Inr (mh, hm) \<Longrightarrow> length hm = 32"
  by (cases layers) (auto simp: rbind_eq_Inr wrap_layer_def Let_def)

text \<open>After the hops \<open>pre\<close>, the header ends in what their filler is.\<close>

lemma wrap_layers_tail:
  assumes "wrap_layers stream filler mix layers = Inr (mh, hm)" and "layers \<noteq> []" and "length mix = 1300"
    and "length pre + length layers \<le> 20"
    and "filler = drop (65 * (22 - (length pre + length layers))) (filler_of stream (pre @ map snd (butlast layers)))"
  shows "length mh = 1300 \<and>
    (\<forall>i < 65 * length pre. mh ! (1300 - 65 * length pre + i) = filler_of stream pre ! (1365 - 65 * length pre + i))"
  using assms
proof (induction layers arbitrary: pre mh hm)
  case Nil
  then show ?case by simp
next
  case (Cons z layers)
  obtain h ss where z: "z = (h, ss)" by (cases z)
  let ?k = "length pre"
  show ?case
  proof (cases "layers = []")
    case True
    have w: "wrap_layer stream filler True h ss (mix, replicate 32 0) = Inr (mh, hm)"
      using Cons.prems(1) True by (simp add: z)
    have f: "filler = drop (65 * (21 - ?k)) (filler_of stream pre)"
      using Cons.prems(5) True by simp
    then have lf: "length filler = 65 * ?k" using Cons.prems(4) by (simp add: diff_mult_distrib2)
    with Cons.prems(4) have "length filler \<le> 1235" by simp
    from wrap_layer_last [OF w Cons.prems(3) _ this] obtain "length mh = 1300"
      and "\<And>i. i < length filler \<Longrightarrow> mh ! (1300 - length filler + i) = filler ! i"
      by auto
    moreover have "filler ! i = filler_of stream pre ! (1365 - 65 * ?k + i)" if "i < 65 * ?k" for i
      using that f Cons.prems(4) by (simp add: diff_mult_distrib2)
    ultimately show ?thesis by (simp add: lf)
  next
    case False
    obtain mh' m where rec: "wrap_layers stream filler mix layers = Inr (mh', m)"
      and w: "wrap_layer stream filler False h ss (mh', m) = Inr (mh, hm)"
      using Cons.prems(1) False by (auto simp: z rbind_eq_Inr)
    have k: "?k \<le> 18" using Cons.prems(4) False by (cases layers) auto
    have "length mh' = 1300 \<and> (\<forall>i < 65 * length (pre @ [ss]). mh' ! (1300 - 65 * length (pre @ [ss]) + i) =
        filler_of stream (pre @ [ss]) ! (1365 - 65 * length (pre @ [ss]) + i))"
      using Cons.prems False by (intro Cons.IH [OF rec False]) (simp_all add: z)
    then have mh': "length mh' = 1300" "\<And>i. i < 65 * (?k + 1) \<Longrightarrow> mh' ! (1300 - 65 * (?k + 1) + i) =
        filler_of stream (pre @ [ss]) ! (1365 - 65 * (?k + 1) + i)"
      by simp_all
    from wrap_layer_inner [OF w mh'(1) length_wrap_layers [OF rec]] obtain payload
      where mh: "length mh = 1300" "\<And>i. i < 1300 \<Longrightarrow>
        mh ! i = (if i < 65 then payload ! i else mh' ! (i - 65)) XOR stream (rho_key ss) 1300 ! i"
      by metis
    have "mh ! (1300 - 65 * ?k + i) = filler_of stream pre ! (1365 - 65 * ?k + i)" if i: "i < 65 * ?k" for i
    proof -
      let ?j = "1300 - 65 * ?k + i"
      have j: "65 \<le> ?j" "?j < 1300" "?j - 65 = 1300 - 65 * (?k + 1) + i" "1365 - 65 * (?k + 1) + i = ?j"
          "65 + ?j = 1365 - 65 * ?k + i" "i < 65 * (?k + 1)"
        using i k by simp_all
      have "mh ! ?j = filler_of stream (pre @ [ss]) ! ?j XOR stream (rho_key ss) 1300 ! ?j"
        using mh(2) [OF j(2)] mh'(2) [OF j(6)] j(1) by (simp only: j(3,4)) simp
      also have "filler_of stream (pre @ [ss]) ! ?j = filler_of stream pre ! (65 + ?j) XOR stream (rho_key ss) 1300 ! ?j"
        using j(2) nth_stream [of "rho_key ss" ?j 1300 1365] by (simp add: filler_of_snoc filler_step_nth)
      finally show ?thesis by (simp add: j(5))
    qed
    with mh(1) show ?thesis by simp
  qed
qed

text \<open>What a hop sees: its payload, and the header the sender made for the next hop.\<close>

lemma unwrap_layers:
  assumes "wrap_layers stream filler mix ((h, ss) # layers) = Inr (mh, hm)" and "length mix = 1300"
    and "length pre + length layers < 20"
    and "filler = drop (65 * (21 - (length pre + length layers))) (filler_of stream (pre @ butlast (ss # map snd layers)))"
    and "unwrapped = bytes_xor (mh @ replicate 1300 0) (stream (rho_key ss) 2600)"
  shows "length mh = 1300 \<and> hm = hmac_sha256 (mu_key ss) mh \<and>
    (\<exists>mh' m. wrap_layers stream filler mix layers = Inr (mh', m) \<and> hop_payload h m = Inr (take 65 unwrapped) \<and>
      (layers \<noteq> [] \<longrightarrow> py_slice 65 1365 unwrapped = mh'))"
proof -
  have s: "stream (rho_key ss) 2600 ! i = stream (rho_key ss) n ! i" if "i < n" "n \<le> 2600" for i n
    using that by (intro nth_stream) simp_all
  obtain mh' m where rec: "wrap_layers stream filler mix layers = Inr (mh', m)"
    and w: "wrap_layer stream filler (layers = []) h ss (mh', m) = Inr (mh, hm)"
    using assms(1) by (auto simp: rbind_eq_Inr)
  show ?thesis
  proof (cases "layers = []")
    case True
    have fl: "length filler \<le> 1235" using assms(3,4) True by (simp add: diff_mult_distrib2)
    have last: "wrap_layer stream filler True h ss (mix, replicate 32 0) = Inr (mh, hm)" and m: "m = replicate 32 0"
      using w rec True by simp_all
    obtain payload where p: "hop_payload h m = Inr payload" "length payload = 65" "length mh = 1300"
        "hm = hmac_sha256 (mu_key ss) mh" "\<And>i. i < 65 \<Longrightarrow> mh ! i = payload ! i XOR stream (rho_key ss) 1300 ! i"
      by (rule wrap_layer_last [OF last assms(2) length_replicate fl]) (simp add: m)
    have "take 65 unwrapped = payload"
      using p(2,3,5) s [of _ 1300]
      by (intro nth_equalityI) (simp_all add: assms(5) length_stream nth_bytes_xor nth_append)
    with p rec True show ?thesis by simp
  next
    case False
    have "length mh' = 1300 \<and> (\<forall>i < 65 * length (pre @ [ss]). mh' ! (1300 - 65 * length (pre @ [ss]) + i) =
        filler_of stream (pre @ [ss]) ! (1365 - 65 * length (pre @ [ss]) + i))"
      using assms(2,3,4) False by (intro wrap_layers_tail [OF rec False]) (simp_all add: map_butlast)
    then have mh': "length mh' = 1300" "\<And>i. i < 65 * (length pre + 1) \<Longrightarrow> mh' ! (1300 - 65 * (length pre + 1) + i) =
        filler_of stream (pre @ [ss]) ! (1365 - 65 * (length pre + 1) + i)"
      by simp_all
    have inner: "wrap_layer stream filler False h ss (mh', m) = Inr (mh, hm)" using w False by simp
    obtain payload where p: "hop_payload h m = Inr payload" "length payload = 65" "length mh = 1300"
        "hm = hmac_sha256 (mu_key ss) mh" "\<And>i. i < 1300 \<Longrightarrow>
        mh ! i = (if i < 65 then payload ! i else mh' ! (i - 65)) XOR stream (rho_key ss) 1300 ! i"
      by (rule wrap_layer_inner [OF inner mh'(1) length_wrap_layers [OF rec]]) simp
    have u: "unwrapped ! i = (if i < 65 then payload ! i else mh' ! (i - 65))" if "i < 1300" for i
      using that p(3,5) s [of i 1300] by (simp add: assms(5) nth_bytes_xor length_stream nth_append)
    have v: "unwrapped ! (1300 + j) = mh' ! (1235 + j)" if j: "j < 65" for j
    proof -
      have k: "length pre \<le> 18" using assms(3) False by (cases layers) auto
      have "mh' ! (1235 + j) = filler_of stream (pre @ [ss]) ! (1300 + j)"
        using mh'(2) [of "65 * length pre + j"] j k by simp
      also have "\<dots> = stream (rho_key ss) 1365 ! (1300 + j)"
        using j by (simp add: filler_of_snoc filler_step_nth)
      also have "\<dots> = unwrapped ! (1300 + j)"
        using j p(3) s [of "1300 + j" 1365] by (simp add: assms(5) nth_bytes_xor length_stream nth_append)
      finally show ?thesis by simp
    qed
    have len: "length unwrapped = 2600" by (simp add: assms(5) p(3) length_stream)
    have "take 65 unwrapped = payload"
      using p(2) u by (intro nth_equalityI) (simp_all add: len)
    moreover have "py_slice 65 1365 unwrapped = mh'"
    proof (rule nth_equalityI)
      show "py_slice 65 1365 unwrapped ! i = mh' ! i" if "i < length (py_slice 65 1365 unwrapped)" for i
        using that u [of "65 + i"] v [of "i - 1235"] by (cases "i < 1235") (simp_all add: py_slice_def len)
    qed (simp add: py_slice_def len mh'(1))
    ultimately show ?thesis using p rec by simp
  qed
qed

end

section \<open>Payload fields and shared secrets\<close>

definition good_name :: "string \<Rightarrow> bool" where
  "good_name s \<longleftrightarrow> length (utf8_encode s) \<le> 16 \<and> (s = [] \<or> last (utf8_encode s) \<noteq> 0)"

lemma hop_payload_fields:
  assumes "hop_payload (node_name, next_hop, amount, cltv) m = Inr p" and "length m = 32" and "good_name next_hop"
  shows "utf8_decode (rstrip 0 (py_slice 1 17 p)) = Some next_hop" and "uint_be (py_slice 17 25 p) = amount"
    and "uint_be (py_slice 25 29 p) = cltv" and "py_slice 33 65 p = m"
proof -
  obtain a c where a: "to_bytes_be 8 amount = Inr a" and c: "to_bytes_be 4 cltv = Inr c"
    and p: "p = [0] @ ljust 16 0 (utf8_encode next_hop) @ a @ c @ replicate 4 0 @ m"
    using assms(1,3) by (auto simp: hop_payload_def rbind_eq_Inr good_name_def)
  have len: "length (ljust 16 0 (utf8_encode next_hop)) = 16" "length a = 8" "length c = 4"
    using assms(3) a c by (simp_all add: good_name_def length_ljust length_to_bytes_be)
  have "py_slice 1 17 p = ljust 16 0 (utf8_encode next_hop)"
    using len by (simp add: p py_slice_def)
  moreover have "utf8_encode next_hop = [] \<or> last (utf8_encode next_hop) \<noteq> 0"
    using assms(3) by (auto simp: good_name_def)
  ultimately show "utf8_decode (rstrip 0 (py_slice 1 17 p)) = Some next_hop"
    by (simp add: rstrip_ljust)
  have "py_slice 17 25 p = a" and "py_slice 25 29 p = c" and "py_slice 33 65 p = m"
    using len assms(2) by (simp_all add: p py_slice_def numeral_eq_Suc)
  with a c show "uint_be (py_slice 17 25 p) = amount" "uint_be (py_slice 25 29 p) = cltv" "py_slice 33 65 p = m"
    by (simp_all add: to_bytes_be_roundtrip)
qed

text \<open>The sender's scalar after some hops.\<close>

definition blinded :: "int \<Rightarrow> (bytes \<times> bytes) list \<Rightarrow> int" where
  "blinded d derived = fold (\<lambda>(e, ss) d. (d * blind_scalar e ss) mod SECP256K1_ORDER) derived d"

lemma blinded_simps [simp]:
  "blinded d [] = d"
  "blinded d ((e, ss) # zs) = blinded ((d * blind_scalar e ss) mod SECP256K1_ORDER) zs"
  by (simp_all add: blinded_def)

lemma length_derive_hops:
  "derive_hops L E node_pubkeys hs randoms d e = Inr zs \<Longrightarrow> length zs = length hs"
  by (induction L E node_pubkeys hs randoms d e arbitrary: zs rule: derive_hops.induct)
    (auto simp: rbind_eq_Inr Let_def)

locale onion = curve_group E + key_stream stream for E :: "'p eclib" and stream :: stream_cipher
begin

text \<open>Along the route the ephemeral key is the point of the blinded scalar, and the secret that of both keys.\<close>

lemma derive_hops_nth:
  assumes "derive_hops L E node_pubkeys hs randoms d e = Inr zs" and "pub d = Inr e"
    and "\<forall>i < length hs. blinded d (take i zs) mod SECP256K1_ORDER \<noteq> 0" and "i < length hs"
    and "length randoms = length hs"
  shows "pub (blinded d (take i zs)) = Inr (fst (zs ! i)) \<and>
    (\<exists>node_pub pt. node_pub_of L node_pubkeys (fst (hs ! i)) (randoms ! i) = Inr node_pub \<and>
       ec_scalar_mul_point E (blinded d (take i zs)) node_pub = Inr pt \<and> snd (zs ! i) = sha256 pt) \<and>
    (i + 1 < length hs \<longrightarrow> ec_scalar_mul_point E (blind_scalar (fst (zs ! i)) (snd (zs ! i))) (fst (zs ! i)) =
       Inr (fst (zs ! (i + 1))))"
  using assms
proof (induction hs arbitrary: randoms d e zs i)
  case Nil
  then show ?case by simp
next
  case (Cons h hs)
  obtain node_pub pt e' rest where n: "node_pub_of L node_pubkeys (fst h) (hd randoms) = Inr node_pub"
    and pt: "ec_scalar_mul_point E d node_pub = Inr pt"
    and e': "ec_point_mul E ((d * blind_scalar e (sha256 pt)) mod SECP256K1_ORDER) = Inr e'"
    and rest: "derive_hops L E node_pubkeys hs (tl randoms) ((d * blind_scalar e (sha256 pt)) mod SECP256K1_ORDER) e' = Inr rest"
    and zs: "zs = (e, sha256 pt) # rest"
    using Cons.prems(1) by (cases h) (auto simp: rbind_eq_Inr Let_def)
  let ?b = "blind_scalar e (sha256 pt)"
  let ?d = "(d * ?b) mod SECP256K1_ORDER"
  have len: "length rest = length hs" using length_derive_hops [OF rest] .
  have nz: "\<forall>i < length hs. blinded ?d (take i rest) mod SECP256K1_ORDER \<noteq> 0"
    using Cons.prems(3) by (auto simp: zs dest: spec [of _ "Suc _"])
  have hd: "hd randoms = randoms ! 0" "length (tl randoms) = length hs"
    using Cons.prems(5) by (cases randoms; simp)+
  show ?case
  proof (cases "hs = []")
    case True
    with Cons.prems n pt show ?thesis by (auto simp: zs hd)
  next
    case False
    then have d: "?d mod SECP256K1_ORDER \<noteq> 0" using nz by (cases hs) (auto dest: spec [of _ 0])
    then have pe': "pub ?d = Inr e'" using e' point_mul by simp
    show ?thesis
    proof (cases i)
      case 0
      have "ec_scalar_mul_point E ?b e = pub (?b * d)"
        using scalar_mul_point [OF _ Cons.prems(2), of ?b] by (simp add: blind_scalar_mod blind_scalar_nonzero)
      also have "\<dots> = pub ?d" by (rule pub_cong) (simp add: mult.commute)
      also have "\<dots> = Inr (fst (rest ! 0))"
        using rest False pe' by (cases hs) (auto simp: rbind_eq_Inr Let_def)
      finally show ?thesis using Cons.prems(2) n pt 0 by (simp add: zs hd)
    next
      case (Suc k)
      with Cons.prems(4) have "k < length hs" by simp
      moreover have "tl randoms ! k = randoms ! Suc k" using Cons.prems(5) by (cases randoms) simp_all
      ultimately show ?thesis
        using Cons.IH [OF rest pe' nz _ hd(2), of k] Suc by (simp add: zs)
    qed
  qed
qed

text \<open>One hop.\<close>

lemma unwrap_hop:
  assumes layers: "wrap_layers stream filler mix (drop i (zip hs (map snd zs))) = Inr (mh, hm)"
    and len: "length zs = length hs" "i < length hs" "length hs \<le> 20" "length mix = 1300"
    and filler: "filler = generate_bolt4_filler stream (length hs) (map snd zs)"
    and name: "hs ! i = (node_name, next_hop, amount, cltv)" "good_name next_hop" "i + 1 < length hs \<Longrightarrow> next_hop \<noteq> []"
    and key: "wif \<noteq> []" "lib_wif L wif = Inr sec"
      "ec_scalar_mul_point E (uint_be (take 32 sec)) (fst (zs ! i)) = Inr pt" "snd (zs ! i) = sha256 pt"
    and blind: "i + 1 < length hs \<Longrightarrow> ec_scalar_mul_point E (blind_scalar (fst (zs ! i)) (snd (zs ! i))) (fst (zs ! i)) =
       Inr (fst (zs ! (i + 1)))"
  shows "\<exists>mh' m. wrap_layers stream filler mix (drop (i + 1) (zip hs (map snd zs))) = Inr (mh', m) \<and>
    unwrap_bolt4_binary_packet L E stream
      \<lparr>ephemeral_key_hex = hexlify (fst (zs ! i)), routing_info_hex = hexlify mh, hmac_hex = hexlify hm, sphinx_version = 0\<rparr>
      wif random =
    Inr (\<lparr>sp_next_hop = next_hop, sp_amount_sat = amount, sp_cltv_locktime = cltv\<rparr>,
      if i + 1 < length hs \<and> m \<noteq> replicate 32 0
      then Some \<lparr>ephemeral_key_hex = hexlify (fst (zs ! (i + 1))), routing_info_hex = hexlify mh',
                 hmac_hex = hexlify m, sphinx_version = 0\<rparr>
      else None)"
proof -
  let ?layers = "drop (i + 1) (zip hs (map snd zs))"
  let ?ss = "snd (zs ! i)"
  let ?u = "bytes_xor (mh @ replicate 1300 0) (stream (rho_key ?ss) 2600)"
  have split: "drop i (zip hs (map snd zs)) = (hs ! i, ?ss) # ?layers"
    using len by (simp add: Cons_nth_drop_Suc [symmetric])
  define ssl where "ssl = map snd zs"
  have "map snd ?layers = drop (i + 1) ssl"
    using len by (simp add: ssl_def drop_zip)
  moreover have "?ss = ssl ! i" using len by (simp add: ssl_def)
  moreover have "i < length ssl" using len by (simp add: ssl_def)
  ultimately have d: "?ss # map snd ?layers = drop i ssl"
    by (metis Cons_nth_drop_Suc Suc_eq_plus1)
  have "drop i ssl \<noteq> []" using len by (simp add: ssl_def)
  then have "map snd (take i zs) @ butlast (?ss # map snd ?layers) = butlast (take i ssl @ drop i ssl)"
    unfolding d by (simp add: butlast_append ssl_def take_map)
  also have "\<dots> = take (length hs - 1) (map snd zs)"
    using len by (simp add: butlast_conv_take ssl_def)
  finally have sec: "map snd (take i zs) @ butlast (?ss # map snd ?layers) = take (length hs - 1) (map snd zs)" .
  then have f: "filler = drop (65 * (21 - (length (map snd (take i zs)) + length ?layers)))
      (filler_of stream (map snd (take i zs) @ butlast (?ss # map snd ?layers)))"
    unfolding sec using len by (simp add: filler generate_bolt4_filler_eq)
  have "length (map snd (take i zs)) + length ?layers < 20" using len by simp
  from unwrap_layers [OF layers [unfolded split] len(4) this f refl]
  obtain mh' m where w: "length mh = 1300" "hm = hmac_sha256 (mu_key ?ss) mh"
      "wrap_layers stream filler mix ?layers = Inr (mh', m)" "hop_payload (hs ! i) m = Inr (take 65 ?u)"
      "?layers \<noteq> [] \<longrightarrow> py_slice 65 1365 ?u = mh'"
    by blast
  have m: "length m = 32" using length_wrap_layers [OF w(3)] .
  note fields = hop_payload_fields [OF w(4) [unfolded name(1)] m name(2)]
  have last: "m = replicate 32 0" if "\<not> i + 1 < length hs" using w(3) that len by simp
  have secret: "derive_shared_secret L E (SecBytes sec) (fst (zs ! i)) = Inr ?ss"
    using key(3,4) by (simp add: derive_shared_secret_def Let_def)
  have "generate_keypair L (Some wif) random = Inr (sec, lib_pub L sec)"
    using key(1,2) by (simp add: generate_keypair_def)
  with secret w(2) have "unwrap_bolt4_binary_packet L E stream
      \<lparr>ephemeral_key_hex = hexlify (fst (zs ! i)), routing_info_hex = hexlify mh, hmac_hex = hexlify hm, sphinx_version = 0\<rparr>
      wif random =
     (let payload = \<lparr>sp_next_hop = next_hop, sp_amount_sat = amount, sp_cltv_locktime = cltv\<rparr>
      in if next_hop = [] \<or> m = replicate 32 0 then Inr (payload, None)
         else rbind (ec_scalar_mul_point E (blind_scalar (fst (zs ! i)) ?ss) (fst (zs ! i))) (\<lambda>next_ephem.
           Inr (payload, Some \<lparr>ephemeral_key_hex = hexlify next_ephem, routing_info_hex = hexlify (py_slice 65 1365 ?u),
             hmac_hex = hexlify m, sphinx_version = 0\<rparr>)))"
    by (simp add: unwrap_bolt4_binary_packet_def bolt4_sizes fields Let_def del: One_nat_def)
  moreover have "?layers \<noteq> []" if "i + 1 < length hs" using that len by simp
  ultimately show ?thesis
    using w(3,5) name(3) blind last by (auto simp: Let_def)
qed

text \<open>What the route needs: each node's key in the directory is the point of the secret its WIF text holds.\<close>

definition route_node :: "btclib \<Rightarrow> (string, pubkey_arg) pydict \<Rightarrow> hop \<Rightarrow> bytes \<Rightarrow> string \<Rightarrow> bool" where
  "route_node L node_pubkeys h random wif \<longleftrightarrow>
     wif \<noteq> [] \<and>
     (\<exists>sec. lib_wif L wif = Inr sec \<and> uint_be (take 32 sec) mod SECP256K1_ORDER \<noteq> 0 \<and>
        node_pub_of L node_pubkeys (fst h) random = ec_point_mul E (uint_be (take 32 sec)))"

lemma wrap_layers_drop:
  "wrap_layers stream filler mix layers = Inr r \<Longrightarrow> i \<le> length layers \<Longrightarrow>
    \<exists>mh hm. wrap_layers stream filler mix (drop i layers) = Inr (mh, hm)"
proof (induction layers arbitrary: i r)
  case Nil
  then show ?case by simp
next
  case (Cons z layers)
  obtain h ss where z: "z = (h, ss)" by (cases z)
  show ?case
  proof (cases i)
    case 0
    with Cons.prems(1) show ?thesis by (cases r) simp
  next
    case (Suc k)
    with Cons.prems show ?thesis
      by (auto simp: z rbind_eq_Inr intro: Cons.IH)
  qed
qed

text \<open>The secret a node derives with its own key from the ephemeral key is the one the sender used for its layer.\<close>

lemma hop_secret:
  assumes "derive_hops L E node_pubkeys hs randoms d e = Inr zs" and "pub d = Inr e"
    and "\<forall>i < length hs. blinded d (take i zs) mod SECP256K1_ORDER \<noteq> 0"
    and "\<forall>i < length hs. route_node L node_pubkeys (hs ! i) (randoms ! i) (wifs ! i)"
    and "length randoms = length hs" and i: "i < length hs"
  shows "\<exists>sec pt. wifs ! i \<noteq> [] \<and> lib_wif L (wifs ! i) = Inr sec \<and>
    ec_scalar_mul_point E (uint_be (take 32 sec)) (fst (zs ! i)) = Inr pt \<and> snd (zs ! i) = sha256 pt \<and>
    (i + 1 < length hs \<longrightarrow> ec_scalar_mul_point E (blind_scalar (fst (zs ! i)) (snd (zs ! i))) (fst (zs ! i)) =
       Inr (fst (zs ! (i + 1))))"
proof -
  obtain sec where sec: "wifs ! i \<noteq> []" "lib_wif L (wifs ! i) = Inr sec" "uint_be (take 32 sec) mod SECP256K1_ORDER \<noteq> 0"
      "node_pub_of L node_pubkeys (fst (hs ! i)) (randoms ! i) = ec_point_mul E (uint_be (take 32 sec))"
    using assms(4) i by (auto simp: route_node_def)
  let ?s = "uint_be (take 32 sec)" and ?di = "blinded d (take i zs)"
  obtain node_pub pt where dv: "pub ?di = Inr (fst (zs ! i))"
      "node_pub_of L node_pubkeys (fst (hs ! i)) (randoms ! i) = Inr node_pub"
      "ec_scalar_mul_point E ?di node_pub = Inr pt" "snd (zs ! i) = sha256 pt"
    and blind: "i + 1 < length hs \<longrightarrow> ec_scalar_mul_point E (blind_scalar (fst (zs ! i)) (snd (zs ! i))) (fst (zs ! i)) =
      Inr (fst (zs ! (i + 1)))"
    using derive_hops_nth [OF assms(1,2,3) i assms(5)] by blast
  have "pub ?s = Inr node_pub" using sec(4) dv(2) point_mul [OF sec(3)] by simp
  then have "pub (?di * ?s) = Inr pt"
    using scalar_mul_point [of ?di ?s node_pub] assms(3) i dv(3) by simp
  moreover have "ec_scalar_mul_point E ?s (fst (zs ! i)) = pub (?s * ?di)"
    by (rule scalar_mul_point [OF sec(3) dv(1)])
  ultimately have "ec_scalar_mul_point E ?s (fst (zs ! i)) = Inr pt" by (simp add: mult.commute)
  then show ?thesis using sec(1,2) dv(4) blind by blast
qed

lemma onion_delivers:
  assumes n: "0 < length hs" "length hs \<le> 20" "length randoms = length hs"
    and session: "ec_point_mul E (uint_be (take 32 session)) = Inr (lib_pub L session)"
    and derived: "derive_hops L E node_pubkeys hs randoms (uint_be (take 32 session) mod SECP256K1_ORDER)
      (lib_pub L session) = Inr zs"
    and nonzero: "\<forall>i < length hs. blinded (uint_be (take 32 session) mod SECP256K1_ORDER) (take i zs) mod SECP256K1_ORDER \<noteq> 0"
    and nodes: "\<forall>i < length hs. route_node L node_pubkeys (hs ! i) (randoms ! i) (wifs ! i)"
    and names: "\<forall>i < length hs. good_name (fst (snd (hs ! i))) \<and> (i + 1 < length hs \<longrightarrow> fst (snd (hs ! i)) \<noteq> [])"
    and create: "create_bolt4_binary_packet L E stream hs node_pubkeys session randoms = Inr p"
  shows "\<exists>packets. length packets = length hs \<and> packets ! 0 = p \<and>
    (\<forall>i < length hs. \<forall>random. unwrap_bolt4_binary_packet L E stream (packets ! i) (wifs ! i) random =
      Inr (case hs ! i of (node_name, next_hop, amount, cltv) \<Rightarrow>
             \<lparr>sp_next_hop = next_hop, sp_amount_sat = amount, sp_cltv_locktime = cltv\<rparr>,
           if i + 1 < length hs \<and> hmac_hex (packets ! (i + 1)) \<noteq> hexlify (replicate 32 0)
           then Some (packets ! (i + 1)) else None))"
proof -
  let ?d = "uint_be (take 32 session) mod SECP256K1_ORDER"
  define filler where "filler = generate_bolt4_filler stream (length hs) (map snd zs)"
  define mix where "mix = stream (sha256 (byte_lit ''pad'' @ take 32 session)) 1300"
  define layers where "layers = zip hs (map snd zs)"
  define packet where "packet i = (case wrap_layers stream filler mix (drop i layers) of
      Inr (mh, hm) \<Rightarrow> \<lparr>ephemeral_key_hex = hexlify (fst (zs ! i)), routing_info_hex = hexlify mh,
        hmac_hex = hexlify hm, sphinx_version = 0\<rparr> | Inl e \<Rightarrow> undefined)" for i
  have len: "length zs = length hs" using length_derive_hops [OF derived] .
  have gen: "generate_keypair L None session = Inr (session, lib_pub L session)" by (simp add: generate_keypair_def)
  obtain mh0 hm0 where w0: "wrap_layers stream filler mix layers = Inr (mh0, hm0)"
    and p: "p = \<lparr>ephemeral_key_hex = hexlify (fst (zs ! 0)), routing_info_hex = hexlify mh0,
        hmac_hex = hexlify hm0, sphinx_version = 0\<rparr>"
    using create n(1) len
    by (cases zs) (auto simp: create_bolt4_binary_packet_def gen derived Let_def rbind_eq_Inr bolt4_sizes filler_def mix_def
        layers_def)
  have "?d mod SECP256K1_ORDER \<noteq> 0" using nonzero n(1) by auto
  then have d: "pub ?d = Inr (lib_pub L session)" using session point_mul [of "uint_be (take 32 session)"] pub_mod by simp
  have hop: "unwrap_bolt4_binary_packet L E stream (packet i) (wifs ! i) random =
      Inr (case hs ! i of (node_name, next_hop, amount, cltv) \<Rightarrow>
             \<lparr>sp_next_hop = next_hop, sp_amount_sat = amount, sp_cltv_locktime = cltv\<rparr>,
           if i + 1 < length hs \<and> hmac_hex (packet (i + 1)) \<noteq> hexlify (replicate 32 0)
           then Some (packet (i + 1)) else None)" if i: "i < length hs" for i random
  proof -
    obtain node_name next_hop amount cltv where h: "hs ! i = (node_name, next_hop, amount, cltv)" by (cases "hs ! i")
    obtain sec pt where sec: "wifs ! i \<noteq> []" "lib_wif L (wifs ! i) = Inr sec"
        and shared: "ec_scalar_mul_point E (uint_be (take 32 sec)) (fst (zs ! i)) = Inr pt" "snd (zs ! i) = sha256 pt"
      and blind: "i + 1 < length hs \<Longrightarrow> ec_scalar_mul_point E (blind_scalar (fst (zs ! i)) (snd (zs ! i))) (fst (zs ! i)) =
        Inr (fst (zs ! (i + 1)))"
      using hop_secret [OF derived d nonzero nodes n(3) i] by blast
    have "i \<le> length layers" using i len by (simp add: layers_def)
    from wrap_layers_drop [OF w0 this] obtain mh hm where w: "wrap_layers stream filler mix (drop i layers) = Inr (mh, hm)"
      by blast
    have name: "good_name next_hop" "i + 1 < length hs \<Longrightarrow> next_hop \<noteq> []" using spec [OF names, of i] i h by simp_all
    have "length mix = 1300" by (simp add: mix_def length_stream)
    from unwrap_hop [OF w [unfolded layers_def] len i n(2) this filler_def h name sec shared blind]
    obtain mh' m where w': "wrap_layers stream filler mix (drop (i + 1) layers) = Inr (mh', m)"
      and un: "unwrap_bolt4_binary_packet L E stream
        \<lparr>ephemeral_key_hex = hexlify (fst (zs ! i)), routing_info_hex = hexlify mh, hmac_hex = hexlify hm, sphinx_version = 0\<rparr>
        (wifs ! i) random =
      Inr (\<lparr>sp_next_hop = next_hop, sp_amount_sat = amount, sp_cltv_locktime = cltv\<rparr>,
        if i + 1 < length hs \<and> m \<noteq> replicate 32 0
        then Some \<lparr>ephemeral_key_hex = hexlify (fst (zs ! (i + 1))), routing_info_hex = hexlify mh',
                   hmac_hex = hexlify m, sphinx_version = 0\<rparr>
        else None)"
      unfolding layers_def by blast
    have "packet (i + 1) = \<lparr>ephemeral_key_hex = hexlify (fst (zs ! (i + 1))), routing_info_hex = hexlify mh',
        hmac_hex = hexlify m, sphinx_version = 0\<rparr>"
      using w' by (simp add: packet_def)
    moreover have "packet i = \<lparr>ephemeral_key_hex = hexlify (fst (zs ! i)), routing_info_hex = hexlify mh,
        hmac_hex = hexlify hm, sphinx_version = 0\<rparr>"
      using w by (simp add: packet_def)
    ultimately show ?thesis using un by (simp add: h hexlify_inj)
  qed
  have "packet 0 = p" using w0 by (simp add: packet_def p)
  with hop n(1) show ?thesis by (intro exI [of _ "map packet [0..<length hs]"]) simp
qed

end

interpretation onion_line: onion line_curve chacha20 ..


section \<open>Properties\<close>

text \<open>Property C25: onions are delivered.  For a route of at most 20 hops, whose nodes' keys are in the directory and whose
  names fit the field of 16 bytes, every packet \<open>create_bolt4_binary_packet\<close> returns opens hop by hop: the first node unwraps
  it with its own key, the next one what the first one passes on, and so on; each node passes the HMAC check and reads exactly
  its next hop, amount and locktime, and the last one learns that it is the last.  (A packet is not passed on when the HMAC
  of the next layer happens to be 32 zero bytes, which the format uses for the end.)  This needs the ephemeral keys to be
  non-zero scalars, and holds for every curve with the group laws and every key stream.\<close>

theorem onion_is_delivered:
  assumes "onion E stream" and "0 < length hs" and "length hs \<le> 20" and "length randoms = length hs"
    and "ec_point_mul E (uint_be (take 32 session)) = Inr (lib_pub L session)"
    and "derive_hops L E node_pubkeys hs randoms (uint_be (take 32 session) mod SECP256K1_ORDER) (lib_pub L session) = Inr derived"
    and "\<forall>i < length hs. blinded (uint_be (take 32 session) mod SECP256K1_ORDER) (take i derived) mod SECP256K1_ORDER \<noteq> 0"
    and "\<forall>i < length hs. onion.route_node E L node_pubkeys (hs ! i) (randoms ! i) (wifs ! i)"
    and "\<forall>i < length hs. good_name (fst (snd (hs ! i))) \<and> (i + 1 < length hs \<longrightarrow> fst (snd (hs ! i)) \<noteq> [])"
    and "create_bolt4_binary_packet L E stream hs node_pubkeys session randoms = Inr p"
  shows "\<exists>packets. length packets = length hs \<and> packets ! 0 = p \<and>
    (\<forall>i < length hs. \<forall>random. unwrap_bolt4_binary_packet L E stream (packets ! i) (wifs ! i) random =
      Inr (case hs ! i of (node_name, next_hop, amount, cltv) \<Rightarrow>
             \<lparr>sp_next_hop = next_hop, sp_amount_sat = amount, sp_cltv_locktime = cltv\<rparr>,
           if i + 1 < length hs \<and> hmac_hex (packets ! (i + 1)) \<noteq> hexlify (replicate 32 0)
           then Some (packets ! (i + 1)) else None))"
  using onion.onion_delivers [OF assms(1-9)] assms(10) by blast

text \<open>A route of two hops, whose nodes and session have the secret one.\<close>

definition secret_one :: bytes where
  "secret_one = replicate 31 0 @ [1]"

definition line_lib :: btclib where
  "line_lib = wire_lib\<lparr>lib_pub := \<lambda>s. case ec_point_mul line_curve (uint_be (take 32 s)) of Inr p \<Rightarrow> p | Inl e \<Rightarrow> []\<rparr>"

definition two_hops :: "hop list" where
  "two_hops = [(''A'', ''B'', 1000, 140), (''B'', [], 990, 100)]"

definition two_keys :: "(string, pubkey_arg) pydict" where
  "two_keys = [(''A'', PubBytes (2 # secret_one)), (''B'', PubBytes (2 # secret_one))]"

lemma all_two: "(\<forall>i < length two_hops. P i) \<longleftrightarrow> P 0 \<and> P 1"
  by (auto simp: two_hops_def numeral_2_eq_2 less_Suc_eq)

lemma two_keys_pub: "a \<in> {''A'', ''B''} \<Longrightarrow> node_pub_of line_lib two_keys a r = Inr (2 # secret_one)"
  by (auto simp: node_pub_of_def two_keys_def parse_node_pubkey_def secret_one_def)

lemma derive_two:
  "\<exists>e1 ss0 ss1. derive_hops line_lib line_curve two_keys two_hops [[], []] 1 (2 # secret_one) =
    Inr [(2 # secret_one, ss0), (e1, ss1)]"
proof -
  have one: "1 mod SECP256K1_ORDER \<noteq> 0" by (simp add: SECP256K1_ORDER_def)
  have p1: "line.pub 1 = Inr (2 # secret_one)" unfolding line.pub_def by code_simp
  define ss0 where "ss0 = sha256 (2 # secret_one)"
  define b where "b = blind_scalar (2 # secret_one) ss0"
  have b: "b mod SECP256K1_ORDER = b" "b mod SECP256K1_ORDER \<noteq> 0"
    by (simp_all add: b_def blind_scalar_mod blind_scalar_nonzero)
  obtain e1 where e1: "line.pub b = Inr e1" using line.pub_ok [OF b(2)] by blast
  obtain e2 where e2: "ec_point_mul line_curve ((b * blind_scalar e1 (sha256 e1)) mod SECP256K1_ORDER) = Inr e2"
    using line.ec_point_mul_ok by blast
  have "ec_scalar_mul_point line_curve 1 (2 # secret_one) = Inr (2 # secret_one)"
    using line.scalar_mul_point [OF one p1] p1 by simp
  moreover have "ec_point_mul line_curve b = Inr e1" using line.point_mul [OF b(2)] e1 by simp
  moreover have "ec_scalar_mul_point line_curve b (2 # secret_one) = Inr e1"
    using line.scalar_mul_point [OF b(2) p1] e1 by simp
  ultimately show ?thesis
    using e2 b(1) two_keys_pub by (simp add: two_hops_def Let_def ss0_def [symmetric] b_def [symmetric])
qed

lemma wrap_layers_ok:
  assumes "\<forall>(h, ss) \<in> set layers. case h of (node_name, next_hop, amount, cltv) \<Rightarrow>
    0 \<le> amount \<and> amount < 256 ^ 8 \<and> 0 \<le> cltv \<and> cltv < 256 ^ 4"
  shows "\<exists>r. wrap_layers stream filler mix layers = Inr r"
  using assms
proof (induction layers)
  case Nil
  then show ?case by simp
next
  case (Cons z layers)
  obtain node_name next_hop amount cltv ss where z: "z = ((node_name, next_hop, amount, cltv), ss)" by (metis surj_pair)
  obtain mh m where "wrap_layers stream filler mix layers = Inr (mh, m)" using Cons by auto
  then show ?case
    using Cons.prems by (simp add: z wrap_layer_def hop_payload_def to_bytes_be_def Let_def)
qed

lemma one_facts:
  "uint_be (take 32 secret_one) = 1" "ec_point_mul line_curve 1 = Inr (2 # secret_one)" "hexlify secret_one \<noteq> []"
  "1 mod SECP256K1_ORDER = 1"
  by (code_simp, code_simp, code_simp, simp add: SECP256K1_ORDER_def)

lemma line_lib_one: "lib_pub line_lib secret_one = 2 # secret_one" "lib_wif line_lib (hexlify secret_one) = Inr secret_one"
  by (simp_all add: line_lib_def one_facts unhexlify_hexlify)

lemma onion_line_curve: "onion line_curve chacha20"
  by unfold_locales

lemma length_two_hops: "length two_hops = 2"
  by (simp add: two_hops_def)

lemma two_nodes:
  "\<forall>i < length two_hops. onion.route_node line_curve line_lib two_keys (two_hops ! i) ([[], []] ! i)
    ([hexlify secret_one, hexlify secret_one] ! i)"
  unfolding all_two by (auto simp: onion_line.route_node_def two_hops_def line_lib_one one_facts two_keys_pub)

lemma two_scalars:
  "\<forall>i < length two_hops. blinded (uint_be (take 32 secret_one) mod SECP256K1_ORDER) (take i [(2 # secret_one, ss0), (e1, ss1)])
    mod SECP256K1_ORDER \<noteq> 0"
  unfolding all_two by (simp add: one_facts blind_scalar_mod blind_scalar_nonzero)

lemma two_session: "ec_point_mul line_curve (uint_be (take 32 secret_one)) = Inr (lib_pub line_lib secret_one)"
  by (simp add: one_facts line_lib_one)

lemma two_derived:
  "\<exists>e1 ss0 ss1. derive_hops line_lib line_curve two_keys two_hops [[], []] (uint_be (take 32 secret_one) mod SECP256K1_ORDER)
    (lib_pub line_lib secret_one) = Inr [(2 # secret_one, ss0), (e1, ss1)]"
  using derive_two by (simp add: one_facts line_lib_one)

theorem onion_is_delivered_witness:
  "\<exists>p q. create_bolt4_binary_packet line_lib line_curve chacha20 two_hops two_keys secret_one [[], []] = Inr p \<and>
     unwrap_bolt4_binary_packet line_lib line_curve chacha20 p (hexlify secret_one) [] =
       Inr (\<lparr>sp_next_hop = ''B'', sp_amount_sat = 1000, sp_cltv_locktime = 140\<rparr>,
         if hmac_hex q \<noteq> hexlify (replicate 32 0) then Some q else None) \<and>
     unwrap_bolt4_binary_packet line_lib line_curve chacha20 q (hexlify secret_one) [] =
       Inr (\<lparr>sp_next_hop = [], sp_amount_sat = 990, sp_cltv_locktime = 100\<rparr>, None)"
proof -
  obtain e1 ss0 ss1 where derived: "derive_hops line_lib line_curve two_keys two_hops [[], []]
      (uint_be (take 32 secret_one) mod SECP256K1_ORDER) (lib_pub line_lib secret_one) = Inr [(2 # secret_one, ss0), (e1, ss1)]"
    using two_derived by blast
  let ?filler = "generate_bolt4_filler chacha20 (length two_hops) [ss0, ss1]"
  let ?mix = "chacha20 (sha256 (byte_lit ''pad'' @ take 32 secret_one)) BOLT4_ROUTING_INFO_SIZE"
  have "\<exists>r. wrap_layers chacha20 ?filler ?mix (zip two_hops [ss0, ss1]) = Inr r"
    by (rule wrap_layers_ok) (simp add: two_hops_def)
  then obtain mh hm where "wrap_layers chacha20 ?filler ?mix (zip two_hops [ss0, ss1]) = Inr (mh, hm)"
    by (metis surj_pair)
  then have "\<exists>p. create_bolt4_binary_packet line_lib line_curve chacha20 two_hops two_keys secret_one [[], []] = Inr p"
    using derived by (simp add: create_bolt4_binary_packet_def generate_keypair_def line_lib_one one_facts Let_def)
  then obtain p where p: "create_bolt4_binary_packet line_lib line_curve chacha20 two_hops two_keys secret_one [[], []] = Inr p" ..
  have names: "\<forall>i < length two_hops. good_name (fst (snd (two_hops ! i))) \<and>
      (i + 1 < length two_hops \<longrightarrow> fst (snd (two_hops ! i)) \<noteq> [])"
    unfolding all_two by (simp add: two_hops_def good_name_def utf8_char_def)
  obtain packets where "packets ! 0 = p" and "\<forall>i < length two_hops. \<forall>random.
      unwrap_bolt4_binary_packet line_lib line_curve chacha20 (packets ! i) ([hexlify secret_one, hexlify secret_one] ! i) random =
      Inr (case two_hops ! i of (node_name, next_hop, amount, cltv) \<Rightarrow>
             \<lparr>sp_next_hop = next_hop, sp_amount_sat = amount, sp_cltv_locktime = cltv\<rparr>,
           if i + 1 < length two_hops \<and> hmac_hex (packets ! (i + 1)) \<noteq> hexlify (replicate 32 0)
           then Some (packets ! (i + 1)) else None)"
    using onion_is_delivered [OF onion_line_curve _ _ _ two_session derived two_scalars two_nodes names p] length_two_hops
    by auto
  then show ?thesis
    using p by (intro exI [of _ p] exI [of _ "packets ! 1"]) (auto simp: length_two_hops two_hops_def)
qed

end
