(* ===== verification/Json.thy ===== *)
theory Json
  imports Text
begin

text \<open>
  The \<open>json\<close> module of Python's standard library as the package uses it: \<open>dumps\<close> with its defaults (ASCII output, separators
  with a blank) and \<open>loads\<close>.  Numbers with a fraction or exponent keep their text (\<open>JFloat\<close>), so that nothing depends on
  floating point.  Texts are those of code points below 256; an escape of a larger one is refused.  The parser carries
  fuel, one unit per call; \<open>loads\<close> gives it twice the length of the text and two, which \<open>value_fuel\<close> shows is enough: more
  changes nothing.
\<close>

section \<open>Values and printing\<close>

datatype json =
    JNull
  | JBool bool
  | JInt int
  | JFloat string
  | JStr string
  | JList "json list"
  | JObj "(string \<times> json) list"

definition quote :: char where
  "quote = CHR 0x22"

definition backslash :: char where
  "backslash = CHR 0x5C"

definition escape_char :: "char \<Rightarrow> string" where
  "escape_char c =
     (let n = (of_char c :: nat)
      in if c = quote then [backslash, quote]
         else if c = backslash then [backslash, backslash]
         else if n = 10 then [backslash, CHR ''n'']
         else if n = 13 then [backslash, CHR ''r'']
         else if n = 9 then [backslash, CHR ''t'']
         else if n = 12 then [backslash, CHR ''f'']
         else if n = 8 then [backslash, CHR ''b'']
         else if 32 \<le> n \<and> n < 127 then [c]
         else [backslash, CHR ''u'', CHR ''0'', CHR ''0'', hex_digit (n div 16), hex_digit (n mod 16)])"

definition dump_string :: "string \<Rightarrow> string" where
  "dump_string s = [quote] @ concat (map escape_char s) @ [quote]"

fun digits :: "nat \<Rightarrow> string" where
  "digits n = (if n < 10 then [hex_digit n] else digits (n div 10) @ [hex_digit (n mod 10)])"

declare digits.simps [simp del]

definition dump_int :: "int \<Rightarrow> string" where
  "dump_int i = (if i < 0 then CHR ''-'' # digits (nat (- i)) else digits (nat i))"

fun join :: "string list \<Rightarrow> string" where
  "join [] = []"
| "join [s] = s"
| "join (s # t # ss) = s @ '', '' @ join (t # ss)"

fun dumps :: "json \<Rightarrow> string" where
  "dumps JNull = ''null''"
| "dumps (JBool b) = (if b then ''true'' else ''false'')"
| "dumps (JInt i) = dump_int i"
| "dumps (JFloat t) = t"
| "dumps (JStr s) = dump_string s"
| "dumps (JList vs) = ''['' @ join (map dumps vs) @ '']''"
| "dumps (JObj ps) = ''{'' @ join (map (\<lambda>(k, v). dump_string k @ '': '' @ dumps v) ps) @ ''}''"

text \<open>\<open>bool(v)\<close>.  A float text is true when its mantissa has a digit that is not zero.\<close>

fun json_true :: "json \<Rightarrow> bool" where
  "json_true JNull = False"
| "json_true (JBool b) = b"
| "json_true (JInt i) = (i \<noteq> 0)"
| "json_true (JFloat t) =
     list_ex (\<lambda>c. c \<notin> {CHR ''-'', CHR ''.'', CHR ''0''}) (takeWhile (\<lambda>c. c \<noteq> CHR ''e'' \<and> c \<noteq> CHR ''E'') t)"
| "json_true (JStr s) = (s \<noteq> [])"
| "json_true (JList vs) = (vs \<noteq> [])"
| "json_true (JObj ps) = (ps \<noteq> [])"

section \<open>Parsing\<close>

definition skip_ws :: "string \<Rightarrow> string" where
  "skip_ws s = dropWhile (\<lambda>c. of_char c \<in> {32, 9, 10, 13 :: nat}) s"

definition expect :: "char \<Rightarrow> string \<Rightarrow> string option" where
  "expect c s = (case s of [] \<Rightarrow> None | d # r \<Rightarrow> if d = c then Some r else None)"

fun expect_text :: "string \<Rightarrow> string \<Rightarrow> string option" where
  "expect_text [] s = Some s"
| "expect_text (c # cs) s = (case s of [] \<Rightarrow> None | d # r \<Rightarrow> if d = c then expect_text cs r else None)"

definition simple_escape :: "char \<Rightarrow> char option" where
  "simple_escape e =
     (if e = quote \<or> e = backslash \<or> e = CHR ''/'' then Some e
      else if e = CHR ''b'' then Some (char_of (8 :: nat))
      else if e = CHR ''f'' then Some (char_of (12 :: nat))
      else if e = CHR ''n'' then Some (char_of (10 :: nat))
      else if e = CHR ''r'' then Some (char_of (13 :: nat))
      else if e = CHR ''t'' then Some (char_of (9 :: nat))
      else None)"

definition hex4 :: "char \<Rightarrow> char \<Rightarrow> char \<Rightarrow> char \<Rightarrow> char option" where
  "hex4 a b c d =
     (case (unhex_digit a, unhex_digit b, unhex_digit c, unhex_digit d) of
        (Some w, Some x, Some y, Some z) \<Rightarrow>
          (let n = 4096 * w + 256 * x + 16 * y + z in if n < 256 then Some (char_of n) else None)
      | _ \<Rightarrow> None)"

text \<open>The rest of a string after its opening quote.\<close>

fun parse_chars :: "string \<Rightarrow> (string \<times> string) option" where
  "parse_chars [] = None"
| "parse_chars (c # cs) =
     (if c = quote then Some ([], cs)
      else if c = backslash then
        (case cs of
           [] \<Rightarrow> None
         | e # es \<Rightarrow>
             if e = CHR ''u'' then
               (case es of
                  h1 # h2 # h3 # h4 # rest \<Rightarrow>
                    (case hex4 h1 h2 h3 h4 of
                       None \<Rightarrow> None
                     | Some x \<Rightarrow> map_option (apfst (Cons x)) (parse_chars rest))
                | _ \<Rightarrow> None)
             else
               (case simple_escape e of
                  None \<Rightarrow> None
                | Some x \<Rightarrow> map_option (apfst (Cons x)) (parse_chars es)))
      else if of_char c < (32 :: nat) then None
      else map_option (apfst (Cons c)) (parse_chars cs))"

definition is_digit :: "char \<Rightarrow> bool" where
  "is_digit c \<longleftrightarrow> 48 \<le> (of_char c :: nat) \<and> (of_char c :: nat) \<le> 57"

definition number_of :: "string \<Rightarrow> nat" where
  "number_of ds = foldl (\<lambda>n c. 10 * n + (of_char c - 48)) 0 ds"

text \<open>The optional fraction and exponent at the front of a text, empty when they do not match.\<close>

definition fraction :: "string \<Rightarrow> string" where
  "fraction s =
     (case s of
        [] \<Rightarrow> []
      | c # r \<Rightarrow> let ds = takeWhile is_digit r in if c = CHR ''.'' \<and> ds \<noteq> [] then c # ds else [])"

definition exponent :: "string \<Rightarrow> string" where
  "exponent s =
     (case s of
        [] \<Rightarrow> []
      | c # r \<Rightarrow>
          if c = CHR ''e'' \<or> c = CHR ''E'' then
            (let sign = (case r of [] \<Rightarrow> [] | d # _ \<Rightarrow> if d = CHR ''+'' \<or> d = CHR ''-'' then [d] else []);
                 ds = takeWhile is_digit (drop (length sign) r)
             in if ds \<noteq> [] then c # sign @ ds else [])
          else [])"

definition parse_unsigned :: "string \<Rightarrow> string \<Rightarrow> (json \<times> string) option" where
  "parse_unsigned sign s1 =
     (let ds = takeWhile is_digit s1;
          int_part = (if ds \<noteq> [] \<and> hd ds = CHR ''0'' then [CHR ''0''] else ds);
          s2 = drop (length int_part) s1;
          frac = fraction s2;
          s3 = drop (length frac) s2;
          expo = exponent s3;
          s4 = drop (length expo) s3
      in if int_part = [] then None
         else if frac = [] \<and> expo = []
         then Some (JInt (if sign = [] then int (number_of int_part) else - int (number_of int_part)), s4)
         else Some (JFloat (sign @ int_part @ frac @ expo), s4))"

definition parse_number :: "string \<Rightarrow> (json \<times> string) option" where
  "parse_number s =
     (case s of
        [] \<Rightarrow> None
      | c # cs \<Rightarrow> if c = CHR ''-'' then parse_unsigned [c] cs else parse_unsigned [] s)"

text \<open>Literals and numbers, in the order the scanner tries them.\<close>

definition parse_scalar :: "string \<Rightarrow> (json \<times> string) option" where
  "parse_scalar s =
     (case expect_text ''null'' s of Some r \<Rightarrow> Some (JNull, r) | None \<Rightarrow>
      case expect_text ''true'' s of Some r \<Rightarrow> Some (JBool True, r) | None \<Rightarrow>
      case expect_text ''false'' s of Some r \<Rightarrow> Some (JBool False, r) | None \<Rightarrow>
      case parse_number s of Some v \<Rightarrow> Some v | None \<Rightarrow>
      case expect_text ''NaN'' s of Some r \<Rightarrow> Some (JFloat ''NaN'', r) | None \<Rightarrow>
      case expect_text ''Infinity'' s of Some r \<Rightarrow> Some (JFloat ''Infinity'', r) | None \<Rightarrow>
      case expect_text ''-Infinity'' s of Some r \<Rightarrow> Some (JFloat ''-Infinity'', r) | None \<Rightarrow> None)"

text \<open>A dictionary of pairs read in order: a repeated key overwrites.\<close>

definition dict_of_pairs :: "('k \<times> 'v) list \<Rightarrow> ('k, 'v) pydict" where
  "dict_of_pairs ps = fold (\<lambda>(k, v) d. dict_set k v d) ps []"

fun parse_value :: "nat \<Rightarrow> string \<Rightarrow> (json \<times> string) option"
  and parse_elements :: "nat \<Rightarrow> string \<Rightarrow> (json list \<times> string) option"
  and parse_members :: "nat \<Rightarrow> string \<Rightarrow> ((string \<times> json) list \<times> string) option"
where
  "parse_value 0 s = None"
| "parse_value (Suc n) s =
     (case s of
        [] \<Rightarrow> None
      | c # cs \<Rightarrow>
          if c = quote then map_option (apfst JStr) (parse_chars cs)
          else if c = CHR ''{'' then
            (case expect (CHR ''}'') (skip_ws cs) of
               Some r \<Rightarrow> Some (JObj [], r)
             | None \<Rightarrow> map_option (apfst (JObj \<circ> dict_of_pairs)) (parse_members n (skip_ws cs)))
          else if c = CHR ''['' then
            (case expect (CHR '']'') (skip_ws cs) of
               Some r \<Rightarrow> Some (JList [], r)
             | None \<Rightarrow> map_option (apfst JList) (parse_elements n (skip_ws cs)))
          else parse_scalar s)"
| "parse_elements 0 s = None"
| "parse_elements (Suc n) s =
     (case parse_value n s of
        None \<Rightarrow> None
      | Some (v, r) \<Rightarrow>
          (case expect (CHR '']'') (skip_ws r) of
             Some r' \<Rightarrow> Some ([v], r')
           | None \<Rightarrow>
               (case expect (CHR '','') (skip_ws r) of
                  None \<Rightarrow> None
                | Some r' \<Rightarrow> map_option (apfst (Cons v)) (parse_elements n (skip_ws r')))))"
| "parse_members 0 s = None"
| "parse_members (Suc n) s =
     (case expect quote s of
        None \<Rightarrow> None
      | Some cs \<Rightarrow>
          (case parse_chars cs of
             None \<Rightarrow> None
           | Some (k, r) \<Rightarrow>
               (case expect (CHR '':'') (skip_ws r) of
                  None \<Rightarrow> None
                | Some r1 \<Rightarrow>
                    (case parse_value n (skip_ws r1) of
                       None \<Rightarrow> None
                     | Some (v, r2) \<Rightarrow>
                         (case expect (CHR ''}'') (skip_ws r2) of
                            Some r3 \<Rightarrow> Some ([(k, v)], r3)
                          | None \<Rightarrow>
                              (case expect (CHR '','') (skip_ws r2) of
                                 None \<Rightarrow> None
                               | Some r3 \<Rightarrow> map_option (apfst (Cons (k, v))) (parse_members n (skip_ws r3))))))))"

text \<open>\<open>json.loads\<close> of a text, \<open>None\<close> for its JSONDecodeError, which is a ValueError.\<close>

definition loads :: "string \<Rightarrow> json option" where
  "loads s =
     (case parse_value (2 * length s + 2) (skip_ws s) of
        None \<Rightarrow> None
      | Some (v, r) \<Rightarrow> if skip_ws r = [] then Some v else None)"

section \<open>The fuel is enough\<close>

lemma expect_length: "expect c s = Some r \<Longrightarrow> length s = Suc (length r)"
  by (auto simp: expect_def split: list.splits if_splits)

lemma expect_text_length: "expect_text p s = Some r \<Longrightarrow> length s = length p + length r"
  by (induction p s rule: expect_text.induct) (auto split: list.splits if_splits)

lemma length_skip_ws: "length (skip_ws s) \<le> length s"
  by (simp add: skip_ws_def length_dropWhile_le)

lemma parse_chars_length: "parse_chars s = Some (x, r) \<Longrightarrow> length r < length s"
proof (induction s arbitrary: x r rule: parse_chars.induct)
  case 1
  then show ?case by simp
next
  case (2 c cs)
  then show ?case
    by (fastforce split: if_splits list.splits option.splits)
qed

lemma parse_unsigned_length: "parse_unsigned sign s = Some (v, r) \<Longrightarrow> length r < length s"
  by (cases s) (auto simp: parse_unsigned_def Let_def split: if_splits)

lemma parse_number_length: "parse_number s = Some (v, r) \<Longrightarrow> length r < length s"
  by (auto simp: parse_number_def split: list.splits if_splits dest: parse_unsigned_length)

lemma parse_scalar_length: "parse_scalar s = Some (v, r) \<Longrightarrow> length r < length s"
  by (auto simp: parse_scalar_def simp del: expect_text.simps split: option.splits
      dest!: expect_text_length parse_number_length)

lemma expect_skip_length: "expect c (skip_ws s) = Some r \<Longrightarrow> length r < length s"
  using length_skip_ws [of s] by (simp add: expect_length)

lemma expect_quote_length: "expect quote s = Some r \<Longrightarrow> length r < length s"
  by (simp add: expect_length)

lemmas consumed = expect_skip_length expect_quote_length parse_chars_length parse_scalar_length

text \<open>What a parser leaves is shorter than what it read.\<close>

lemma parse_length:
  "(parse_value n s = Some (v, r) \<longrightarrow> length r < length s) \<and>
   (parse_elements n s = Some (vs, r) \<longrightarrow> length r < length s) \<and>
   (parse_members n s = Some (ps, r) \<longrightarrow> length r < length s)"
proof (induction n arbitrary: s v vs ps r)
  case 0
  show ?case by simp
next
  case (Suc n)
  have v: "length r < length s" if "parse_value n (skip_ws s) = Some (v, r)" for s v r
    using Suc that length_skip_ws [of s] by (meson order.strict_trans2)
  have v': "length r < length s" if "parse_value n s = Some (v, r)" for s v r
    using Suc that by blast
  have e: "length r < length s" if "parse_elements n (skip_ws s) = Some (vs, r)" for s vs r
    using Suc that length_skip_ws [of s] by (meson order.strict_trans2)
  have m: "length r < length s" if "parse_members n (skip_ws s) = Some (ps, r)" for s ps r
    using Suc that length_skip_ws [of s] by (meson order.strict_trans2)
  have "length r < length s" if "parse_value (Suc n) s = Some (v, r)"
    using that by (auto split: list.splits if_splits option.splits dest!: consumed e m)
  moreover have "length r < length s" if "parse_elements (Suc n) s = Some (vs, r)"
    using that by (auto split: option.splits dest!: consumed v' e)
  moreover have "length r < length s" if "parse_members (Suc n) s = Some (ps, r)"
    using that by (auto split: option.splits dest!: consumed v m)
  ultimately show ?case by blast
qed

lemma value_length: "parse_value n s = Some (v, r) \<Longrightarrow> length r < length s"
  using parse_length by blast

text \<open>With a fuel of more than twice the length of the text, more fuel changes nothing.\<close>

lemma fuel_irrelevant:
  "(2 * length s + 1 \<le> n \<and> 2 * length s + 1 \<le> m \<longrightarrow> parse_value n s = parse_value m s) \<and>
   (2 * length s + 2 \<le> n \<and> 2 * length s + 2 \<le> m \<longrightarrow> parse_elements n s = parse_elements m s) \<and>
   (2 * length s + 2 \<le> n \<and> 2 * length s + 2 \<le> m \<longrightarrow> parse_members n s = parse_members m s)"
proof (induction n arbitrary: s m)
  case 0
  show ?case by simp
next
  case (Suc n)
  show ?case
  proof (cases m)
    case 0
    then show ?thesis by simp
  next
    case m: (Suc k)
    have v: "parse_value n t = parse_value k t" if "length t \<le> length s" "2 * length t + 1 \<le> n" "2 * length t + 1 \<le> k" for t
      using Suc [of t k] that by blast
    have e: "parse_elements n (skip_ws t) = parse_elements k (skip_ws t)"
      if "length t < length s" "2 * length s \<le> n" "2 * length s \<le> k" for t
      using Suc [of "skip_ws t" k] that length_skip_ws [of t] by simp
    have mm: "parse_members n (skip_ws t) = parse_members k (skip_ws t)"
      if "length t < length s" "2 * length s \<le> n" "2 * length s \<le> k" for t
      using Suc [of "skip_ws t" k] that length_skip_ws [of t] by simp
    have "parse_value (Suc n) s = parse_value (Suc k) s" if "2 * length s \<le> n" "2 * length s \<le> k"
    proof (cases s)
      case (Cons c cs)
      then show ?thesis using e [of cs] mm [of cs] that by (simp split: option.split)
    qed simp
    moreover have "parse_elements (Suc n) s = parse_elements (Suc k) s" if "2 * length s + 1 \<le> n" "2 * length s + 1 \<le> k"
    proof -
      have "parse_value n s = parse_value k s" using v [of s] that by simp
      moreover have "parse_elements n (skip_ws r') = parse_elements k (skip_ws r')"
        if "parse_value k s = Some (v, r)" "expect c (skip_ws r) = Some r'" for v r c r'
        using e [of r'] value_length [OF that(1)] expect_skip_length [OF that(2)]
          \<open>2 * length s + 1 \<le> n\<close> \<open>2 * length s + 1 \<le> k\<close> by simp
      ultimately show ?thesis by (auto split: option.splits)
    qed
    moreover have "parse_members (Suc n) s = parse_members (Suc k) s" if "2 * length s + 1 \<le> n" "2 * length s + 1 \<le> k"
    proof -
      have 1: "parse_value n (skip_ws r1) = parse_value k (skip_ws r1)" if "length r1 < length s" for r1
        using v [of "skip_ws r1"] that length_skip_ws [of r1] \<open>2 * length s + 1 \<le> n\<close> \<open>2 * length s + 1 \<le> k\<close> by simp
      have 2: "parse_members n (skip_ws r3) = parse_members k (skip_ws r3)" if "length r3 < length s" for r3
        using mm [of r3] that \<open>2 * length s + 1 \<le> n\<close> \<open>2 * length s + 1 \<le> k\<close> by simp
      have 3: "length r < length s" if "parse_value k (skip_ws s) = Some (v, r)" for s v r
        using value_length [OF that] length_skip_ws [of s] by simp
      show ?thesis
      proof (cases "\<exists>cs key r r1. expect quote s = Some cs \<and> parse_chars cs = Some (key, r) \<and> expect (CHR '':'') (skip_ws r) = Some r1")
        case False
        then show ?thesis by (auto split: option.splits)
      next
        case True
        then obtain cs key r r1 where r1: "expect quote s = Some cs" "parse_chars cs = Some (key, r)"
          "expect (CHR '':'') (skip_ws r) = Some r1"
          by blast
        then have "length r1 < length s" by (auto dest!: consumed)
        moreover have "parse_members n (skip_ws r3) = parse_members k (skip_ws r3)"
          if "parse_value k (skip_ws r1) = Some (w, r2)" "expect (CHR '','') (skip_ws r2) = Some r3" for w r2 r3
          using 2 [of r3] 3 [OF that(1)] expect_skip_length [OF that(2)] \<open>length r1 < length s\<close> by simp
        ultimately show ?thesis by (simp add: r1 1 split: option.split)
      qed
    qed
    ultimately show ?thesis using m by simp
  qed
qed

lemma value_fuel: "2 * length s + 1 \<le> n \<Longrightarrow> 2 * length s + 1 \<le> m \<Longrightarrow> parse_value n s = parse_value m s"
  using fuel_irrelevant by blast

section \<open>Round trip\<close>

lemma of_char_hex_digit: "n < 10 \<Longrightarrow> of_char (hex_digit n) = n + 48"
proof -
  assume "n < 10"
  have "list_all (\<lambda>n. of_char (hex_digit n) = n + 48) [0..<10]" by code_simp
  with \<open>n < 10\<close> show ?thesis by (simp add: list_all_iff)
qed

lemma of_char_number_char [simp]:
  "n < 10 \<Longrightarrow> is_digit (hex_digit n)"
  by (simp add: is_digit_def of_char_hex_digit)

lemma parse_chars_escape: "parse_chars (escape_char c @ t) = map_option (apfst (Cons c)) (parse_chars t)"
proof -
  let ?n = "of_char c :: nat"
  have n: "?n < 256" by simp
  have hex: "hex4 (CHR ''0'') (CHR ''0'') (hex_digit (?n div 16)) (hex_digit (?n mod 16)) = Some c"
  proof -
    have z: "unhex_digit (CHR ''0'') = Some 0" by code_simp
    have "?n div 16 < 16" using n by linarith
    moreover have "16 * (?n div 16) + ?n mod 16 = ?n" by simp
    ultimately show ?thesis by (simp add: hex4_def z unhex_hex_digit)
  qed
  have ctrl: "c = char_of k" if "?n = k" for k
    using that [symmetric] by simp
  consider "c = quote" | "c = backslash" | "?n \<in> {8, 9, 10, 12, 13}"
    | "c \<noteq> quote" "c \<noteq> backslash" "?n \<notin> {8, 9, 10, 12, 13}" "32 \<le> ?n \<and> ?n < 127"
    | "c \<noteq> quote" "c \<noteq> backslash" "?n \<notin> {8, 9, 10, 12, 13}" "\<not> (32 \<le> ?n \<and> ?n < 127)"
    by blast
  then show ?thesis
  proof cases
    case 3
    then show ?thesis
      by (auto dest!: ctrl simp: escape_char_def Let_def quote_def backslash_def simple_escape_def)
  next
    case 5
    then show ?thesis
      by (simp add: escape_char_def Let_def hex) (simp add: quote_def backslash_def)
  qed (simp_all add: escape_char_def Let_def simple_escape_def, simp_all add: quote_def backslash_def)
qed

lemma parse_chars_dump: "parse_chars (concat (map escape_char s) @ quote # rest) = Some (s, rest)"
  by (induction s) (simp_all add: parse_chars_escape)

lemma digits_not_Nil [simp]: "digits n \<noteq> []"
  by (subst digits.simps) simp

lemma all_digits: "list_all is_digit (digits n)"
  by (induction n rule: digits.induct) (subst digits.simps, simp)

lemma hd_digits: "hd (digits n) = CHR ''0'' \<Longrightarrow> n = 0"
proof (induction n rule: digits.induct)
  case (1 n)
  show ?case
  proof (cases "n < 10")
    case True
    with "1.prems" have "hex_digit n = CHR ''0''" by (simp add: digits.simps [of n])
    then have "n + 48 = of_char (CHR ''0'' :: char)" using of_char_hex_digit [OF True] by simp
    then show ?thesis by simp
  next
    case False
    with 1 have "n div 10 = 0" by (simp add: digits.simps [of n])
    with False show ?thesis by simp
  qed
qed

lemma number_of_append: "number_of (ds @ [c]) = 10 * number_of ds + (of_char c - 48)"
  by (simp add: number_of_def)

lemma number_of_digits: "number_of (digits n) = n"
proof (induction n rule: digits.induct)
  case (1 n)
  show ?case
  proof (cases "n < 10")
    case True
    then show ?thesis by (simp add: digits.simps [of n] number_of_def of_char_hex_digit)
  next
    case False
    with 1 show ?thesis by (simp add: digits.simps [of n] number_of_append of_char_hex_digit)
  qed
qed

text \<open>What may follow a number: neither a digit nor the start of a fraction or an exponent.\<close>

definition number_end :: "string \<Rightarrow> bool" where
  "number_end s \<longleftrightarrow> (case s of [] \<Rightarrow> True | c # _ \<Rightarrow> \<not> is_digit c \<and> c \<notin> {CHR ''.'', CHR ''e'', CHR ''E''})"

lemma number_end_simps [simp]:
  "number_end []"
  "number_end (CHR '','' # s)"
  "number_end (CHR '']'' # s)"
  "number_end (CHR ''}'' # s)"
  by (simp_all add: number_end_def is_digit_def)

lemma takeWhile_digits: "number_end rest \<Longrightarrow> takeWhile is_digit (digits n @ rest) = digits n"
  using all_digits [of n] by (cases rest) (auto simp: number_end_def list_all_iff)

lemma no_fraction: "number_end rest \<Longrightarrow> fraction rest = [] \<and> exponent rest = []"
  by (cases rest) (auto simp: number_end_def fraction_def exponent_def)

lemma digits_start: "\<exists>c cs. digits n = c # cs \<and> is_digit c"
  using all_digits [of n] by (cases "digits n") auto

lemma int_part_digits: "(if hd (digits n) = CHR ''0'' then [CHR ''0''] else digits n) = digits n"
  using hd_digits [of n] by (auto simp: digits.simps [of 0] hex_digit_def)

lemma parse_unsigned_digits:
  assumes "number_end rest"
  shows "parse_unsigned sign (digits n @ rest) = Some (JInt (if sign = [] then int n else - int n), rest)"
  by (simp add: parse_unsigned_def Let_def takeWhile_digits [OF assms] int_part_digits no_fraction [OF assms]
      number_of_digits cong: if_cong del: takeWhile_append)

lemma parse_number_dump:
  assumes "number_end rest"
  shows "parse_number (dump_int i @ rest) = Some (JInt i, rest)"
proof (cases "i < 0")
  case True
  then show ?thesis
    using parse_unsigned_digits [OF assms] by (simp add: dump_int_def parse_number_def)
next
  case False
  obtain c cs where "digits (nat i) = c # cs" "is_digit c"
    using digits_start by blast
  with False show ?thesis
    using parse_unsigned_digits [OF assms, of "[]" "nat i"]
    by (auto simp: dump_int_def parse_number_def is_digit_def)
qed

text \<open>Values that survive a round trip: no float texts, and the keys of an object distinct, as those of a dict are.\<close>

fun wf_json :: "json \<Rightarrow> bool" where
  "wf_json JNull = True"
| "wf_json (JBool b) = True"
| "wf_json (JInt i) = True"
| "wf_json (JFloat t) = False"
| "wf_json (JStr s) = True"
| "wf_json (JList vs) = list_all wf_json vs"
| "wf_json (JObj ps) = (distinct (map fst ps) \<and> list_all (\<lambda>(k, v). wf_json v) ps)"

lemma parse_scalar_int:
  assumes "number_end rest"
  shows "parse_scalar (dump_int i @ rest) = Some (JInt i, rest)"
proof -
  obtain c cs where c: "dump_int i = c # cs" "is_digit c \<or> c = CHR ''-''"
    using digits_start [of "nat i"] by (cases "i < 0") (auto simp: dump_int_def)
  then have "expect_text ''null'' (dump_int i @ rest) = None" "expect_text ''true'' (dump_int i @ rest) = None"
    "expect_text ''false'' (dump_int i @ rest) = None"
    by (auto simp: is_digit_def)
  then show ?thesis
    using parse_number_dump [OF assms, of i] by (simp add: parse_scalar_def del: expect_text.simps)
qed

text \<open>A printed value starts with a character that is neither blank nor a closing bracket.\<close>

definition value_start :: "char \<Rightarrow> bool" where
  "value_start c \<longleftrightarrow> is_digit c \<or> c \<in> {CHR ''-'', CHR ''n'', CHR ''t'', CHR ''f'', CHR ''['', CHR ''{'', quote}"

lemma value_start_dumps: "wf_json v \<Longrightarrow> \<exists>c cs. dumps v = c # cs \<and> value_start c"
  using digits_start by (cases v) (fastforce simp: value_start_def dump_int_def dump_string_def)+

lemma skip_value_start: "value_start c \<Longrightarrow> skip_ws (c # cs) = c # cs"
  by (auto simp: value_start_def skip_ws_def is_digit_def quote_def)

lemma skip_ws_simps [simp]:
  "skip_ws [] = []"
  "skip_ws (CHR '' '' # s) = skip_ws s"
  "skip_ws (CHR '','' # s) = CHR '','' # s"
  "skip_ws (CHR '':'' # s) = CHR '':'' # s"
  "skip_ws (CHR '']'' # s) = CHR '']'' # s"
  "skip_ws (CHR ''}'' # s) = CHR ''}'' # s"
  "skip_ws (quote # s) = quote # s"
  by (simp_all add: skip_ws_def quote_def)

lemma skip_ws_dumps [simp]: "wf_json v \<Longrightarrow> skip_ws (dumps v @ rest) = dumps v @ rest"
  using value_start_dumps [of v] by (auto simp: skip_value_start)

lemma expect_dumps: "wf_json v \<Longrightarrow> c = CHR '']'' \<or> c = CHR ''}'' \<Longrightarrow> expect c (dumps v @ rest) = None"
  using value_start_dumps [of v] by (auto simp: expect_def value_start_def is_digit_def quote_def)

lemma expect_simps [simp]: "expect c (c # s) = Some s" "d \<noteq> c \<Longrightarrow> expect c (d # s) = None"
  by (simp_all add: expect_def)

text \<open>\<open>parses v\<close>: with enough fuel the parser reads the printed \<open>v\<close> back, whatever follows it.\<close>

definition parses :: "json \<Rightarrow> bool" where
  "parses v \<longleftrightarrow> (\<exists>N. \<forall>n \<ge> N. \<forall>rest. number_end rest \<longrightarrow> parse_value n (dumps v @ rest) = Some (v, rest))"

lemma parsesI: "(\<And>n rest. number_end rest \<Longrightarrow> N \<le> n \<Longrightarrow> parse_value (Suc n) (dumps v @ rest) = Some (v, rest)) \<Longrightarrow> parses v"
  unfolding parses_def by (rule exI [of _ "Suc N"]) (metis Suc_le_D Suc_le_mono)

lemma parse_elements_dumps:
  assumes "vs \<noteq> []" and "\<forall>v \<in> set vs. wf_json v \<and> parses v"
  shows "\<exists>N. \<forall>n \<ge> N. \<forall>rest. parse_elements n (join (map dumps vs) @ CHR '']'' # rest) = Some (vs, rest)"
  using assms
proof (induction vs rule: list_nonempty_induct)
  case (single v)
  then have "parses v" by simp
  then obtain N where N: "\<And>n rest. N \<le> n \<Longrightarrow> number_end rest \<Longrightarrow> parse_value n (dumps v @ rest) = Some (v, rest)"
    unfolding parses_def by blast
  have "parse_elements (Suc n) (dumps v @ CHR '']'' # rest) = Some ([v], rest)" if "N \<le> n" for n rest
    using N [OF that, of "CHR '']'' # rest"] by simp
  then show ?case by (intro exI [of _ "Suc N"]) (metis Suc_le_D Suc_le_mono join.simps(2) list.simps(8,9))
next
  case (cons v vs)
  have "parses v" using cons.prems by simp
  then obtain N where N: "\<And>n rest. N \<le> n \<Longrightarrow> number_end rest \<Longrightarrow> parse_value n (dumps v @ rest) = Some (v, rest)"
    unfolding parses_def by blast
  obtain M where M: "\<And>n rest. M \<le> n \<Longrightarrow> parse_elements n (join (map dumps vs) @ CHR '']'' # rest) = Some (vs, rest)"
    using cons by auto
  obtain w ws where vs: "vs = w # ws" using cons by (cases vs) auto
  then have w: "wf_json w" using cons.prems by simp
  obtain t where t: "join (map dumps vs) = dumps w @ t"
    unfolding vs by (cases ws) simp_all
  have "parse_elements (Suc n) (join (map dumps (v # vs)) @ CHR '']'' # rest) = Some (v # vs, rest)"
    if "max N M \<le> n" for n rest
    using N [of n "CHR '','' # CHR '' '' # join (map dumps vs) @ CHR '']'' # rest"] M [of n rest] that w t
    by (simp add: vs)
  then show ?case by (intro exI [of _ "Suc (max N M)"]) (metis Suc_le_D Suc_le_mono)
qed

definition dump_member :: "string \<times> json \<Rightarrow> string" where
  "dump_member kv = dump_string (fst kv) @ '': '' @ dumps (snd kv)"

lemma dumps_obj: "dumps (JObj ps) = ''{'' @ join (map dump_member ps) @ ''}''"
  by (simp add: dump_member_def [abs_def] split_def)

lemma dump_member_start: "dump_member kv @ rest = quote # concat (map escape_char (fst kv)) @ quote # '': '' @ dumps (snd kv) @ rest"
  by (simp add: dump_member_def dump_string_def)

lemma parse_member:
  assumes "\<And>rest. number_end rest \<Longrightarrow> parse_value n (dumps v @ rest) = Some (v, rest)" and "wf_json v"
  shows "parse_members (Suc n) (dump_member (k, v) @ CHR ''}'' # rest) = Some ([(k, v)], rest)"
    and "parse_members (Suc n) (dump_member (k, v) @ CHR '','' # CHR '' '' # rest) =
      map_option (apfst (Cons (k, v))) (parse_members n (skip_ws rest))"
  using assms by (simp_all add: dump_member_start parse_chars_dump)

lemma parse_members_dumps:
  assumes "ps \<noteq> []" and "\<forall>(k, v) \<in> set ps. wf_json v \<and> parses v"
  shows "\<exists>N. \<forall>n \<ge> N. \<forall>rest. parse_members n (join (map dump_member ps) @ CHR ''}'' # rest) = Some (ps, rest)"
  using assms
proof (induction ps rule: list_nonempty_induct)
  case (single p)
  obtain k v where p: "p = (k, v)" by (cases p)
  with single have "parses v" by simp
  then obtain N where N: "\<And>n rest. N \<le> n \<Longrightarrow> number_end rest \<Longrightarrow> parse_value n (dumps v @ rest) = Some (v, rest)"
    unfolding parses_def by blast
  have "parse_members (Suc n) (dump_member (k, v) @ CHR ''}'' # rest) = Some ([(k, v)], rest)" if "N \<le> n" for n rest
    using single p N [OF that] by (intro parse_member) simp_all
  then show ?case unfolding p
    by (intro exI [of _ "Suc N"]) (metis Suc_le_D Suc_le_mono join.simps(2) list.simps(8,9))
next
  case (cons p ps)
  obtain k v where p: "p = (k, v)" by (cases p)
  have "parses v" using cons.prems p by simp
  then obtain N where N: "\<And>n rest. N \<le> n \<Longrightarrow> number_end rest \<Longrightarrow> parse_value n (dumps v @ rest) = Some (v, rest)"
    unfolding parses_def by blast
  obtain M where M: "\<And>n rest. M \<le> n \<Longrightarrow> parse_members n (join (map dump_member ps) @ CHR ''}'' # rest) = Some (ps, rest)"
    using cons by auto
  obtain q qs where ps: "ps = q # qs" using cons by (cases ps) auto
  obtain t where t: "join (map dump_member ps) = dump_member q @ t"
    unfolding ps by (cases qs) simp_all
  have "parse_members (Suc n) (join (map dump_member (p # ps)) @ CHR ''}'' # rest) = Some (p # ps, rest)"
    if n: "max N M \<le> n" for n rest
  proof -
    have "parse_members (Suc n) (dump_member (k, v) @ CHR '','' # CHR '' '' # join (map dump_member ps) @ CHR ''}'' # rest) =
      map_option (apfst (Cons (k, v))) (parse_members n (skip_ws (join (map dump_member ps) @ CHR ''}'' # rest)))"
      using cons.prems p n N [of n] by (intro parse_member) simp_all
    also have "skip_ws (join (map dump_member ps) @ CHR ''}'' # rest) = join (map dump_member ps) @ CHR ''}'' # rest"
      by (simp add: t dump_member_start)
    finally show ?thesis using M [of n rest] n by (simp add: ps p)
  qed
  then show ?case by (intro exI [of _ "Suc (max N M)"]) (metis Suc_le_D Suc_le_mono)
qed

lemma wf_dict_of_pairs [simp]: "wf_dict (dict_of_pairs ps)"
proof -
  have "wf_dict d \<Longrightarrow> wf_dict (fold (\<lambda>(k, v). dict_set k v) ps d)" for d
    by (induction ps arbitrary: d) auto
  then show ?thesis by (simp add: dict_of_pairs_def)
qed

lemma dict_of_pairs_id: "distinct (map fst ps) \<Longrightarrow> dict_of_pairs ps = ps"
proof (induction ps rule: rev_induct)
  case (snoc p ps)
  obtain k v where p: "p = (k, v)" by (cases p)
  with snoc have "dict_get ps k = None" "dict_of_pairs ps = ps" by (auto simp: dict_get_None dict_keys_def)
  then show ?case by (simp add: dict_of_pairs_def p set_dict_set_fresh)
qed (simp add: dict_of_pairs_def)

lemma parses_dumps: "wf_json v \<Longrightarrow> parses v"
proof (induction v)
  case (JStr s)
  show ?case by (rule parsesI [of 0]) (simp add: dump_string_def parse_chars_dump)
next
  case (JInt i)
  obtain c cs where "dump_int i = c # cs" "is_digit c \<or> c = CHR ''-''"
    using digits_start [of "nat i"] by (cases "i < 0") (auto simp: dump_int_def)
  then have "parse_value (Suc n) (dump_int i @ rest) = parse_scalar (dump_int i @ rest)" for n rest
    by (auto simp: is_digit_def quote_def)
  then show ?case by (intro parsesI [of 0]) (simp add: parse_scalar_int)
next
  case (JList vs)
  show ?case
  proof (cases "vs = []")
    case False
    have "\<forall>v \<in> set vs. wf_json v \<and> parses v" using JList by (auto simp: list_all_iff)
    from parse_elements_dumps [OF False this] obtain N where
      N: "\<And>n rest. N \<le> n \<Longrightarrow> parse_elements n (join (map dumps vs) @ CHR '']'' # rest) = Some (vs, rest)" by blast
    obtain w ws where vs: "vs = w # ws" using False by (cases vs) auto
    obtain t where t: "join (map dumps vs) = dumps w @ t"
      unfolding vs by (cases ws) simp_all
    have w: "wf_json w" using JList.prems vs by simp
    show ?thesis
    proof (rule parsesI [of N])
      fix n rest assume "N \<le> n"
      then show "parse_value (Suc n) (dumps (JList vs) @ rest) = Some (JList vs, rest)"
        using N [of n rest] w by (simp add: t expect_dumps quote_def)
    qed
  qed (rule parsesI [of 0], simp add: quote_def)
next
  case (JObj ps)
  show ?case
  proof (cases "ps = []")
    case False
    have "\<forall>(k, v) \<in> set ps. wf_json v \<and> parses v" using JObj by (fastforce simp: list_all_iff)
    from parse_members_dumps [OF False this] obtain N where
      N: "\<And>n rest. N \<le> n \<Longrightarrow> parse_members n (join (map dump_member ps) @ CHR ''}'' # rest) = Some (ps, rest)" by blast
    obtain q qs where ps: "ps = q # qs" using False by (cases ps) auto
    obtain t where t: "join (map dump_member ps) = dump_member q @ t"
      unfolding ps by (cases qs) simp_all
    have d: "dict_of_pairs ps = ps" using JObj.prems by (simp add: dict_of_pairs_id)
    show ?thesis
    proof (rule parsesI [of N])
      fix n rest assume "N \<le> n"
      moreover have "CHR ''{'' \<noteq> quote" "quote \<noteq> CHR ''}''" by (simp_all add: quote_def)
      ultimately show "parse_value (Suc n) (dumps (JObj ps) @ rest) = Some (JObj ps, rest)"
        using N [of n rest] d unfolding dumps_obj by (simp add: t dump_member_start)
    qed
  qed (rule parsesI [of 0], simp add: quote_def)
qed (rule parsesI [of 0], simp add: quote_def parse_scalar_def)+

text \<open>\<open>json.loads(json.dumps(v)) == v\<close>.\<close>

lemma loads_dumps [codec]: "wf_json v \<Longrightarrow> loads (dumps v) = Some v"
proof -
  assume v: "wf_json v"
  then obtain N where N: "\<And>n. N \<le> n \<Longrightarrow> parse_value n (dumps v) = Some (v, [])"
    using parses_dumps [of v] unfolding parses_def by (metis append_Nil2 number_end_simps(1))
  have "parse_value (2 * length (dumps v) + 2) (dumps v) = parse_value (max N (2 * length (dumps v) + 2)) (dumps v)"
    by (rule value_fuel) simp_all
  then show ?thesis
    using N [of "max N (2 * length (dumps v) + 2)"] skip_ws_dumps [OF v, of "[]"] by (simp add: loads_def)
qed

end
