(* ===== verification/Onion_Json.thy ===== *)
theory Onion_Json
  imports Sphinx Json
begin

text \<open>
  The structured packets of \<open>protocols/sphinx.py\<close>: every layer is a JSON text that holds the payload of a hop, the text of the
  next layer and its HMAC, under an HMAC with the secret shared with the hop.  The secrets are derived as for the binary packets.
  \<open>unwrap_onion_packet\<close> takes either kind.  Pydantic's coercion of numbers given as text or floats is not modelled; such a
  payload is refused.
\<close>

section \<open>Wrapping\<close>

definition layer_data :: "hop \<Rightarrow> string \<Rightarrow> string \<Rightarrow> json" where
  "layer_data h inner inner_hmac =
     (case h of (node_name, next_hop, amount, cltv) \<Rightarrow>
        JObj [(''payload'', JObj [(''next_hop'', JStr next_hop), (''amount_sat'', JInt amount), (''cltv_locktime'', JInt cltv)]),
              (''inner'', JStr inner), (''inner_hmac'', JStr inner_hmac)])"

definition layer_hmac :: "bytes \<Rightarrow> bytes \<Rightarrow> string" where
  "layer_hmac shared_secret message = take (SPHINX_HEADER_BYTES * 2) (compute_hmac shared_secret message)"

text \<open>The text and the HMAC of the layers, from the last hop to the first.\<close>

fun wrap_json_layers :: "(hop \<times> bytes) list \<Rightarrow> string \<times> string" where
  "wrap_json_layers [] = ([], [])"
| "wrap_json_layers ((h, ss) # layers) =
     (case wrap_json_layers layers of
        (inner, inner_hmac) \<Rightarrow>
          let t = dumps (layer_data h inner inner_hmac) in (t, layer_hmac ss (utf8_encode t)))"

definition create_onion_packet ::
    "btclib \<Rightarrow> 'p eclib \<Rightarrow> hop list \<Rightarrow> (string, pubkey_arg) pydict \<Rightarrow> bytes \<Rightarrow> bytes list \<Rightarrow> sphinx_packet res"
where
  "create_onion_packet L E hs node_pubkeys session_random randoms =
     rbind (generate_keypair L None session_random) (\<lambda>(ephemeral_sec, ephemeral_pub).
     let d = uint_be (take 32 ephemeral_sec) mod SECP256K1_ORDER in
     rbind (derive_hops L E node_pubkeys hs randoms d ephemeral_pub) (\<lambda>derived.
     let (current_payload, current_hmac) = wrap_json_layers (zip hs (map snd derived)) in
     case derived of
       [] \<Rightarrow> Inl IndexError
     | (ephem, _) # _ \<Rightarrow>
         Inr \<lparr>ephemeral_key_hex = hexlify ephem, routing_info_hex = hexlify (utf8_encode current_payload),
              hmac_hex = current_hmac, sphinx_version = 0\<rparr>))"

section \<open>Unwrapping\<close>

text \<open>\<open>SphinxPayload(**v)\<close>.\<close>

definition as_payload :: "json \<Rightarrow> sphinx_payload res" where
  "as_payload v =
     (case v of
        JObj ps \<Rightarrow>
          (case (dict_get ps ''next_hop'', dict_get ps ''amount_sat'', dict_get ps ''cltv_locktime'') of
             (Some (JStr n), Some (JInt a), Some (JInt c)) \<Rightarrow>
               Inr \<lparr>sp_next_hop = n, sp_amount_sat = a, sp_cltv_locktime = c\<rparr>
           | _ \<Rightarrow> Inl ValueError)
      | _ \<Rightarrow> Inl TypeError)"

definition layer_item :: "json \<Rightarrow> string \<Rightarrow> json res" where
  "layer_item v k =
     (case v of
        JObj ps \<Rightarrow> (case dict_get ps k of None \<Rightarrow> Inl KeyError | Some w \<Rightarrow> Inr w)
      | _ \<Rightarrow> Inl TypeError)"

definition unwrap_onion_packet ::
    "btclib \<Rightarrow> 'p eclib \<Rightarrow> stream_cipher \<Rightarrow> sphinx_packet \<Rightarrow> string \<Rightarrow> bytes \<Rightarrow> (sphinx_payload \<times> sphinx_packet option) res"
where
  "unwrap_onion_packet L E stream packet node_wif_key random_bytes =
     (if is_bolt4_binary packet then unwrap_bolt4_binary_packet L E stream packet node_wif_key random_bytes
      else
        rbind (generate_keypair L (Some node_wif_key) random_bytes) (\<lambda>(node_sec, _).
        rbind (bytes_fromhex (ephemeral_key_hex packet)) (\<lambda>ephemeral_pub.
        rbind (derive_shared_secret L E (SecBytes node_sec) ephemeral_pub) (\<lambda>shared_secret.
        rbind (bytes_fromhex (routing_info_hex packet)) (\<lambda>packet_bytes.
        if hmac_hex packet \<noteq> layer_hmac shared_secret packet_bytes then Inl PaymentCommunityError
        else
          (case utf8_decode packet_bytes of
             None \<Rightarrow> Inl ValueError
           | Some t \<Rightarrow>
               (case loads t of
                  None \<Rightarrow> Inl ValueError
                | Some data \<Rightarrow>
                    rbind (rbind (layer_item data ''payload'') as_payload) (\<lambda>payload.
                    rbind (layer_item data ''inner'') (\<lambda>inner.
                    if \<not> json_true inner then Inr (payload, None)
                    else
                      rbind (ec_scalar_mul_point E (blind_scalar ephemeral_pub shared_secret) ephemeral_pub) (\<lambda>next_ephemeral.
                      case inner of
                        JStr s \<Rightarrow>
                          (case layer_item data ''inner_hmac'' of
                             Inr (JStr m) \<Rightarrow>
                               Inr (payload,
                                    Some \<lparr>ephemeral_key_hex = hexlify next_ephemeral, routing_info_hex = hexlify (utf8_encode s),
                                          hmac_hex = m, sphinx_version = 0\<rparr>)
                           | Inr v \<Rightarrow> Inl ValueError
                           | Inl e \<Rightarrow>
                               Inr (payload,
                                    Some \<lparr>ephemeral_key_hex = hexlify next_ephemeral, routing_info_hex = hexlify (utf8_encode s),
                                          hmac_hex = [], sphinx_version = 0\<rparr>))
                      | _ \<Rightarrow> Inl AttributeError))))))))))"

section \<open>Delivery\<close>

lemma wf_layer_data: "wf_json (layer_data h inner m)"
  by (cases h) (simp add: layer_data_def)

lemma layer_data_items [simp]:
  "layer_item (layer_data (a, n, v, c) inner m) ''payload'' =
    Inr (JObj [(''next_hop'', JStr n), (''amount_sat'', JInt v), (''cltv_locktime'', JInt c)])"
  "layer_item (layer_data h inner m) ''inner'' = Inr (JStr inner)"
  "layer_item (layer_data h inner m) ''inner_hmac'' = Inr (JStr m)"
  by (auto simp: layer_item_def layer_data_def split: prod.split)

lemma dumps_layer_not_Nil: "dumps (layer_data h inner m) \<noteq> []"
  by (cases h) (simp add: layer_data_def)

context onion
begin

lemma unwrap_json_layer:
  assumes wrap: "wrap_json_layers ((h, ss) # layers) = (t, m)" and h: "h = (node_name, next_hop, amount, cltv)"
    and inner: "wrap_json_layers layers = (t', m')"
    and size: "length (utf8_encode t) \<noteq> 1300"
    and key: "wif \<noteq> []" "lib_wif L wif = Inr sec" "ec_scalar_mul_point E (uint_be (take 32 sec)) ephem = Inr pt" "ss = sha256 pt"
    and next_ephem: "layers \<noteq> [] \<Longrightarrow> ec_scalar_mul_point E (blind_scalar ephem ss) ephem = Inr ephem'"
  shows "unwrap_onion_packet L E stream
      \<lparr>ephemeral_key_hex = hexlify ephem, routing_info_hex = hexlify (utf8_encode t), hmac_hex = m, sphinx_version = 0\<rparr> wif random =
    Inr (\<lparr>sp_next_hop = next_hop, sp_amount_sat = amount, sp_cltv_locktime = cltv\<rparr>,
      if layers \<noteq> []
      then Some \<lparr>ephemeral_key_hex = hexlify ephem', routing_info_hex = hexlify (utf8_encode t'), hmac_hex = m', sphinx_version = 0\<rparr>
      else None)"
proof -
  have t: "t = dumps (layer_data h t' m')" "m = layer_hmac ss (utf8_encode t)"
    using wrap by (auto simp: inner Let_def)
  have l: "loads t = Some (layer_data h t' m')"
    unfolding t(1) by (rule loads_dumps [OF wf_layer_data])
  have "generate_keypair L (Some wif) random = Inr (sec, lib_pub L sec)"
    using key(1,2) by (simp add: generate_keypair_def)
  moreover have "derive_shared_secret L E (SecBytes sec) ephem = Inr ss"
    using key(3,4) by (simp add: derive_shared_secret_def Let_def)
  moreover have "t' = [] \<longleftrightarrow> layers = []"
    using inner dumps_layer_not_Nil by (cases layers) (auto simp: Let_def split: prod.splits)
  moreover have "length (hexlify (utf8_encode t)) \<noteq> 2600"
    using size by (simp add: length_hexlify)
  ultimately show ?thesis
    using next_ephem
    by (auto simp: unwrap_onion_packet_def is_bolt4_binary_def bolt4_sizes t(2) l h as_payload_def)
qed

lemma json_onion_delivers:
  assumes n: "0 < length hs" "length randoms = length hs"
    and session: "ec_point_mul E (uint_be (take 32 session)) = Inr (lib_pub L session)"
    and derived: "derive_hops L E node_pubkeys hs randoms (uint_be (take 32 session) mod SECP256K1_ORDER)
      (lib_pub L session) = Inr zs"
    and nonzero: "\<forall>i < length hs. blinded (uint_be (take 32 session) mod SECP256K1_ORDER) (take i zs) mod SECP256K1_ORDER \<noteq> 0"
    and nodes: "\<forall>i < length hs. route_node L node_pubkeys (hs ! i) (randoms ! i) (wifs ! i)"
    and size: "\<forall>i < length hs. length (utf8_encode (fst (wrap_json_layers (drop i (zip hs (map snd zs)))))) \<noteq> 1300"
  shows "\<exists>packets. length packets = length hs \<and>
    create_onion_packet L E hs node_pubkeys session randoms = Inr (packets ! 0) \<and>
    (\<forall>i < length hs. \<forall>random. unwrap_onion_packet L E stream (packets ! i) (wifs ! i) random =
      Inr (case hs ! i of (node_name, next_hop, amount, cltv) \<Rightarrow>
             \<lparr>sp_next_hop = next_hop, sp_amount_sat = amount, sp_cltv_locktime = cltv\<rparr>,
           if i + 1 < length hs then Some (packets ! (i + 1)) else None))"
proof -
  let ?d = "uint_be (take 32 session) mod SECP256K1_ORDER"
  define layers where "layers = zip hs (map snd zs)"
  define packet where "packet i = (case wrap_json_layers (drop i layers) of
      (t, m) \<Rightarrow> \<lparr>ephemeral_key_hex = hexlify (fst (zs ! i)), routing_info_hex = hexlify (utf8_encode t),
        hmac_hex = m, sphinx_version = 0\<rparr>)" for i
  have len: "length zs = length hs" using length_derive_hops [OF derived] .
  have "?d mod SECP256K1_ORDER \<noteq> 0" using nonzero n(1) by auto
  then have d: "pub ?d = Inr (lib_pub L session)" using session point_mul [of "uint_be (take 32 session)"] pub_mod by simp
  have "create_onion_packet L E hs node_pubkeys session randoms = Inr (packet 0)"
    using n(1) len derived
    by (cases zs) (auto simp: create_onion_packet_def generate_keypair_def packet_def layers_def Let_def split: prod.splits)
  moreover have "unwrap_onion_packet L E stream (packet i) (wifs ! i) random =
      Inr (case hs ! i of (node_name, next_hop, amount, cltv) \<Rightarrow>
             \<lparr>sp_next_hop = next_hop, sp_amount_sat = amount, sp_cltv_locktime = cltv\<rparr>,
           if i + 1 < length hs then Some (packet (i + 1)) else None)" if i: "i < length hs" for i random
  proof -
    obtain node_name next_hop amount cltv where h: "hs ! i = (node_name, next_hop, amount, cltv)" by (cases "hs ! i")
    obtain sec pt where key: "wifs ! i \<noteq> []" "lib_wif L (wifs ! i) = Inr sec"
        "ec_scalar_mul_point E (uint_be (take 32 sec)) (fst (zs ! i)) = Inr pt" "snd (zs ! i) = sha256 pt"
      and blind: "i + 1 < length hs \<Longrightarrow> ec_scalar_mul_point E (blind_scalar (fst (zs ! i)) (snd (zs ! i))) (fst (zs ! i)) =
        Inr (fst (zs ! (i + 1)))"
      using hop_secret [OF derived d nonzero nodes n(2) i] by blast
    have split: "drop i layers = (hs ! i, snd (zs ! i)) # drop (i + 1) layers"
      using i len by (simp add: layers_def Cons_nth_drop_Suc [symmetric])
    obtain t m where w: "wrap_json_layers (drop i layers) = (t, m)" by (cases "wrap_json_layers (drop i layers)")
    obtain t' m' where w': "wrap_json_layers (drop (i + 1) layers) = (t', m')" by (cases "wrap_json_layers (drop (i + 1) layers)")
    have sz: "length (utf8_encode t) \<noteq> 1300" using size i w by (auto simp: layers_def)
    have more: "drop (i + 1) layers \<noteq> [] \<longleftrightarrow> i + 1 < length hs" using len by (auto simp: layers_def)
    then show ?thesis
      using unwrap_json_layer [OF w [unfolded split] h w' sz key blind] w w' h by (simp add: packet_def)
  qed
  ultimately show ?thesis using n(1) by (intro exI [of _ "map packet [0..<length hs]"]) simp
qed

end

section \<open>Properties\<close>

text \<open>
  Property C29: structured packets are delivered.  For a route of any length whose nodes' keys are in the directory,
  \<open>create_onion_packet\<close> returns a packet that opens hop by hop: each node, with its own key, passes the HMAC check, reads
  exactly its payload and passes on the packet for the next hop, and the last one passes on nothing.  This needs that no layer is
  exactly 1300 bytes long, since \<open>unwrap_onion_packet\<close> takes such a packet for a binary one, and non-zero ephemeral scalars.
\<close>

theorem json_onion_is_delivered:
  assumes "onion E stream" and "0 < length hs" and "length randoms = length hs"
    and "ec_point_mul E (uint_be (take 32 session)) = Inr (lib_pub L session)"
    and "derive_hops L E node_pubkeys hs randoms (uint_be (take 32 session) mod SECP256K1_ORDER) (lib_pub L session) = Inr derived"
    and "\<forall>i < length hs. blinded (uint_be (take 32 session) mod SECP256K1_ORDER) (take i derived) mod SECP256K1_ORDER \<noteq> 0"
    and "\<forall>i < length hs. onion.route_node E L node_pubkeys (hs ! i) (randoms ! i) (wifs ! i)"
    and "\<forall>i < length hs. length (utf8_encode (fst (wrap_json_layers (drop i (zip hs (map snd derived)))))) \<noteq> 1300"
  shows "\<exists>packets. length packets = length hs \<and>
    create_onion_packet L E hs node_pubkeys session randoms = Inr (packets ! 0) \<and>
    (\<forall>i < length hs. \<forall>random. unwrap_onion_packet L E stream (packets ! i) (wifs ! i) random =
      Inr (case hs ! i of (node_name, next_hop, amount, cltv) \<Rightarrow>
             \<lparr>sp_next_hop = next_hop, sp_amount_sat = amount, sp_cltv_locktime = cltv\<rparr>,
           if i + 1 < length hs then Some (packets ! (i + 1)) else None))"
  by (rule onion.json_onion_delivers [OF assms])

text \<open>
  The layers are authenticated but not encrypted: without any key, the bytes of a packet decode to the payload of its hop and the
  text of the next layer, and so on to the end of the route.
\<close>

fun read_route :: "nat \<Rightarrow> string \<Rightarrow> sphinx_payload list" where
  "read_route 0 t = []"
| "read_route (Suc n) t =
     (case loads t of
        None \<Rightarrow> []
      | Some v \<Rightarrow>
          (case (rbind (layer_item v ''payload'') as_payload, layer_item v ''inner'') of
             (Inr p, Inr (JStr s)) \<Rightarrow> p # read_route n s
           | _ \<Rightarrow> []))"

lemma json_onion_is_readable:
  "read_route (length layers) (fst (wrap_json_layers layers)) =
    map (\<lambda>((node_name, next_hop, amount, cltv), ss).
      \<lparr>sp_next_hop = next_hop, sp_amount_sat = amount, sp_cltv_locktime = cltv\<rparr>) layers"
proof (induction layers)
  case (Cons z layers)
  obtain node_name next_hop amount cltv ss where z: "z = ((node_name, next_hop, amount, cltv), ss)" by (metis surj_pair)
  obtain t m where "wrap_json_layers layers = (t, m)" by (cases "wrap_json_layers layers")
  with Cons show ?case
    by (simp add: z Let_def loads_dumps [OF wf_layer_data] as_payload_def)
qed simp

lemma length_utf8_encode: "length (utf8_encode s) \<le> 2 * length s"
  by (induction s) (auto simp: utf8_char_def Let_def)

lemma length_escape_hexlify: "length (concat (map escape_char (hexlify bs))) = 2 * length bs"
proof -
  have "list_all (\<lambda>n. length (escape_char (hex_digit n)) = 1) [0..<16]" by code_simp
  then have d: "length (escape_char (hex_digit n)) = 1" if "n < 16" for n using that by (simp add: list_all_iff)
  have "unat b div 16 < 16" "unat b mod 16 < 16" for b :: byte
    using unsigned_less [of b, where 'a = nat] by simp_all
  then show ?thesis by (induction bs) (simp_all add: hexlify_def hex_byte_def d)
qed

definition last_layer :: string where
  "last_layer = dumps (layer_data (''B'', [], 990, 100) [] [])"

lemma last_layer_size: "length last_layer = 101 \<and> length (concat (map escape_char last_layer)) = 119"
  by code_simp

lemma length_first_layer:
  "length (dumps (layer_data (''A'', ''B'', 1000, 140) last_layer (layer_hmac ss msg))) \<le> 400"
proof -
  have "layer_hmac ss msg = hexlify (hmac_sha256 ss msg)"
    by (simp add: layer_hmac_def compute_hmac_def length_hexlify)
  then have "length (concat (map escape_char (layer_hmac ss msg))) = 64"
    by (simp add: length_escape_hexlify del: length_concat)
  moreover have "length (dump_int 1000) = 4" "length (dump_int 140) = 3" by code_simp+
  ultimately show ?thesis
    using last_layer_size
    by (simp add: layer_data_def dump_string_def escape_char_def Let_def quote_def backslash_def del: length_concat)
qed

theorem json_onion_is_delivered_witness:
  "\<exists>p q. create_onion_packet line_lib line_curve two_hops two_keys secret_one [[], []] = Inr p \<and>
     unwrap_onion_packet line_lib line_curve chacha20 p (hexlify secret_one) [] =
       Inr (\<lparr>sp_next_hop = ''B'', sp_amount_sat = 1000, sp_cltv_locktime = 140\<rparr>, Some q) \<and>
     unwrap_onion_packet line_lib line_curve chacha20 q (hexlify secret_one) [] =
       Inr (\<lparr>sp_next_hop = [], sp_amount_sat = 990, sp_cltv_locktime = 100\<rparr>, None)"
proof -
  obtain e1 ss0 ss1 where derived: "derive_hops line_lib line_curve two_keys two_hops [[], []]
      (uint_be (take 32 secret_one) mod SECP256K1_ORDER) (lib_pub line_lib secret_one) = Inr [(2 # secret_one, ss0), (e1, ss1)]"
    using two_derived by blast
  have small: "length (utf8_encode t) \<noteq> 1300" if "length t \<le> 400" for t
    using that length_utf8_encode [of t] by simp
  have "\<forall>i < length two_hops. length (utf8_encode (fst (wrap_json_layers (drop i
      (zip two_hops (map snd [(2 # secret_one, ss0), (e1, ss1)])))))) \<noteq> 1300"
    unfolding all_two
    using small [OF length_first_layer] small [of last_layer] last_layer_size
    by (simp add: two_hops_def Let_def last_layer_def [symmetric])
  from json_onion_is_delivered [OF onion_line_curve _ _ two_session derived two_scalars two_nodes this]
  obtain packets where "create_onion_packet line_lib line_curve two_hops two_keys secret_one [[], []] = Inr (packets ! 0)"
    and "\<forall>i < length two_hops. \<forall>random.
      unwrap_onion_packet line_lib line_curve chacha20 (packets ! i) ([hexlify secret_one, hexlify secret_one] ! i) random =
      Inr (case two_hops ! i of (node_name, next_hop, amount, cltv) \<Rightarrow>
             \<lparr>sp_next_hop = next_hop, sp_amount_sat = amount, sp_cltv_locktime = cltv\<rparr>,
           if i + 1 < length two_hops then Some (packets ! (i + 1)) else None)"
    using length_two_hops by auto
  then show ?thesis
    by (intro exI [of _ "packets ! 0"] exI [of _ "packets ! 1"]) (auto simp: length_two_hops two_hops_def)
qed

end
