(* ===== verification/Daemon.thy ===== *)
theory Daemon
  imports Json
begin

text \<open>
  \<open>network/daemon.py\<close>: the framing of peer messages (two bytes of type, two of length, a JSON payload), the read side of a
  connection and the read loop of a \<open>NodeDaemon\<close> with its handshake, keepalive, dispatch and clean-up.  A connection holds the
  bytes that have arrived and whether the stream has ended; a read that needs more bytes leaves the loop suspended.  Registered
  handlers are a parameter \<open>call\<close>: what one does to the daemon, and the exception it raises if any; a coroutine that gives up
  control in the middle of a message is outside the model.  A handler sees the handlers
  of the message's type as they were when the dispatch began.  The recursion limit and the limit on digits of Python's \<open>json\<close>
  and \<open>int\<close> are not modelled.
\<close>

section \<open>Messages and framing\<close>

definition MSG_INIT :: int where "MSG_INIT = 16"
definition MSG_ERROR :: int where "MSG_ERROR = 17"
definition MSG_PING :: int where "MSG_PING = 18"
definition MSG_PONG :: int where "MSG_PONG = 19"
definition MSG_OPEN_CHANNEL :: int where "MSG_OPEN_CHANNEL = 32"
definition MSG_ACCEPT_CHANNEL :: int where "MSG_ACCEPT_CHANNEL = 33"
definition MSG_FUNDING_CREATED :: int where "MSG_FUNDING_CREATED = 34"
definition MSG_FUNDING_SIGNED :: int where "MSG_FUNDING_SIGNED = 35"
definition MSG_CHANNEL_READY :: int where "MSG_CHANNEL_READY = 36"
definition MSG_UPDATE_ADD_HTLC :: int where "MSG_UPDATE_ADD_HTLC = 128"
definition MSG_UPDATE_FULFILL_HTLC :: int where "MSG_UPDATE_FULFILL_HTLC = 130"
definition MSG_UPDATE_FAIL_HTLC :: int where "MSG_UPDATE_FAIL_HTLC = 131"
definition MSG_COMMITMENT_SIGNED :: int where "MSG_COMMITMENT_SIGNED = 132"
definition MSG_REVOKE_AND_ACK :: int where "MSG_REVOKE_AND_ACK = 133"

record p2p_message =
  msg_type :: int
  payload :: "(string, json) pydict"

definition serialize_message :: "p2p_message \<Rightarrow> bytes res" where
  "serialize_message m =
     (let payload_bytes = utf8_encode (dumps (JObj (payload m)));
          msg_len = length payload_bytes
      in if 65535 < msg_len then Inl ValueError
         else rbind (to_bytes_be 2 (msg_type m)) (\<lambda>t.
              rbind (to_bytes_be 2 (int msg_len)) (\<lambda>l. Inr ((t @ l) @ payload_bytes))))"

text \<open>A payload that is not valid text, not JSON or not an object fails with a ValueError (pydantic's is a subclass).\<close>

definition deserialize_message :: "bytes \<Rightarrow> bytes \<Rightarrow> p2p_message res" where
  "deserialize_message header payload_bytes =
     (if length header \<noteq> 4 then Inl ValueError
      else (case utf8_decode payload_bytes of
          None \<Rightarrow> Inl ValueError
        | Some t \<Rightarrow>
            (case loads t of
               Some (JObj ps) \<Rightarrow> Inr \<lparr>msg_type = uint_be (take 2 header), payload = ps\<rparr>
             | _ \<Rightarrow> Inl ValueError)))"

section \<open>Connections\<close>

text \<open>\<open>peer_alias\<close> is whatever JSON value the peer sent as its name; the empty text until then.\<close>

record connection =
  reader :: bytes
  at_eof :: bool
  written :: bytes
  peer_alias :: json
  is_active :: bool
  closed :: bool

definition PeerConnection :: "bytes \<Rightarrow> bool \<Rightarrow> json \<Rightarrow> connection" where
  "PeerConnection arrived ended a =
     \<lparr>reader = arrived, at_eof = ended, written = [], peer_alias = a, is_active = True, closed = False\<rparr>"

text \<open>\<open>StreamWriter.drain\<close> raises a ConnectionResetError, a ConnectionError, once the writer is closed.\<close>

definition conn_send :: "p2p_message \<Rightarrow> connection \<Rightarrow> connection res" where
  "conn_send m c =
     rbind (serialize_message m) (\<lambda>frame.
       if closed c then Inl ConnectionError else Inr (c\<lparr>written := written c @ frame\<rparr>))"

datatype read_result = Blocked | Incomplete | Exactly bytes bytes

definition readexactly :: "nat \<Rightarrow> bytes \<Rightarrow> bool \<Rightarrow> read_result" where
  "readexactly n bs ended =
     (if n \<le> length bs then Exactly (take n bs) (drop n bs) else if ended then Incomplete else Blocked)"

datatype received = Waiting | NoMessage | Failed py_error | Received p2p_message

definition receive :: "connection \<Rightarrow> received \<times> connection" where
  "receive c =
     (case readexactly 4 (reader c) (at_eof c) of
        Blocked \<Rightarrow> (Waiting, c)
      | Incomplete \<Rightarrow> (NoMessage, c\<lparr>reader := [], is_active := False\<rparr>)
      | Exactly header rest \<Rightarrow>
          (let msg_len = nat (uint_be (py_slice 2 4 header))
           in case readexactly msg_len rest (at_eof c) of
                Blocked \<Rightarrow> (Waiting, c)
              | Incomplete \<Rightarrow> (NoMessage, c\<lparr>reader := [], is_active := False\<rparr>)
              | Exactly body rest' \<Rightarrow>
                  (case deserialize_message header body of
                     Inl e \<Rightarrow> (Failed e, c\<lparr>reader := rest'\<rparr>)
                   | Inr m \<Rightarrow> (Received m, c\<lparr>reader := rest'\<rparr>))))"

definition conn_close :: "connection \<Rightarrow> connection" where
  "conn_close c = c\<lparr>is_active := False, closed := True\<rparr>"

section \<open>The daemon\<close>

text \<open>
  Connections are objects shared between the peers dictionary, the running tasks and the handlers: the daemon refers to them by
  number.  \<open>app\<close> is the state of the handlers.
\<close>

record ('h, 's) daemon =
  daemon_alias :: string
  peers :: "(json, nat) pydict"
  handlers :: "(int, 'h list) pydict"
  server_open :: bool
  running :: bool
  tasks :: "nat list"
  conns :: "nat \<Rightarrow> connection"
  next_conn :: nat
  app :: 's

definition NodeDaemon :: "string \<Rightarrow> 's \<Rightarrow> ('h, 's) daemon" where
  "NodeDaemon a s =
     \<lparr>daemon_alias = a, peers = [], handlers = [], server_open = False, running = False, tasks = [],
      conns = (\<lambda>_. PeerConnection [] True (JStr [])), next_conn = 0, app = s\<rparr>"

abbreviation update_conn :: "nat \<Rightarrow> connection \<Rightarrow> ('h, 's) daemon \<Rightarrow> ('h, 's) daemon" where
  "update_conn i c d \<equiv> d\<lparr>conns := (conns d)(i := c)\<rparr>"

definition register_handler :: "int \<Rightarrow> 'h \<Rightarrow> ('h, 's) daemon \<Rightarrow> ('h, 's) daemon" where
  "register_handler t h d =
     d\<lparr>handlers := dict_set t ((case dict_get (handlers d) t of None \<Rightarrow> [] | Some hs \<Rightarrow> hs) @ [h]) (handlers d)\<rparr>"

definition daemon_start :: "('h, 's) daemon \<Rightarrow> ('h, 's) daemon" where
  "daemon_start d = d\<lparr>running := True, server_open := True\<rparr>"

text \<open>A new connection object, and the task that runs its read loop.\<close>

definition new_conn :: "connection \<Rightarrow> ('h, 's) daemon \<Rightarrow> nat \<times> ('h, 's) daemon" where
  "new_conn c d = (next_conn d, (update_conn (next_conn d) c d)\<lparr>next_conn := Suc (next_conn d)\<rparr>)"

definition create_task :: "nat \<Rightarrow> ('h, 's) daemon \<Rightarrow> ('h, 's) daemon" where
  "create_task i d = d\<lparr>tasks := tasks d @ [i]\<rparr>"

definition handle_incoming_connection :: "bytes \<Rightarrow> bool \<Rightarrow> ('h, 's) daemon \<Rightarrow> ('h, 's) daemon" where
  "handle_incoming_connection arrived ended d =
     (let (i, d') = new_conn (PeerConnection arrived ended (JStr [])) d in create_task i d')"

text \<open>
  \<open>opened\<close>: the transport's answer, \<open>None\<close> when the connection cannot be opened.  When the first message cannot be sent, the
  peer has been entered already and has no task.
\<close>

definition connect_to_peer ::
    "string \<Rightarrow> (bytes \<times> bool) option \<Rightarrow> ('h, 's) daemon \<Rightarrow> nat res \<times> ('h, 's) daemon" where
  "connect_to_peer a opened d =
     (case opened of
        None \<Rightarrow> (Inl OSError, d)
      | Some (arrived, ended) \<Rightarrow>
          (let (i, d1) = new_conn (PeerConnection arrived ended (JStr a)) d;
               d2 = d1\<lparr>peers := dict_set (JStr a) i (peers d1)\<rparr>
           in case conn_send \<lparr>msg_type = MSG_INIT, payload = [(''sender_alias'', JStr (daemon_alias d))]\<rparr> (conns d2 i) of
                Inl e \<Rightarrow> (Inl e, d2)
              | Inr c \<Rightarrow> (Inr i, create_task i (update_conn i c d2))))"

text \<open>Whether a value can be a key of a dict.\<close>

fun hashable :: "json \<Rightarrow> bool" where
  "hashable (JList vs) = False"
| "hashable (JObj ps) = False"
| "hashable _ = True"

datatype ('h, 's) iteration =
    Suspend
  | Continue "('h, 's) daemon"
  | Break "('h, 's) daemon"
  | Throw py_error "('h, 's) daemon"

type_synonym ('h, 's) caller = "'h \<Rightarrow> nat \<Rightarrow> p2p_message \<Rightarrow> ('h, 's) daemon \<Rightarrow> ('h, 's) daemon \<times> py_error option"

fun run_handlers :: "('h, 's) caller \<Rightarrow> 'h list \<Rightarrow> nat \<Rightarrow> p2p_message \<Rightarrow> ('h, 's) daemon \<Rightarrow> ('h, 's) iteration" where
  "run_handlers call [] i m d = Continue d"
| "run_handlers call (h # hs) i m d =
     (case call h i m d of
        (d', None) \<Rightarrow> run_handlers call hs i m d'
      | (d', Some e) \<Rightarrow> Throw e d')"

definition dispatch :: "('h, 's) caller \<Rightarrow> nat \<Rightarrow> p2p_message \<Rightarrow> ('h, 's) daemon \<Rightarrow> ('h, 's) iteration" where
  "dispatch call i m d =
     run_handlers call (case dict_get (handlers d) (msg_type m) of None \<Rightarrow> [] | Some hs \<Rightarrow> hs) i m d"

text \<open>The body of the loop once a message is there.\<close>

definition handle_message :: "('h, 's) caller \<Rightarrow> nat \<Rightarrow> p2p_message \<Rightarrow> ('h, 's) daemon \<Rightarrow> ('h, 's) iteration" where
  "handle_message call i m d =
     (if msg_type m = MSG_INIT then
        (let sender = (case dict_get (payload m) ''sender_alias'' of None \<Rightarrow> JStr [] | Some v \<Rightarrow> v)
         in if json_true sender then
              (let d1 = update_conn i ((conns d i)\<lparr>peer_alias := sender\<rparr>) d
               in if hashable sender then dispatch call i m (d1\<lparr>peers := dict_set sender i (peers d1)\<rparr>)
                  else Throw TypeError d1)
            else dispatch call i m d)
      else if msg_type m = MSG_PING then
        (case conn_send \<lparr>msg_type = MSG_PONG, payload = []\<rparr> (conns d i) of
           Inl e \<Rightarrow> Throw e d
         | Inr c \<Rightarrow> Continue (update_conn i c d))
      else dispatch call i m d)"

definition read_iteration :: "('h, 's) caller \<Rightarrow> nat \<Rightarrow> ('h, 's) daemon \<Rightarrow> ('h, 's) iteration" where
  "read_iteration call i d =
     (case receive (conns d i) of
        (Waiting, c) \<Rightarrow> Suspend
      | (NoMessage, c) \<Rightarrow> Break (update_conn i c d)
      | (Failed e, c) \<Rightarrow> Throw e (update_conn i c d)
      | (Received m, c) \<Rightarrow> handle_message call i m (update_conn i c d))"

datatype ('h, 's) loop_result = Suspended "('h, 's) daemon" | Ended "('h, 's) daemon" "py_error option"

text \<open>The clean-up: the entry of the peer's current name goes, whichever connection it refers to; then the writer is closed.\<close>

definition leave_loop :: "nat \<Rightarrow> ('h, 's) daemon \<Rightarrow> py_error option \<Rightarrow> ('h, 's) loop_result" where
  "leave_loop i d e =
     (let a = peer_alias (conns d i)
      in if json_true a \<and> \<not> hashable a then Ended d (Some TypeError)
         else (let d1 = (if json_true a \<and> dict_get (peers d) a \<noteq> None then d\<lparr>peers := dict_del a (peers d)\<rparr> else d)
               in Ended (update_conn i (conn_close (conns d1 i)) d1) e))"

text \<open>The loop, with fuel for its iterations; \<open>None\<close> when the fuel is used up.\<close>

fun peer_read_loop :: "('h, 's) caller \<Rightarrow> nat \<Rightarrow> nat \<Rightarrow> ('h, 's) daemon \<Rightarrow> ('h, 's) loop_result option" where
  "peer_read_loop call 0 i d = None"
| "peer_read_loop call (Suc n) i d =
     (if running d \<and> is_active (conns d i) then
        (case read_iteration call i d of
           Suspend \<Rightarrow> Some (Suspended d)
         | Continue d' \<Rightarrow> peer_read_loop call n i d'
         | Break d' \<Rightarrow> Some (leave_loop i d' None)
         | Throw e d' \<Rightarrow> Some (leave_loop i d' (Some e)))
      else Some (leave_loop i d None))"

text \<open>A connection object has no truth value of its own, so only a missing entry counts as no peer.\<close>

definition send_to_peer :: "string \<Rightarrow> p2p_message \<Rightarrow> ('h, 's) daemon \<Rightarrow> ('h, 's) daemon res" where
  "send_to_peer a m d =
     (case dict_get (peers d) (JStr a) of
        None \<Rightarrow> Inl ConnectionError
      | Some i \<Rightarrow> rbind (conn_send m (conns d i)) (\<lambda>c. Inr (update_conn i c d)))"

text \<open>Every connected peer is closed; the tasks are cancelled, which runs their clean-up.\<close>

definition daemon_stop :: "('h, 's) daemon \<Rightarrow> ('h, 's) daemon" where
  "daemon_stop d =
     (let d1 = fold (\<lambda>(a, i) d. update_conn i (conn_close (conns d i)) d) (peers d) (d\<lparr>running := False\<rparr>);
          d2 = fold (\<lambda>i d. case leave_loop i d None of Ended d' e \<Rightarrow> d' | Suspended d' \<Rightarrow> d') (tasks d) (d1\<lparr>peers := []\<rparr>)
      in d2\<lparr>server_open := False\<rparr>)"

section \<open>The framing is read back\<close>

lemma serialize_message_eq:
  assumes "serialize_message m = Inr frame"
  obtains t l where "to_bytes_be 2 (msg_type m) = Inr t" "to_bytes_be 2 (int (length (utf8_encode (dumps (JObj (payload m)))))) = Inr l"
    "frame = t @ l @ utf8_encode (dumps (JObj (payload m)))"
  using assms by (auto simp: serialize_message_def Let_def rbind_eq_Inr split: if_splits)

lemma deserialize_serialized:
  assumes "to_bytes_be 2 (msg_type m) = Inr t" "length l = 2" "wf_json (JObj (payload m))"
  shows "deserialize_message (t @ l) (utf8_encode (dumps (JObj (payload m)))) = Inr m"
  using assms length_to_bytes_be [OF assms(1)] to_bytes_be_roundtrip [OF assms(1)]
  by (simp add: deserialize_message_def loads_dumps del: dumps.simps wf_json.simps)

lemma receive_frame:
  assumes frame: "serialize_message m = Inr frame" and wf: "wf_json (JObj (payload m))"
    and reader: "reader c = frame @ rest"
  shows "receive c = (Received m, c\<lparr>reader := rest\<rparr>)"
proof -
  let ?body = "utf8_encode (dumps (JObj (payload m)))"
  obtain t l where t: "to_bytes_be 2 (msg_type m) = Inr t" and l: "to_bytes_be 2 (int (length ?body)) = Inr l"
    and f: "frame = t @ l @ ?body"
    by (rule serialize_message_eq [OF frame])
  have len: "length t = 2" "length l = 2" using t l by (simp_all add: length_to_bytes_be)
  have "py_slice 2 4 (t @ l) = l" using len by simp
  moreover have "uint_be l = int (length ?body)" by (rule to_bytes_be_roundtrip [OF l])
  moreover have "readexactly 4 (reader c) (at_eof c) = Exactly (t @ l) (?body @ rest)"
    using len by (simp add: readexactly_def reader f)
  ultimately show ?thesis
    using deserialize_serialized [OF t len(2) wf]
    by (simp add: receive_def readexactly_def del: dumps.simps)
qed

lemma receive_end: "reader c = [] \<Longrightarrow> at_eof c \<Longrightarrow> receive c = (NoMessage, c\<lparr>reader := [], is_active := False\<rparr>)"
  by (simp add: receive_def readexactly_def)

section \<open>A stream of messages\<close>

text \<open>
  What a stream of messages should do: the name of the peer follows the handshakes, every message but a PING goes to the handlers
  of its type in their order, every PING is answered.
\<close>

definition alias_after :: "p2p_message \<Rightarrow> json \<Rightarrow> json" where
  "alias_after m a =
     (case dict_get (payload m) ''sender_alias'' of
        Some v \<Rightarrow> if msg_type m = MSG_INIT \<and> json_true v then v else a
      | None \<Rightarrow> a)"

definition deliver_one ::
    "('h \<Rightarrow> json \<Rightarrow> p2p_message \<Rightarrow> 's \<Rightarrow> 's) \<Rightarrow> (int, 'h list) pydict \<Rightarrow> p2p_message \<Rightarrow> json \<times> 's \<Rightarrow> json \<times> 's" where
  "deliver_one f hs m st =
     (let a = alias_after m (fst st)
      in (a, if msg_type m = MSG_PING then snd st
             else fold (\<lambda>h. f h a m) (case dict_get hs (msg_type m) of None \<Rightarrow> [] | Some l \<Rightarrow> l) (snd st)))"

definition deliver ::
    "('h \<Rightarrow> json \<Rightarrow> p2p_message \<Rightarrow> 's \<Rightarrow> 's) \<Rightarrow> (int, 'h list) pydict \<Rightarrow> p2p_message list \<Rightarrow> json \<times> 's \<Rightarrow> json \<times> 's" where
  "deliver f hs = fold (deliver_one f hs)"

text \<open>The bytes of a PONG: type 19, length 2, an empty object.\<close>

definition pong_frame :: bytes where
  "pong_frame = [0, 19, 0, 2, 0x7B, 0x7D]"

definition pongs :: "p2p_message list \<Rightarrow> bytes" where
  "pongs ms = concat (map (\<lambda>m. if msg_type m = MSG_PING then pong_frame else []) ms)"

text \<open>A handler that only works on its own state, given the peer's name and the message.\<close>

definition app_handlers :: "('h \<Rightarrow> json \<Rightarrow> p2p_message \<Rightarrow> 's \<Rightarrow> 's) \<Rightarrow> ('h, 's) caller" where
  "app_handlers f h i m d = (d\<lparr>app := f h (peer_alias (conns d i)) m (app d)\<rparr>, None)"

definition proper_init :: "p2p_message \<Rightarrow> bool" where
  "proper_init m \<longleftrightarrow> (msg_type m = MSG_INIT \<longrightarrow>
     (case dict_get (payload m) ''sender_alias'' of Some v \<Rightarrow> json_true v \<longrightarrow> hashable v | None \<Rightarrow> True))"

lemma serialize_pong: "serialize_message \<lparr>msg_type = MSG_PONG, payload = []\<rparr> = Inr pong_frame"
  by (simp add: serialize_message_def MSG_PONG_def to_bytes_be_def numeral_2_eq_2 utf8_char_def pong_frame_def)

lemma run_app_handlers:
  "run_handlers (app_handlers f) hs i m d = Continue (d\<lparr>app := fold (\<lambda>h. f h (peer_alias (conns d i)) m) hs (app d)\<rparr>)"
  by (induction hs arbitrary: d) (simp_all add: app_handlers_def)

lemma alias_after_hashable: "proper_init m \<Longrightarrow> hashable a \<Longrightarrow> hashable (alias_after m a)"
  by (auto simp: alias_after_def proper_init_def split: option.splits)

definition peers_after :: "nat \<Rightarrow> p2p_message \<Rightarrow> (json, nat) pydict \<Rightarrow> (json, nat) pydict" where
  "peers_after i m P =
     (case dict_get (payload m) ''sender_alias'' of
        Some v \<Rightarrow> if msg_type m = MSG_INIT \<and> json_true v then dict_set v i P else P
      | None \<Rightarrow> P)"

lemma handle_message_app:
  assumes "proper_init m" "\<not> closed (conns d i)"
  shows "handle_message (app_handlers f) i m d =
    Continue (d\<lparr>conns := (conns d)(i := (conns d i)\<lparr>peer_alias := alias_after m (peer_alias (conns d i)),
                  written := written (conns d i) @ pongs [m]\<rparr>),
                peers := peers_after i m (peers d),
                app := snd (deliver_one f (handlers d) m (peer_alias (conns d i), app d))\<rparr>)"
proof -
  note defs = alias_after_def deliver_one_def peers_after_def pongs_def Let_def
  consider (init) "msg_type m = MSG_INIT" "msg_type m \<noteq> MSG_PING" | (ping) "msg_type m = MSG_PING" "msg_type m \<noteq> MSG_INIT"
    | (other) "msg_type m \<noteq> MSG_INIT" "msg_type m \<noteq> MSG_PING"
    by (auto simp: MSG_INIT_def MSG_PING_def)
  then show ?thesis
  proof cases
    case init
    show ?thesis
    proof (cases "dict_get (payload m) ''sender_alias''")
      case None
      with init show ?thesis by (simp add: handle_message_def dispatch_def run_app_handlers defs)
    next
      case (Some v)
      with assms(1) init have "json_true v \<longrightarrow> hashable v" by (simp add: proper_init_def)
      with init Some show ?thesis
        by (cases "json_true v") (simp_all add: handle_message_def dispatch_def run_app_handlers defs)
    qed
  next
    case ping
    then have "alias_after m a = a" "peers_after i m P = P" for a P
      by (simp_all add: alias_after_def peers_after_def split: option.split)
    with ping assms(2) show ?thesis
      by (simp add: handle_message_def conn_send_def serialize_pong deliver_one_def pongs_def Let_def)
  next
    case other
    then have "alias_after m a = a" "peers_after i m P = P" for a P
      by (simp_all add: alias_after_def peers_after_def split: option.split)
    with other show ?thesis
      by (simp add: handle_message_def dispatch_def run_app_handlers deliver_one_def pongs_def Let_def)
  qed
qed

text \<open>Framed messages, one after the other.\<close>

definition frames :: "p2p_message list \<Rightarrow> bytes list \<Rightarrow> bool" where
  "frames ms fs \<longleftrightarrow> list_all2 (\<lambda>m fr. serialize_message m = Inr fr) ms fs"

definition good_message :: "p2p_message \<Rightarrow> bool" where
  "good_message m \<longleftrightarrow> wf_json (JObj (payload m)) \<and> proper_init m"

text \<open>The state of a connection whose stream ends after what has arrived.\<close>

definition ready :: "nat \<Rightarrow> ('h, 's) daemon \<Rightarrow> bool" where
  "ready i d \<longleftrightarrow> running d \<and> is_active (conns d i) \<and> at_eof (conns d i) \<and> \<not> closed (conns d i) \<and> hashable (peer_alias (conns d i))"

lemma read_loop_stream:
  assumes "frames ms fs" "list_all good_message ms" "ready i d" "reader (conns d i) = concat fs" "length ms < n"
  shows "\<exists>d'. peer_read_loop (app_handlers f) n i d = Some (Ended d' None) \<and>
    (json_true (fst (deliver f (handlers d) ms (peer_alias (conns d i), app d))) \<longrightarrow>
      dict_get (peers d') (fst (deliver f (handlers d) ms (peer_alias (conns d i), app d))) = None) \<and>
    app d' = snd (deliver f (handlers d) ms (peer_alias (conns d i), app d)) \<and>
    written (conns d' i) = written (conns d i) @ pongs ms \<and> closed (conns d' i) \<and> \<not> is_active (conns d' i)"
  using assms
proof (induction ms arbitrary: fs d n)
  case Nil
  then obtain k where n: "n = Suc k" by (cases n) auto
  let ?c = "(conns d i)\<lparr>reader := [], is_active := False\<rparr>"
  have "read_iteration (app_handlers f) i d = Break (update_conn i ?c d)"
    using Nil by (simp add: read_iteration_def ready_def frames_def receive_end)
  then show ?case
    using Nil by (auto simp: n ready_def leave_loop_def Let_def deliver_def pongs_def conn_close_def)
next
  case (Cons m ms)
  obtain k where n: "n = Suc k" using Cons.prems by (cases n) auto
  obtain fr fs' where fs: "fs = fr # fs'" and fr: "serialize_message m = Inr fr" and fs': "frames ms fs'"
    using Cons.prems(1) by (auto simp: frames_def list_all2_Cons1)
  let ?c = "(conns d i)\<lparr>reader := concat fs', peer_alias := alias_after m (peer_alias (conns d i)),
    written := written (conns d i) @ pongs [m]\<rparr>"
  define d1 where "d1 = d\<lparr>conns := (conns d)(i := ?c), peers := peers_after i m (peers d),
    app := snd (deliver_one f (handlers d) m (peer_alias (conns d i), app d))\<rparr>"
  have "receive (conns d i) = (Received m, (conns d i)\<lparr>reader := concat fs'\<rparr>)"
    using Cons.prems fs fr by (intro receive_frame) (simp_all add: good_message_def)
  then have step: "read_iteration (app_handlers f) i d = Continue d1"
    using Cons.prems by (simp add: read_iteration_def handle_message_app ready_def good_message_def d1_def)
  have "ready i d1"
    using Cons.prems by (simp add: ready_def d1_def good_message_def alias_after_hashable)
  moreover have "reader (conns d1 i) = concat fs'" "length ms < k" using Cons.prems n by (simp_all add: d1_def)
  ultimately have "\<exists>d'. peer_read_loop (app_handlers f) k i d1 = Some (Ended d' None) \<and>
    (json_true (fst (deliver f (handlers d1) ms (peer_alias (conns d1 i), app d1))) \<longrightarrow>
      dict_get (peers d') (fst (deliver f (handlers d1) ms (peer_alias (conns d1 i), app d1))) = None) \<and>
    app d' = snd (deliver f (handlers d1) ms (peer_alias (conns d1 i), app d1)) \<and>
    written (conns d' i) = written (conns d1 i) @ pongs ms \<and> closed (conns d' i) \<and> \<not> is_active (conns d' i)"
    using Cons.prems(2) by (intro Cons.IH [OF fs']) simp_all
  moreover have "deliver f (handlers d1) ms (peer_alias (conns d1 i), app d1) =
      deliver f (handlers d) (m # ms) (peer_alias (conns d i), app d)"
    by (simp add: d1_def deliver_def deliver_one_def Let_def)
  moreover have "written (conns d1 i) @ pongs ms = written (conns d i) @ pongs (m # ms)"
    by (simp add: d1_def pongs_def)
  moreover have "peer_read_loop (app_handlers f) n i d = peer_read_loop (app_handlers f) k i d1"
    using Cons.prems step by (simp add: n ready_def)
  ultimately show ?case by simp
qed

section \<open>Properties\<close>

lemma receive_partial_frame:
  assumes frame: "serialize_message m = Inr frame" and k: "k < length frame" and reader: "reader c = take k frame"
  shows "receive c = (if at_eof c then (NoMessage, c\<lparr>reader := [], is_active := False\<rparr>) else (Waiting, c))"
proof -
  let ?body = "utf8_encode (dumps (JObj (payload m)))"
  obtain t l where t: "to_bytes_be 2 (msg_type m) = Inr t" and l: "to_bytes_be 2 (int (length ?body)) = Inr l"
    and f: "frame = t @ l @ ?body"
    by (rule serialize_message_eq [OF frame])
  have len: "length t = 2" "length l = 2" using t l by (simp_all add: length_to_bytes_be)
  show ?thesis
  proof (cases "k < 4")
    case True
    with k have "length (reader c) < 4" by (simp add: reader)
    then show ?thesis by (simp add: receive_def readexactly_def)
  next
    case False
    have "py_slice 2 4 (t @ l) = l" using len by simp
    moreover have "uint_be l = int (length ?body)" by (rule to_bytes_be_roundtrip [OF l])
    moreover have "readexactly 4 (reader c) (at_eof c) = Exactly (t @ l) (take (k - 4) ?body)"
      using len False k by (simp add: readexactly_def reader f take_drop min_def del: dumps.simps)
    moreover have "k - 4 < length ?body"
      using k len False by (simp add: f del: dumps.simps)
    then have "readexactly (length ?body) (take (k - 4) ?body) e = (if e then Incomplete else Blocked)" for e
      by (simp add: readexactly_def del: dumps.simps)
    ultimately show ?thesis by (simp add: receive_def del: dumps.simps)
  qed
qed

lemma conn_send_frame:
  assumes "conn_send m a = Inr a'"
  obtains frame where "serialize_message m = Inr frame" "a' = a\<lparr>written := written a @ frame\<rparr>"
  using assms by (auto simp: conn_send_def rbind_eq_Inr split: if_splits)

text \<open>
  Property C26: the bytes one \<open>send\<close> writes are read back by \<open>receive\<close> on the other side as exactly that message, leaving what
  follows in the stream, for every message whose payload JSON can carry.  As long as only part of those bytes has arrived,
  \<open>receive\<close> waits without consuming any; when the stream ends there, it returns no message and the connection is inactive.
\<close>

lemma message_framing:
  assumes "conn_send m a = Inr a'" and "wf_json (JObj (payload m))"
  shows "(reader b = drop (length (written a)) (written a') @ rest \<longrightarrow> receive b = (Received m, b\<lparr>reader := rest\<rparr>)) \<and>
    (k < length (written a') - length (written a) \<and> reader b = take k (drop (length (written a)) (written a')) \<longrightarrow>
      receive b = (if at_eof b then (NoMessage, b\<lparr>reader := [], is_active := False\<rparr>) else (Waiting, b)))"
proof -
  obtain frame where frame: "serialize_message m = Inr frame" and a': "a' = a\<lparr>written := written a @ frame\<rparr>"
    by (rule conn_send_frame [OF assms(1)])
  show ?thesis
    using receive_frame [OF frame assms(2), of b rest] receive_partial_frame [OF frame, of k b] by (auto simp: a')
qed

abbreviation add_htlc_message :: p2p_message where
  "add_htlc_message \<equiv> \<lparr>msg_type = MSG_UPDATE_ADD_HTLC, payload = [(''id'', JInt 7)]\<rparr>"

definition add_htlc_frame :: bytes where
  "add_htlc_frame = [0, 128, 0, 9] @ utf8_encode (dumps (JObj [(''id'', JInt 7)]))"

lemma add_htlc_body: "utf8_encode (dumps (JObj [(''id'', JInt 7)])) = map of_char (''{'' @ [quote] @ ''id'' @ [quote] @ '': 7}'')"
  by code_simp

lemma serialize_add_htlc: "serialize_message add_htlc_message = Inr add_htlc_frame"
  unfolding serialize_message_def p2p_message.simps add_htlc_frame_def add_htlc_body
  by (simp add: MSG_UPDATE_ADD_HTLC_def to_bytes_be_def numeral_2_eq_2)

lemma message_framing_witness:
  "receive (PeerConnection (add_htlc_frame @ [0, 18]) False (JStr [])) =
    (Received add_htlc_message, PeerConnection [0, 18] False (JStr []))"
proof -
  let ?a = "PeerConnection [] False (JStr [])"
  have "conn_send add_htlc_message ?a = Inr (?a\<lparr>written := add_htlc_frame\<rparr>)"
    by (simp add: conn_send_def serialize_add_htlc PeerConnection_def)
  then show ?thesis
    using message_framing [of add_htlc_message ?a "?a\<lparr>written := add_htlc_frame\<rparr>"
        "PeerConnection (add_htlc_frame @ [0, 18]) False (JStr [])" "[0, 18]" 0]
    by (simp add: PeerConnection_def)
qed

text \<open>
  Property C27: a stream of framed messages is dispatched exactly once and in order.  When the stream ends, the read loop has
  ended without an exception; the state of the handlers is what handling the messages one after the other gives, each under the
  name its peer had last announced; every PING was answered by a PONG; the connection is closed and no entry of its name is left
  among the peers.  One unit of fuel per message and one for the end is enough.  The handlers only work on a state of their own: they
  do not raise, send, or touch the daemon.  The payloads are ones JSON can carry, and the \<open>sender_alias\<close> of an INIT is not a
  non-empty list or object: such an INIT ends the loop with a TypeError and leaves the connection open
  (\<open>malformed_init_leaks_connection\<close>).
\<close>

lemma stream_is_dispatched:
  assumes "frames ms fs" and "list_all good_message ms" and "ready i d" and "reader (conns d i) = concat fs" and "length ms < n"
  shows "\<exists>d'. peer_read_loop (app_handlers f) n i d = Some (Ended d' None) \<and>
    (json_true (fst (deliver f (handlers d) ms (peer_alias (conns d i), app d))) \<longrightarrow>
      dict_get (peers d') (fst (deliver f (handlers d) ms (peer_alias (conns d i), app d))) = None) \<and>
    app d' = snd (deliver f (handlers d) ms (peer_alias (conns d i), app d)) \<and>
    written (conns d' i) = written (conns d i) @ pongs ms \<and> closed (conns d' i) \<and> \<not> is_active (conns d' i)"
  by (rule read_loop_stream [OF assms])

text \<open>A daemon whose one handler counts the HTLCs announced to it, with a peer that sends one, pings, and leaves.\<close>

definition counting_daemon :: "(unit, nat) daemon" where
  "counting_daemon =
     handle_incoming_connection (add_htlc_frame @ [0, 18, 0, 2, 0x7B, 0x7D]) True
       (daemon_start (register_handler MSG_UPDATE_ADD_HTLC () (NodeDaemon ''Bob'' 0)))"

lemma serialize_ping: "serialize_message \<lparr>msg_type = MSG_PING, payload = []\<rparr> = Inr [0, 18, 0, 2, 0x7B, 0x7D]"
  by (simp add: serialize_message_def MSG_PING_def to_bytes_be_def numeral_2_eq_2 utf8_char_def)

lemma stream_is_dispatched_witness:
  "\<exists>d'. peer_read_loop (app_handlers (\<lambda>h a m s. Suc s)) 3 0 counting_daemon = Some (Ended d' None) \<and>
    app d' = 1 \<and> written (conns d' 0) = pong_frame \<and> closed (conns d' 0)"
proof -
  let ?ms = "[add_htlc_message, \<lparr>msg_type = MSG_PING, payload = []\<rparr>]"
  have "frames ?ms [add_htlc_frame, [0, 18, 0, 2, 0x7B, 0x7D]]"
    by (simp add: frames_def serialize_add_htlc serialize_ping)
  moreover have "list_all good_message ?ms" by (simp add: good_message_def proper_init_def)
  moreover have d: "counting_daemon = \<lparr>daemon_alias = ''Bob'', peers = [], handlers = [(MSG_UPDATE_ADD_HTLC, [()])],
      server_open = True, running = True, tasks = [0],
      conns = (\<lambda>_. PeerConnection [] True (JStr []))(0 := PeerConnection (add_htlc_frame @ [0, 18, 0, 2, 0x7B, 0x7D]) True (JStr [])),
      next_conn = 1, app = 0\<rparr>"
    by (simp add: counting_daemon_def handle_incoming_connection_def new_conn_def create_task_def daemon_start_def
        register_handler_def NodeDaemon_def)
  moreover have "ready 0 counting_daemon" by (simp add: d ready_def PeerConnection_def)
  moreover have "reader (conns counting_daemon 0) = concat [add_htlc_frame, [0, 18, 0, 2, 0x7B, 0x7D]]"
    by (simp add: d PeerConnection_def)
  ultimately obtain d' where "peer_read_loop (app_handlers (\<lambda>h a m s. Suc s)) 3 0 counting_daemon = Some (Ended d' None)"
    "app d' = snd (deliver (\<lambda>h a m s. Suc s) (handlers counting_daemon) ?ms (peer_alias (conns counting_daemon 0), app counting_daemon))"
    "written (conns d' 0) = written (conns counting_daemon 0) @ pongs ?ms" "closed (conns d' 0)"
    using stream_is_dispatched [of ?ms "[add_htlc_frame, [0, 18, 0, 2, 0x7B, 0x7D]]" 0 counting_daemon 3 "\<lambda>h a m s. Suc s"]
    by auto
  then show ?thesis
    by (intro exI [of _ d']) (simp add: d PeerConnection_def deliver_def deliver_one_def alias_after_def pongs_def
        MSG_PING_def MSG_UPDATE_ADD_HTLC_def)
qed

text \<open>
  The clean-up forgets a peer that has reconnected.  When the read loop of an old connection ends after a new
  connection has announced the same name, the entry of the new connection is deleted, although that connection stays open and
  active: sending to the peer fails.
\<close>

lemma reconnected_peer_is_dropped:
  assumes "peer_alias (conns d old) = JStr a" and "a \<noteq> []" and "dict_get (peers d) (JStr a) = Some new" and "new \<noteq> old"
    and "is_active (conns d new)" and "\<not> closed (conns d new)"
  shows "\<exists>d'. leave_loop old d e = Ended d' e \<and> is_active (conns d' new) \<and> \<not> closed (conns d' new) \<and>
    send_to_peer a m d' = Inl ConnectionError"
  using assms by (simp add: leave_loop_def Let_def send_to_peer_def)

definition bob_init :: p2p_message where
  "bob_init = \<lparr>msg_type = MSG_INIT, payload = [(''sender_alias'', JStr ''Bob'')]\<rparr>"

text \<open>Bob connects and says so, and connects again before the first connection has ended.\<close>

definition bob_twice :: "(unit, nat) daemon" where
  "bob_twice =
     (let d = handle_incoming_connection [] False (handle_incoming_connection [] False (daemon_start (NodeDaemon ''Alice'' 0)))
      in case handle_message (app_handlers (\<lambda>h a m s. s)) 0 bob_init d of
           Continue d1 \<Rightarrow> (case handle_message (app_handlers (\<lambda>h a m s. s)) 1 bob_init d1 of Continue d2 \<Rightarrow> d2 | _ \<Rightarrow> d1)
         | _ \<Rightarrow> d)"

lemma reconnected_peer_is_dropped_witness:
  "\<exists>d'. leave_loop 0 bob_twice None = Ended d' None \<and> is_active (conns d' 1) \<and> \<not> closed (conns d' 1) \<and>
    send_to_peer ''Bob'' add_htlc_message d' = Inl ConnectionError"
proof (rule reconnected_peer_is_dropped)
  have bob: "bob_twice = \<lparr>daemon_alias = ''Alice'', peers = [(JStr ''Bob'', 1)], handlers = [], server_open = True,
      running = True, tasks = [0, 1],
      conns = (\<lambda>_. PeerConnection [] True (JStr []))(0 := PeerConnection [] False (JStr ''Bob''), 1 := PeerConnection [] False (JStr ''Bob'')),
      next_conn = 2, app = 0\<rparr>"
    by (simp add: bob_twice_def handle_incoming_connection_def new_conn_def create_task_def daemon_start_def NodeDaemon_def
        handle_message_def bob_init_def dispatch_def PeerConnection_def fun_eq_iff Let_def)
  show "peer_alias (conns bob_twice 0) = JStr ''Bob''" "dict_get (peers bob_twice) (JStr ''Bob'') = Some 1"
    "is_active (conns bob_twice 1)" "\<not> closed (conns bob_twice 1)"
    by (simp_all add: bob PeerConnection_def)
qed simp_all

text \<open>
  A connection that has announced two names leaves the first behind: after its end the entry refers to a closed connection, and
  a message sent to that name is an exception of the transport.
\<close>

lemma renamed_peer_stays:
  assumes "dict_get (peers d) (JStr a) = Some i" and "peer_alias (conns d i) = JStr b" and "a \<noteq> b" and "serialize_message m = Inr frame"
  shows "\<exists>d'. leave_loop i d e = Ended d' e \<and> dict_get (peers d') (JStr a) = Some i \<and> closed (conns d' i) \<and>
    send_to_peer a m d' = Inl ConnectionError"
  using assms by (simp add: leave_loop_def Let_def send_to_peer_def conn_send_def conn_close_def)

text \<open>
  An INIT message whose \<open>sender_alias\<close> is a non-empty list or object ends the read loop with a TypeError that the
  clean-up raises again before it reaches \<open>close\<close>: the connection is left open and marked active, with nothing reading it.
\<close>

lemma malformed_init_leaks_connection:
  assumes "serialize_message m = Inr frame" and "wf_json (JObj (payload m))" and "msg_type m = MSG_INIT"
    and "dict_get (payload m) ''sender_alias'' = Some v" and "json_true v" and "\<not> hashable v"
    and "running d" and "is_active (conns d i)" and "reader (conns d i) = frame @ rest"
  shows "\<exists>d'. peer_read_loop call (Suc n) i d = Some (Ended d' (Some TypeError)) \<and>
    closed (conns d' i) = closed (conns d i) \<and> is_active (conns d' i)"
proof -
  let ?d = "update_conn i ((conns d i)\<lparr>reader := rest, peer_alias := v\<rparr>) d"
  have "read_iteration call i d = Throw TypeError ?d"
    using assms by (simp add: read_iteration_def receive_frame handle_message_def)
  then show ?thesis
    using assms by (simp add: leave_loop_def Let_def)
qed

definition bad_init :: p2p_message where
  "bad_init = \<lparr>msg_type = MSG_INIT, payload = [(''sender_alias'', JList [JNull])]\<rparr>"

definition bad_init_frame :: bytes where
  "bad_init_frame = [0, 16, 0, 24] @ utf8_encode (dumps (JObj (payload bad_init)))"

lemma bad_init_body:
  "utf8_encode (dumps (JObj (payload bad_init))) = map of_char (''{'' @ [quote] @ ''sender_alias'' @ [quote] @ '': [null]}'')"
  by code_simp

lemma serialize_bad_init: "serialize_message bad_init = Inr bad_init_frame"
  unfolding serialize_message_def bad_init_frame_def bad_init_body
  by (simp add: bad_init_def MSG_INIT_def to_bytes_be_def numeral_2_eq_2)

lemma malformed_init_leaks_connection_witness:
  "\<exists>d'. peer_read_loop (app_handlers (\<lambda>h a m s. s)) 1 0
      (handle_incoming_connection bad_init_frame False (daemon_start (NodeDaemon ''Alice'' (0 :: nat)))) =
        Some (Ended (d' :: (unit, nat) daemon) (Some TypeError)) \<and>
    \<not> closed (conns d' 0) \<and> is_active (conns d' 0)"
proof -
  let ?d = "handle_incoming_connection bad_init_frame False (daemon_start (NodeDaemon ''Alice'' (0 :: nat))) :: (unit, nat) daemon"
  have d: "conns ?d 0 = PeerConnection bad_init_frame False (JStr [])" "running ?d"
    by (simp_all add: handle_incoming_connection_def new_conn_def create_task_def daemon_start_def NodeDaemon_def)
  show ?thesis
    using malformed_init_leaks_connection [OF serialize_bad_init, of "JList [JNull]" ?d 0 "[]" "app_handlers (\<lambda>h a m s. s)" 0] d
    by (simp add: bad_init_def PeerConnection_def)
qed

end
