(* ===== verification/Watchtower.thy ===== *)
theory Watchtower
  imports Json Transactions
begin

text \<open>
  \<open>protocols/watchtower.py\<close>: hints and encrypted justice packages for revoked commitments, the session a client registers them
  in, and the daemon that watches transactions and builds the sweep.  AES-GCM, which the \<open>cryptography\<close> package provides, is a
  parameter with the law the code relies on; the nonce of \<open>secrets.token_bytes\<close> is an argument.  A package read back must have
  fields of the types that \<open>register_justice_package\<close> writes; any other type is a TypeError here.
\<close>

definition WATCHTOWER_HINT_BYTES :: nat where "WATCHTOWER_HINT_BYTES = 16"
definition AES_GCM_NONCE_BYTES :: nat where "AES_GCM_NONCE_BYTES = 12"
definition AES_GCM_TAG_BYTES :: nat where "AES_GCM_TAG_BYTES = 16"

text \<open>\<open>AESGCM(key).encrypt(nonce, data, None)\<close> and \<open>decrypt\<close>, which fails with InvalidTag.\<close>

record aesgcm =
  gcm_encrypt :: "bytes \<Rightarrow> bytes \<Rightarrow> bytes \<Rightarrow> bytes"
  gcm_decrypt :: "bytes \<Rightarrow> bytes \<Rightarrow> bytes \<Rightarrow> bytes option"

locale aead =
  fixes A :: aesgcm
  assumes decrypt_encrypt: "length key = 32 \<Longrightarrow> length nonce = 12 \<Longrightarrow>
    gcm_decrypt A key nonce (gcm_encrypt A key nonce m) = Some m"

definition hex_to_bytes :: "btclib \<Rightarrow> string \<Rightarrow> bytes res" where
  "hex_to_bytes L s = (case lib_x L s of None \<Rightarrow> Inl ValueError | Some b \<Rightarrow> Inr b)"

section \<open>Hints and packages\<close>

definition derive_watchtower_hint :: "btclib \<Rightarrow> string \<Rightarrow> string res" where
  "derive_watchtower_hint L revoked_txid_hex =
     rbind (hex_to_bytes L revoked_txid_hex) (\<lambda>b. Inr (hexlify (take WATCHTOWER_HINT_BYTES (sha256 b))))"

definition encrypt_justice_payload :: "btclib \<Rightarrow> aesgcm \<Rightarrow> bytes \<Rightarrow> string \<Rightarrow> json \<Rightarrow> string res" where
  "encrypt_justice_payload L A nonce revoked_txid_hex justice_package =
     (let payload_bytes = utf8_encode (dumps justice_package)
      in rbind (hex_to_bytes L revoked_txid_hex) (\<lambda>b.
         let key = sha256 b; ciphertext = gcm_encrypt A key nonce payload_bytes
         in Inr (hexlify nonce @ '':'' @ hexlify ciphertext)))"

text \<open>\<open>s.replace(p, "")\<close> for a \<open>p\<close> that is not empty, and \<open>s.split(":", 1)\<close> of a text with a colon.\<close>

function remove_text :: "string \<Rightarrow> string \<Rightarrow> string" where
  "remove_text p s =
     (case s of
        [] \<Rightarrow> []
      | c # cs \<Rightarrow> if p \<noteq> [] \<and> take (length p) s = p then remove_text p (drop (length p) s) else c # remove_text p cs)"
  by pat_completeness auto
termination by (relation "measure (length \<circ> snd)") auto

declare remove_text.simps [simp del]

definition split_colon :: "string \<Rightarrow> string \<times> string" where
  "split_colon s = (takeWhile (\<lambda>c. c \<noteq> CHR '':'') s, drop 1 (dropWhile (\<lambda>c. c \<noteq> CHR '':'') s))"

text \<open>The legacy cipher: exclusive or with the key, repeated.\<close>

definition xor_repeated :: "bytes \<Rightarrow> bytes \<Rightarrow> bytes" where
  "xor_repeated key bs = map (\<lambda>i. bs ! i XOR key ! (i mod length key)) [0..<length bs]"

definition decrypt_justice_payload :: "btclib \<Rightarrow> aesgcm \<Rightarrow> string \<Rightarrow> string \<Rightarrow> json res" where
  "decrypt_justice_payload L A revoked_txid_hex encrypted_blob =
     rbind (hex_to_bytes L revoked_txid_hex) (\<lambda>b.
     let key = sha256 b
     in rbind
       (if CHR '':'' \<in> set encrypted_blob then
          (let (nonce_hex, cipher_hex) = split_colon encrypted_blob
           in rbind (bytes_fromhex nonce_hex) (\<lambda>nonce.
              rbind (bytes_fromhex cipher_hex) (\<lambda>ciphertext.
              case gcm_decrypt A key nonce ciphertext of None \<Rightarrow> Inl InvalidTag | Some m \<Rightarrow> Inr m)))
        else
          (let hex_str = remove_text ''mock_cipher_'' encrypted_blob
           in rbind (bytes_fromhex hex_str) (\<lambda>cipher_bytes. Inr (xor_repeated key cipher_bytes))))
       (\<lambda>plain_bytes. case utf8_decode plain_bytes of
          None \<Rightarrow> Inl ValueError
        | Some t \<Rightarrow> (case loads t of None \<Rightarrow> Inl ValueError | Some v \<Rightarrow> Inr v)))"

section \<open>The session\<close>

record watchtower_session =
  session_id :: string
  hint_map :: "(string, string) pydict"
  registered_txids :: "(string, string) pydict"

definition WatchtowerSession :: watchtower_session where
  "WatchtowerSession = \<lparr>session_id = ''wt_session_01'', hint_map = [], registered_txids = []\<rparr>"

record justice =
  j_txid :: string
  j_sweeper :: string
  j_amount :: int
  j_sig :: string
  j_revocation :: string
  j_local :: string
  j_delay :: int
  j_vout :: int

definition justice_package :: "justice \<Rightarrow> json" where
  "justice_package j = JObj
     [(''revoked_txid'', JStr (j_txid j)),
      (''revoked_vout'', JInt (j_vout j)),
      (''sweeper_pubkey'', JStr (j_sweeper j)),
      (''amount_sat'', JInt (j_amount j)),
      (''revocation_sig'', JStr (j_sig j)),
      (''revocation_pubkey'', JStr (j_revocation j)),
      (''local_pubkey'', JStr (j_local j)),
      (''to_self_delay'', JInt (j_delay j)),
      (''nonce_len'', JInt (int AES_GCM_NONCE_BYTES)),
      (''tag_len'', JInt (int AES_GCM_TAG_BYTES))]"

definition register_justice_package ::
    "btclib \<Rightarrow> aesgcm \<Rightarrow> bytes \<Rightarrow> justice \<Rightarrow> watchtower_session \<Rightarrow> (string \<times> watchtower_session) res" where
  "register_justice_package L A nonce j s =
     rbind (derive_watchtower_hint L (j_txid j)) (\<lambda>hint.
     rbind (encrypt_justice_payload L A nonce (j_txid j) (justice_package j)) (\<lambda>blob.
     Inr (hint, s\<lparr>hint_map := dict_set hint blob (hint_map s),
                  registered_txids := dict_set hint (j_txid j) (registered_txids s)\<rparr>)))"

section \<open>The daemon\<close>

record watchtower_daemon =
  session :: watchtower_session
  swept_transactions :: "tx list"

fun json_item :: "json \<Rightarrow> string \<Rightarrow> json res" where
  "json_item (JObj ps) k = (case dict_get ps k of None \<Rightarrow> Inl KeyError | Some v \<Rightarrow> Inr v)"
| "json_item v k = Inl TypeError"

fun as_text :: "json \<Rightarrow> string res" where
  "as_text (JStr s) = Inr s"
| "as_text v = Inl TypeError"

fun as_int :: "json \<Rightarrow> int res" where
  "as_int (JInt i) = Inr i"
| "as_int v = Inl TypeError"

definition text_item :: "json \<Rightarrow> string \<Rightarrow> string res" where
  "text_item v k = rbind (json_item v k) as_text"

definition int_item :: "json \<Rightarrow> string \<Rightarrow> int res" where
  "int_item v k = rbind (json_item v k) as_int"

text \<open>\<open>package.get("revoked_vout", 0)\<close>.\<close>

definition vout_item :: "json \<Rightarrow> int res" where
  "vout_item v =
     (case json_item v ''revoked_vout'' of
        Inr i \<Rightarrow> as_int i
      | Inl e \<Rightarrow> if e = KeyError then Inr 0 else Inl e)"

definition build_justice_tx :: "btclib \<Rightarrow> string \<Rightarrow> json \<Rightarrow> tx res" where
  "build_justice_tx L broadcast_txid_hex package =
     rbind (rbind (text_item package ''revocation_pubkey'') (hex_to_bytes L)) (\<lambda>revocation_pubkey.
     rbind (rbind (text_item package ''local_pubkey'') (hex_to_bytes L)) (\<lambda>local_pubkey.
     rbind (int_item package ''to_self_delay'') (\<lambda>to_self_delay.
     let redeem_script = create_revocable_output_script L revocation_pubkey local_pubkey to_self_delay
     in rbind (vout_item package) (\<lambda>revoked_vout.
        rbind (rbind (text_item package ''sweeper_pubkey'') (hex_to_bytes L)) (\<lambda>sweeper.
        rbind (int_item package ''amount_sat'') (\<lambda>amount.
        rbind (rbind (text_item package ''revocation_sig'') (hex_to_bytes L)) (\<lambda>sig.
        create_breach_remedy_transaction L broadcast_txid_hex revoked_vout sweeper amount sig redeem_script)))))))"

definition scan_transaction ::
    "btclib \<Rightarrow> aesgcm \<Rightarrow> string \<Rightarrow> watchtower_daemon \<Rightarrow> (tx option \<times> watchtower_daemon) res" where
  "scan_transaction L A broadcast_txid_hex w =
     rbind (derive_watchtower_hint L broadcast_txid_hex) (\<lambda>hint.
     case dict_get (hint_map (session w)) hint of
       None \<Rightarrow> Inr (None, w)
     | Some encrypted_blob \<Rightarrow>
         rbind (decrypt_justice_payload L A broadcast_txid_hex encrypted_blob) (\<lambda>package.
         rbind (build_justice_tx L broadcast_txid_hex package) (\<lambda>justice_tx.
         Inr (Some justice_tx, w\<lparr>swept_transactions := swept_transactions w @ [justice_tx]\<rparr>))))"

section \<open>Packages are read back\<close>

lemma colon_hex_digit: "n < 16 \<Longrightarrow> hex_digit n \<noteq> CHR '':''"
proof -
  have "list_all (\<lambda>n. hex_digit n \<noteq> CHR '':'') [0..<16]" by code_simp
  then show "n < 16 \<Longrightarrow> hex_digit n \<noteq> CHR '':''" by (simp add: list_all_iff)
qed

lemma colon_hexlify: "CHR '':'' \<notin> set (hexlify bs)"
proof -
  have "CHR '':'' \<notin> set (hex_byte b)" for b
  proof -
    have "unat b < 256" using unsigned_less [of b, where 'a = nat] by simp
    then have "unat b div 16 < 16" "unat b mod 16 < 16" by simp_all
    then show ?thesis using colon_hex_digit [symmetric] by (simp add: hex_byte_def)
  qed
  then show ?thesis by (auto simp: hexlify_def)
qed

lemma split_colon_hexlify: "split_colon (hexlify bs @ CHR '':'' # rest) = (hexlify bs, rest)"
proof -
  have "\<forall>c \<in> set (hexlify bs). c \<noteq> CHR '':''" using colon_hexlify by auto
  then show ?thesis by (simp add: split_colon_def takeWhile_append2 dropWhile_append2)
qed

context aead
begin

lemma decrypt_encrypted:
  assumes "encrypt_justice_payload L A nonce txid v = Inr blob" and "wf_json v" and "length nonce = 12"
  shows "decrypt_justice_payload L A txid blob = Inr v"
  using assms
  by (auto simp: encrypt_justice_payload_def decrypt_justice_payload_def rbind_eq_Inr Let_def split_colon_hexlify
      decrypt_encrypt loads_dumps)

end

text \<open>The legacy cipher with a tag over key, nonce and text: an instance of the interface.\<close>

definition tagged_xor :: aesgcm where
  "tagged_xor =
     \<lparr>gcm_encrypt = (\<lambda>key nonce m. sha256 (key @ nonce @ xor_repeated key m) @ xor_repeated key m),
      gcm_decrypt = (\<lambda>key nonce c.
        if take 32 c = sha256 (key @ nonce @ drop 32 c) then Some (xor_repeated key (drop 32 c)) else None)\<rparr>"

lemma xor_repeated_twice: "key \<noteq> [] \<Longrightarrow> xor_repeated key (xor_repeated key m) = m"
  by (intro nth_equalityI) (simp_all add: xor_repeated_def)

interpretation tagged: aead tagged_xor
  by unfold_locales (auto simp: tagged_xor_def intro!: xor_repeated_twice)

lemma wf_justice_package: "wf_json (justice_package j)"
  by (simp add: justice_package_def)

lemma package_items [simp]:
  "text_item (justice_package j) ''revocation_pubkey'' = Inr (j_revocation j)"
  "text_item (justice_package j) ''local_pubkey'' = Inr (j_local j)"
  "text_item (justice_package j) ''sweeper_pubkey'' = Inr (j_sweeper j)"
  "text_item (justice_package j) ''revocation_sig'' = Inr (j_sig j)"
  "int_item (justice_package j) ''to_self_delay'' = Inr (j_delay j)"
  "int_item (justice_package j) ''amount_sat'' = Inr (j_amount j)"
  "vout_item (justice_package j) = Inr (j_vout j)"
  by (simp_all add: justice_package_def text_item_def int_item_def vout_item_def)

lemma build_justice_tx_package:
  assumes "hex_to_bytes L (j_revocation j) = Inr revo" and "hex_to_bytes L (j_local j) = Inr loc"
    and "hex_to_bytes L (j_sweeper j) = Inr sweeper" and "hex_to_bytes L (j_sig j) = Inr sig"
  shows "build_justice_tx L txid (justice_package j) =
    create_breach_remedy_transaction L txid (j_vout j) sweeper (j_amount j) sig (create_revocable_output_script L revo loc (j_delay j))"
  by (simp add: build_justice_tx_def assms)

section \<open>Sweeping\<close>

definition register_all ::
    "btclib \<Rightarrow> aesgcm \<Rightarrow> (bytes \<times> justice) list \<Rightarrow> watchtower_session \<Rightarrow> watchtower_session res" where
  "register_all L A =
     fold_res (\<lambda>(nonce, j) s. rbind (register_justice_package L A nonce j s) (\<lambda>(hint, s'). Inr s'))"

lemma register_hint_map:
  assumes "register_justice_package L A nonce j s = Inr (hint, s')"
  obtains blob where "derive_watchtower_hint L (j_txid j) = Inr hint"
    "encrypt_justice_payload L A nonce (j_txid j) (justice_package j) = Inr blob"
    "hint_map s' = dict_set hint blob (hint_map s)"
  using assms by (auto simp: register_justice_package_def rbind_eq_Inr)

lemma register_all_other_hint:
  assumes "register_all L A ps s = Inr s'" and "\<forall>(n, j) \<in> set ps. derive_watchtower_hint L (j_txid j) \<noteq> Inr hint"
  shows "dict_get (hint_map s') hint = dict_get (hint_map s) hint"
  using assms
proof (induction ps arbitrary: s)
  case Nil
  then show ?case by (simp add: register_all_def)
next
  case (Cons p ps)
  obtain n j where p: "p = (n, j)" by (cases p)
  then obtain h s1 where s1: "register_justice_package L A n j s = Inr (h, s1)" "register_all L A ps s1 = Inr s'"
    using Cons.prems(1) by (auto simp: register_all_def rbind_eq_Inr)
  from s1(1) obtain blob where "derive_watchtower_hint L (j_txid j) = Inr h" "hint_map s1 = dict_set h blob (hint_map s)"
    by (rule register_hint_map)
  moreover have "h \<noteq> hint" using calculation Cons.prems(2) p by auto
  moreover have "dict_get (hint_map s') hint = dict_get (hint_map s1) hint"
    using Cons.prems(2) by (intro Cons.IH [OF s1(2)]) auto
  ultimately show ?case by simp
qed

lemma register_all_blob:
  assumes "register_all L A (pre @ (nonce, j) # post) s = Inr s'"
    and "\<forall>(n, j') \<in> set post. derive_watchtower_hint L (j_txid j') \<noteq> derive_watchtower_hint L (j_txid j)"
  obtains hint blob where "derive_watchtower_hint L (j_txid j) = Inr hint"
    "encrypt_justice_payload L A nonce (j_txid j) (justice_package j) = Inr blob"
    "dict_get (hint_map s') hint = Some blob"
proof -
  obtain s1 h s2 where s2: "register_justice_package L A nonce j s1 = Inr (h, s2)" "register_all L A post s2 = Inr s'"
    using assms(1) by (auto simp: register_all_def fold_res_append rbind_eq_Inr)
  from s2(1) obtain blob where b: "derive_watchtower_hint L (j_txid j) = Inr h"
    "encrypt_justice_payload L A nonce (j_txid j) (justice_package j) = Inr blob"
    "hint_map s2 = dict_set h blob (hint_map s1)"
    by (rule register_hint_map)
  moreover have "dict_get (hint_map s') h = dict_get (hint_map s2) h"
    using assms(2) b(1) by (intro register_all_other_hint [OF s2(2)]) auto
  ultimately show ?thesis using that by simp
qed

lemma tower_sweeps:
  assumes "aead A" and "wallet_lib L" and "length nonce = 12"
    and "register_all L A (pre @ (nonce, j) # post) s0 = Inr (session w)"
    and "\<forall>(n, j') \<in> set post. derive_watchtower_hint L (j_txid j') \<noteq> derive_watchtower_hint L (j_txid j)"
    and "hex_to_bytes L (j_revocation j) = Inr (lib_pub L key)" and "hex_to_bytes L (j_local j) = Inr local_pubkey"
    and "hex_to_bytes L (j_sweeper j) = Inr sweeper" and "hex_to_bytes L (j_sig j) = Inr sig"
    and "length (lib_pub L key) < 65536" "length local_pubkey < 65536" "0 \<le> j_delay j" "j_delay j < 2 ^ 32"
    and "script = create_revocable_output_script L (lib_pub L key) local_pubkey (j_delay j)"
    and "create_breach_remedy_transaction L (j_txid j) (j_vout j) sweeper (j_amount j) sig0 script = Inr t0"
    and "sign_sighash L key (lib_sighash L script t0 0 SIGHASH_ALL output_value) 1 = Inr sig"
  shows "\<exists>t. scan_transaction L A (j_txid j) w = Inr (Some t, w\<lparr>swept_transactions := swept_transactions w @ [t]\<rparr>) \<and>
    verify_transaction_witness L E t 0 (p2wsh_address_spk L script) output_value = Inr True"
proof -
  obtain hint blob where b: "derive_watchtower_hint L (j_txid j) = Inr hint"
    "encrypt_justice_payload L A nonce (j_txid j) (justice_package j) = Inr blob"
    "dict_get (hint_map (session w)) hint = Some blob"
    by (rule register_all_blob [OF assms(4,5)])
  obtain t where t: "create_breach_remedy_transaction L (j_txid j) (j_vout j) sweeper (j_amount j) sig script = Inr t"
    using assms(15) by (auto simp: create_breach_remedy_transaction_def rbind_eq_Inr Let_def)
  have "decrypt_justice_payload L A (j_txid j) blob = Inr (justice_package j)"
    by (rule aead.decrypt_encrypted [OF assms(1) b(2) wf_justice_package assms(3)])
  then have "scan_transaction L A (j_txid j) w = Inr (Some t, w\<lparr>swept_transactions := swept_transactions w @ [t]\<rparr>)"
    using b t by (simp add: scan_transaction_def build_justice_tx_package [OF assms(6-9)] assms(14))
  moreover have "verify_transaction_witness L E t 0 (p2wsh_address_spk L script) output_value = Inr True"
    by (rule breach_remedy_spends [OF assms(2,14,10-13,15,16) t])
  ultimately show ?thesis by blast
qed

text \<open>
  Property C28: a registered breach is swept.  Whatever else clients register before, and under other hints afterwards, when a
  registered revoked transaction appears the tower decrypts the package, builds the breach remedy from it and keeps it, and that
  transaction spends the revoked output, if the client's signature was made with the revocation key for it.
\<close>

theorem watchtower_sweeps_breach:
  assumes "aead A" and "wallet_lib L" and "length nonce = 12"
    and "register_all L A (pre @ (nonce, j) # post) s0 = Inr (session w)"
    and "\<forall>(n, j') \<in> set post. derive_watchtower_hint L (j_txid j') \<noteq> derive_watchtower_hint L (j_txid j)"
    and "hex_to_bytes L (j_revocation j) = Inr (lib_pub L key)" and "hex_to_bytes L (j_local j) = Inr local_pubkey"
    and "hex_to_bytes L (j_sweeper j) = Inr sweeper" and "hex_to_bytes L (j_sig j) = Inr sig"
    and "length (lib_pub L key) < 65536" "length local_pubkey < 65536" "0 \<le> j_delay j" "j_delay j < 2 ^ 32"
    and "script = create_revocable_output_script L (lib_pub L key) local_pubkey (j_delay j)"
    and "create_breach_remedy_transaction L (j_txid j) (j_vout j) sweeper (j_amount j) [] script = Inr t0"
    and "sign_sighash L key (lib_sighash L script t0 0 SIGHASH_ALL output_value) 1 = Inr sig"
  shows "\<exists>t. scan_transaction L A (j_txid j) w = Inr (Some t, w\<lparr>swept_transactions := swept_transactions w @ [t]\<rparr>) \<and>
    verify_transaction_witness L E t 0 (p2wsh_address_spk L script) output_value = Inr True"
  using assms by (rule tower_sweeps)

lemma wire_hex [simp]: "hex_to_bytes wire_lib (hexlify b) = Inr b"
  by (simp add: hex_to_bytes_def wire_lib_def unhexlify_hexlify)

definition sample_revocable :: bytes where
  "sample_revocable = create_revocable_output_script wire_lib [2] [3] 144"

definition sample_justice :: justice where
  "sample_justice =
     \<lparr>j_txid = sample_txid, j_sweeper = hexlify [5], j_amount = 1000, j_sig = hexlify (sample_sig [2] sample_revocable),
      j_revocation = hexlify [2], j_local = hexlify [3], j_delay = 144, j_vout = 0\<rparr>"

theorem watchtower_sweeps_breach_witness:
  "\<exists>s t. register_all wire_lib tagged_xor [(replicate 12 0, sample_justice)] WatchtowerSession = Inr s \<and>
    scan_transaction wire_lib tagged_xor sample_txid \<lparr>session = s, swept_transactions = []\<rparr> =
      Inr (Some t, \<lparr>session = s, swept_transactions = [t]\<rparr>) \<and>
    verify_transaction_witness wire_lib line_curve t 0 (p2wsh_address_spk wire_lib sample_revocable) 1000 = Inr True"
proof -
  obtain t0 where t0: "create_breach_remedy_transaction wire_lib sample_txid 0 [5] 1000 [] sample_revocable = Inr t0"
    by (simp add: create_breach_remedy_transaction_def add_input_sample Let_def)
  have "hex_to_bytes wire_lib sample_txid = Inr [1, 2, 3]" by (simp add: sample_txid_def)
  then obtain s where s: "register_all wire_lib tagged_xor [(replicate 12 0, sample_justice)] WatchtowerSession = Inr s"
    by (simp add: register_all_def register_justice_package_def derive_watchtower_hint_def encrypt_justice_payload_def
        sample_justice_def Let_def)
  have fields: "j_txid sample_justice = sample_txid" "j_sweeper sample_justice = hexlify [5]" "j_amount sample_justice = 1000"
    "j_sig sample_justice = hexlify (sample_sig [2] sample_revocable)" "j_revocation sample_justice = hexlify [2]"
    "j_local sample_justice = hexlify [3]" "j_delay sample_justice = 144" "j_vout sample_justice = 0"
    by (simp_all add: sample_justice_def)
  have sign: "sign_sighash wire_lib [2] (sha256 r) 1 = Inr (sample_sig [2] r)" for r
    by (simp add: sign_sighash_def sample_sig_def)
  have "\<exists>t. scan_transaction wire_lib tagged_xor (j_txid sample_justice) \<lparr>session = s, swept_transactions = []\<rparr> =
      Inr (Some t, \<lparr>session = s, swept_transactions = []\<rparr>\<lparr>swept_transactions := swept_transactions \<lparr>session = s, swept_transactions = []\<rparr> @ [t]\<rparr>) \<and>
    verify_transaction_witness wire_lib line_curve t 0 (p2wsh_address_spk wire_lib sample_revocable) 1000 = Inr True"
    by (rule watchtower_sweeps_breach [where nonce = "replicate 12 0" and pre = "[]" and post = "[]" and key = "[2]"
          and local_pubkey = "[3]" and sweeper = "[5]" and sig = "sample_sig [2] sample_revocable" and ?s0.0 = WatchtowerSession
          and ?t0.0 = t0 and output_value = 1000, OF tagged.aead_axioms wire_wallet_lib])
      (simp_all add: s t0 fields sign sample_revocable_def [symmetric])
  then show ?thesis using s by (auto simp: fields)
qed

end
