(* ===== verification/Swaps.thy ===== *)
theory Swaps
  imports Node Transactions
begin

text \<open>
  Submarine swaps: the scripts, funding, claim and refund transactions and liquidity advertisements of \<open>protocols/swaps.py\<close> and
  \<open>protocols/swap_server.py\<close>, and the \<open>SwapCoordinator\<close> with its swaps, scripts and funding outputs by swap id.
\<close>

section \<open>Swaps and advertisements\<close>

datatype swap_type = LOOP_IN | LOOP_OUT

datatype swap_state = PENDING | FULFILLED | EXPIRED

record submarine_swap =
  swap_id :: string
  swap_kind :: swap_type
  swap_sat :: int
  payment_hash_hex :: string
  preimage_hex :: "string option"
  swap_locktime :: int
  swap_status :: swap_state

definition create_submarine_swap_script :: "btclib \<Rightarrow> bytes \<Rightarrow> bytes \<Rightarrow> bytes \<Rightarrow> int \<Rightarrow> bytes" where
  "create_submarine_swap_script L user_pubkey provider_pubkey pay_hash locktime =
     create_htlc L user_pubkey provider_pubkey pay_hash locktime"

text \<open>The funder's public key is not used.\<close>

definition create_submarine_swap_funding_tx :: "btclib \<Rightarrow> string \<Rightarrow> int \<Rightarrow> bytes \<Rightarrow> int \<Rightarrow> bytes \<Rightarrow> tx res" where
  "create_submarine_swap_funding_tx L funder_utxo_txid funder_utxo_vout funder_pubkey swap_amount_sat swap_redeem_script =
     rbind (add_input L funder_utxo_txid funder_utxo_vout 0xFFFFFFFF (TransactionBuilder 0)) (\<lambda>b.
       Inr (build (add_p2wsh_output L swap_amount_sat swap_redeem_script b)))"

definition DEFAULT_FUNDING_WEIGHT :: int where "DEFAULT_FUNDING_WEIGHT = 252"
definition DEFAULT_LEASE_MAX_CAPACITY_SAT :: int where "DEFAULT_LEASE_MAX_CAPACITY_SAT = 10000000"

record liquidity_ad =
  ad_node_alias :: string
  ad_node_pubkey_hex :: string
  lease_fee_base_sat :: int
  lease_fee_basis_ppm :: int
  funding_weight :: int
  max_capacity_sat :: int

definition LiquidityAd :: "string \<Rightarrow> string \<Rightarrow> liquidity_ad" where
  "LiquidityAd a pubkey_hex =
     \<lparr>ad_node_alias = a, ad_node_pubkey_hex = pubkey_hex, lease_fee_base_sat = DEFAULT_LEASE_FEE_BASE_SAT,
      lease_fee_basis_ppm = DEFAULT_LEASE_FEE_BASIS_PPM, funding_weight = DEFAULT_FUNDING_WEIGHT,
      max_capacity_sat = DEFAULT_LEASE_MAX_CAPACITY_SAT\<rparr>"

definition get_fee_policy :: "liquidity_ad \<Rightarrow> fee_policy" where
  "get_fee_policy ad = \<lparr>base_fee_sat = lease_fee_base_sat ad, fee_rate_ppm = lease_fee_basis_ppm ad\<rparr>"

definition calculate_lease_fee :: "liquidity_ad \<Rightarrow> int \<Rightarrow> int" where
  "calculate_lease_fee ad requested_capacity_sat = calculate_fee (get_fee_policy ad) requested_capacity_sat"

section \<open>Spending the swap output\<close>

definition create_submarine_swap_claim_tx ::
    "btclib \<Rightarrow> string \<Rightarrow> int \<Rightarrow> bytes \<Rightarrow> int \<Rightarrow> bytes \<Rightarrow> bytes \<Rightarrow> bytes \<Rightarrow> tx res" where
  "create_submarine_swap_claim_tx L fund_txid fund_vout claimer_pubkey amount_sat image_bytes swap_redeem_script claim_sig =
     (let claimer_spk = create_p2wpkh L claimer_pubkey;
          miner_fee_sat = 500;
          out_amount_sat = max 0 (amount_sat - miner_fee_sat)
      in rbind (add_input L fund_txid fund_vout 0xFFFFFFFF (TransactionBuilder 0)) (\<lambda>b.
         let b = add_output out_amount_sat claimer_spk b
         in if claim_sig \<noteq> []
            then Inr (build (add_witness_stack [claim_sig, image_bytes, [1], swap_redeem_script] b))
            else Inr (build b)))"

definition create_submarine_swap_refund_tx ::
    "btclib \<Rightarrow> string \<Rightarrow> int \<Rightarrow> bytes \<Rightarrow> int \<Rightarrow> int \<Rightarrow> bytes \<Rightarrow> bytes \<Rightarrow> tx res" where
  "create_submarine_swap_refund_tx L fund_txid fund_vout refunder_pubkey amount_sat locktime swap_redeem_script refund_sig =
     (let refunder_spk = create_p2wpkh L refunder_pubkey;
          miner_fee_sat = 500;
          out_amount_sat = max 0 (amount_sat - miner_fee_sat)
      in rbind (add_input L fund_txid fund_vout 0 (TransactionBuilder 0)) (\<lambda>b.
         let b = add_output out_amount_sat refunder_spk (set_locktime locktime b)
         in if refund_sig \<noteq> []
            then Inr (build (add_witness_stack [refund_sig, [], swap_redeem_script] b))
            else Inr (build b)))"

section \<open>The coordinator\<close>

record swap_server_config =
  server_alias :: string
  server_wif_key :: string
  server_pubkey_hex :: string
  min_swap_sat :: int
  max_swap_sat :: int
  service_fee_ppm :: int

definition SwapServerConfig :: "string \<Rightarrow> string \<Rightarrow> swap_server_config" where
  "SwapServerConfig wif_key pubkey_hex =
     \<lparr>server_alias = ''LoopServer'', server_wif_key = wif_key, server_pubkey_hex = pubkey_hex,
      min_swap_sat = 1000, max_swap_sat = 10000000, service_fee_ppm = 1000\<rparr>"

record swap_coordinator =
  config :: swap_server_config
  swaps :: "(string, submarine_swap) pydict"
  swap_scripts :: "(string, bytes) pydict"
  onchain_funding :: "(string, string \<times> int) pydict"

text \<open>A coordinator without a configuration generates a key, from random bytes given as an argument.\<close>

definition SwapCoordinator :: "btclib \<Rightarrow> swap_server_config option \<Rightarrow> bytes \<Rightarrow> swap_coordinator res" where
  "SwapCoordinator L cfg random_bytes =
     rbind (case cfg of
              Some c \<Rightarrow> Inr c
            | None \<Rightarrow>
                rbind (generate_keypair L None random_bytes) (\<lambda>(secret, pubkey).
                  Inr (SwapServerConfig (lib_wif_text L secret) (hexlify pubkey))))
       (\<lambda>c. Inr \<lparr>config = c, swaps = [], swap_scripts = [], onchain_funding = []\<rparr>)"

definition new_swap :: "string \<Rightarrow> swap_type \<Rightarrow> int \<Rightarrow> bytes \<Rightarrow> int \<Rightarrow> submarine_swap" where
  "new_swap sid kind amount_sat pay_hash locktime =
     \<lparr>swap_id = sid, swap_kind = kind, swap_sat = amount_sat, payment_hash_hex = hexlify pay_hash,
      preimage_hex = None, swap_locktime = locktime, swap_status = PENDING\<rparr>"

definition initiate_loop_in ::
    "btclib \<Rightarrow> string \<Rightarrow> bytes \<Rightarrow> bytes \<Rightarrow> int \<Rightarrow> int \<Rightarrow> swap_coordinator \<Rightarrow> ((submarine_swap \<times> bytes) \<times> swap_coordinator) res"
where
  "initiate_loop_in L sid user_pubkey pay_hash amount_sat locktime c =
     rbind (bytes_fromhex (server_pubkey_hex (config c))) (\<lambda>server_pub.
       let redeem_script = create_htlc L user_pubkey server_pub pay_hash locktime;
           swap = new_swap sid LOOP_IN amount_sat pay_hash locktime
       in Inr ((swap, redeem_script),
               c\<lparr>swaps := dict_set sid swap (swaps c), swap_scripts := dict_set sid redeem_script (swap_scripts c)\<rparr>))"

definition initiate_loop_out ::
    "btclib \<Rightarrow> string \<Rightarrow> bytes \<Rightarrow> bytes \<Rightarrow> int \<Rightarrow> int \<Rightarrow> swap_coordinator \<Rightarrow> ((submarine_swap \<times> bytes) \<times> swap_coordinator) res"
where
  "initiate_loop_out L sid user_pubkey pay_hash amount_sat locktime c =
     rbind (bytes_fromhex (server_pubkey_hex (config c))) (\<lambda>server_pub.
       let redeem_script = create_htlc L server_pub user_pubkey pay_hash locktime;
           swap = new_swap sid LOOP_OUT amount_sat pay_hash locktime
       in Inr ((swap, redeem_script),
               c\<lparr>swaps := dict_set sid swap (swaps c), swap_scripts := dict_set sid redeem_script (swap_scripts c)\<rparr>))"

definition register_funding_utxo :: "string \<Rightarrow> string \<Rightarrow> int \<Rightarrow> swap_coordinator \<Rightarrow> swap_coordinator res" where
  "register_funding_utxo sid txid out c =
     (if dict_get (swaps c) sid = None then Inl PaymentCommunityError
      else Inr (c\<lparr>onchain_funding := dict_set sid (txid, out) (onchain_funding c)\<rparr>))"

definition complete_loop_in_with_preimage ::
    "btclib \<Rightarrow> string \<Rightarrow> bytes \<Rightarrow> swap_coordinator \<Rightarrow> (tx \<times> swap_coordinator) res" where
  "complete_loop_in_with_preimage L sid image_bytes c =
     (case dict_get (swaps c) sid of
        None \<Rightarrow> Inl PaymentCommunityError
      | Some swap \<Rightarrow>
          if swap_kind swap \<noteq> LOOP_IN then Inl PaymentCommunityError
          else if hexlify (sha256 image_bytes) \<noteq> payment_hash_hex swap then Inl PaymentCommunityError
          else
            (case dict_get (onchain_funding c) sid of
               None \<Rightarrow> Inl KeyError
             | Some (txid, out) \<Rightarrow>
                 (case dict_get (swap_scripts c) sid of
                    None \<Rightarrow> Inl KeyError
                  | Some redeem_script \<Rightarrow>
                      rbind (bytes_fromhex (server_pubkey_hex (config c))) (\<lambda>server_pub.
                      rbind (create_submarine_swap_claim_tx L txid out server_pub (swap_sat swap) image_bytes redeem_script [])
                        (\<lambda>unsigned_tx.
                      rbind (sign_p2wsh_input L unsigned_tx 0 redeem_script (server_wif_key (config c)) (swap_sat swap)) (\<lambda>sig.
                      rbind (create_submarine_swap_claim_tx L txid out server_pub (swap_sat swap) image_bytes redeem_script sig)
                        (\<lambda>signed_claim_tx.
                      Inr (signed_claim_tx,
                           c\<lparr>swaps := dict_set sid (swap\<lparr>preimage_hex := Some (hexlify image_bytes), swap_status := FULFILLED\<rparr>)
                               (swaps c)\<rparr>))))))))"

text \<open>The command \<open>swap_service\<close> of \<open>cli/app.py\<close>: it makes a coordinator with a new key, shows the public key, and ends.\<close>

definition swap_service :: "btclib \<Rightarrow> bytes \<Rightarrow> string res" where
  "swap_service L random_bytes = rbind (SwapCoordinator L None random_bytes) (\<lambda>coord. Inr (server_pubkey_hex (config coord)))"

section \<open>Runs of the coordinator\<close>

datatype swap_op =
    InitiateIn string bytes bytes int int
  | InitiateOut string bytes bytes int int
  | RegisterFunding string string int
  | Complete string bytes

fun swap_exec :: "btclib \<Rightarrow> swap_op \<Rightarrow> swap_coordinator \<Rightarrow> swap_coordinator res" where
  "swap_exec L (InitiateIn sid user h a t) c = rbind (initiate_loop_in L sid user h a t c) (\<lambda>(r, c'). Inr c')"
| "swap_exec L (InitiateOut sid user h a t) c = rbind (initiate_loop_out L sid user h a t c) (\<lambda>(r, c'). Inr c')"
| "swap_exec L (RegisterFunding sid txid out) c = register_funding_utxo sid txid out c"
| "swap_exec L (Complete sid p) c = rbind (complete_loop_in_with_preimage L sid p c) (\<lambda>(r, c'). Inr c')"

text \<open>A caller handles an exception and goes on: the coordinator is unchanged by a call that raises.\<close>

inductive swap_step :: "btclib \<Rightarrow> swap_coordinator \<Rightarrow> swap_coordinator \<Rightarrow> bool" for L where
  ok: "swap_exec L op c = Inr c' \<Longrightarrow> swap_step L c c'"
| raised: "swap_exec L op c = Inl e \<Longrightarrow> swap_step L c c"

inductive_cases swap_stepE: "swap_step L c c'"

text \<open>What holds of every swap the coordinator knows.\<close>

definition swap_ok :: "string \<Rightarrow> submarine_swap \<Rightarrow> bool" where
  "swap_ok sid s \<longleftrightarrow>
     swap_id s = sid \<and>
     (case swap_status s of
        PENDING \<Rightarrow> preimage_hex s = None
      | FULFILLED \<Rightarrow> swap_kind s = LOOP_IN \<and>
          (\<exists>p. preimage_hex s = Some (hexlify p) \<and> payment_hash_hex s = hexlify (sha256 p))
      | EXPIRED \<Rightarrow> False)"

text \<open>Its script: the HTLC over its payment hash and locktime between a user and the server, the user paying for a loop in.\<close>

definition swap_script :: "btclib \<Rightarrow> swap_server_config \<Rightarrow> submarine_swap \<Rightarrow> bytes \<Rightarrow> bool" where
  "swap_script L cfg s script \<longleftrightarrow>
     (\<exists>user server h. bytes_fromhex (server_pubkey_hex cfg) = Inr server \<and> payment_hash_hex s = hexlify h \<and>
        script = (if swap_kind s = LOOP_IN then create_htlc L user server h (swap_locktime s)
                  else create_htlc L server user h (swap_locktime s)))"

definition coordinator_ok :: "btclib \<Rightarrow> swap_coordinator \<Rightarrow> bool" where
  "coordinator_ok L c \<longleftrightarrow>
     (\<forall>sid s. dict_get (swaps c) sid = Some s \<longrightarrow>
        swap_ok sid s \<and> (\<exists>script. dict_get (swap_scripts c) sid = Some script \<and> swap_script L (config c) s script)) \<and>
     (\<forall>sid. dict_get (swap_scripts c) sid \<noteq> None \<longrightarrow> dict_get (swaps c) sid \<noteq> None) \<and>
     (\<forall>sid. dict_get (onchain_funding c) sid \<noteq> None \<longrightarrow> dict_get (swaps c) sid \<noteq> None)"

section \<open>The invariant\<close>

lemma initiated:
  assumes "initiate_loop_in L sid user h a t c = Inr (r, c') \<or> initiate_loop_out L sid user h a t c = Inr (r, c')"
  shows "\<exists>kind script. swaps c' = dict_set sid (new_swap sid kind a h t) (swaps c) \<and>
    swap_scripts c' = dict_set sid script (swap_scripts c) \<and> onchain_funding c' = onchain_funding c \<and> config c' = config c \<and>
    swap_script L (config c) (new_swap sid kind a h t) script"
  using assms
proof
  assume "initiate_loop_in L sid user h a t c = Inr (r, c')"
  then obtain server where "bytes_fromhex (server_pubkey_hex (config c)) = Inr server"
    "c' = c\<lparr>swaps := dict_set sid (new_swap sid LOOP_IN a h t) (swaps c), swap_scripts := dict_set sid (create_htlc L user server h t) (swap_scripts c)\<rparr>"
    by (auto simp: initiate_loop_in_def rbind_eq_Inr Let_def)
  then show ?thesis
    by (intro exI [of _ LOOP_IN] exI [of _ "create_htlc L user server h t"]) (auto simp: swap_script_def new_swap_def)
next
  assume "initiate_loop_out L sid user h a t c = Inr (r, c')"
  then obtain server where "bytes_fromhex (server_pubkey_hex (config c)) = Inr server"
    "c' = c\<lparr>swaps := dict_set sid (new_swap sid LOOP_OUT a h t) (swaps c), swap_scripts := dict_set sid (create_htlc L server user h t) (swap_scripts c)\<rparr>"
    by (auto simp: initiate_loop_out_def rbind_eq_Inr Let_def)
  then show ?thesis
    by (intro exI [of _ LOOP_OUT] exI [of _ "create_htlc L server user h t"]) (auto simp: swap_script_def new_swap_def)
qed

lemma completed:
  assumes "complete_loop_in_with_preimage L sid p c = Inr (t, c')"
  obtains s where "dict_get (swaps c) sid = Some s" "swap_kind s = LOOP_IN" "payment_hash_hex s = hexlify (sha256 p)"
    "c' = c\<lparr>swaps := dict_set sid (s\<lparr>preimage_hex := Some (hexlify p), swap_status := FULFILLED\<rparr>) (swaps c)\<rparr>"
  using assms
  by (auto simp: complete_loop_in_with_preimage_def rbind_eq_Inr Let_def split: option.splits if_splits)

lemma new_swap_ok: "swap_ok sid (new_swap sid kind a h t)"
  by (simp add: swap_ok_def new_swap_def)

lemma swap_exec_ok:
  assumes "swap_exec L op c = Inr c'" and "coordinator_ok L c"
  shows "coordinator_ok L c'"
proof (cases op)
  case (InitiateIn sid user h a t)
  then obtain r where "initiate_loop_in L sid user h a t c = Inr (r, c')" using assms(1) by (auto simp: rbind_eq_Inr)
  with initiated [of L sid user h a t c r c'] assms(2) new_swap_ok show ?thesis
    by (auto simp: coordinator_ok_def split: if_splits)
next
  case (InitiateOut sid user h a t)
  then obtain r where "initiate_loop_out L sid user h a t c = Inr (r, c')" using assms(1) by (auto simp: rbind_eq_Inr)
  with initiated [of L sid user h a t c r c'] assms(2) new_swap_ok show ?thesis
    by (auto simp: coordinator_ok_def split: if_splits)
next
  case (RegisterFunding sid txid out)
  with assms show ?thesis
    by (auto simp: register_funding_utxo_def coordinator_ok_def split: if_splits)
next
  case (Complete sid p)
  then obtain t where "complete_loop_in_with_preimage L sid p c = Inr (t, c')" using assms(1) by (auto simp: rbind_eq_Inr)
  then obtain s where s: "dict_get (swaps c) sid = Some s" "swap_kind s = LOOP_IN" "payment_hash_hex s = hexlify (sha256 p)"
    "c' = c\<lparr>swaps := dict_set sid (s\<lparr>preimage_hex := Some (hexlify p), swap_status := FULFILLED\<rparr>) (swaps c)\<rparr>"
    by (rule completed)
  then have "swap_ok sid (s\<lparr>preimage_hex := Some (hexlify p), swap_status := FULFILLED\<rparr>)"
    using assms(2) by (auto simp: coordinator_ok_def swap_ok_def)
  moreover have "swap_script L cfg (s\<lparr>preimage_hex := Some (hexlify p), swap_status := FULFILLED\<rparr>) script = swap_script L cfg s script"
    for cfg script by (simp add: swap_script_def)
  ultimately show ?thesis using s assms(2) by (auto simp: coordinator_ok_def)
qed

text \<open>
  Property C31: in every state a coordinator can reach, whatever calls are made and whichever of them raise, each swap is pending
  without a preimage or fulfilled; only loop-in swaps are fulfilled, and only with a preimage of their payment hash, which is kept
  with them.  Every swap has its script, the HTLC over its payment hash and locktime between the user and the server; scripts and funding
  are recorded for known swaps only.
\<close>

theorem coordinator_invariant:
  assumes "SwapCoordinator L cfg random_bytes = Inr c0" and "(swap_step L)\<^sup>*\<^sup>* c0 c"
  shows "coordinator_ok L c"
  using assms(2)
proof (induction rule: rtranclp_induct)
  case base
  from assms(1) show ?case by (auto simp: SwapCoordinator_def rbind_eq_Inr coordinator_ok_def)
next
  case (step c1 c2)
  from step.hyps(2) show ?case
    by (rule swap_stepE) (auto intro: swap_exec_ok step.IH)
qed

section \<open>Completing a loop-in\<close>

fun op_swap :: "swap_op \<Rightarrow> string" where
  "op_swap (InitiateIn sid user h a t) = sid"
| "op_swap (InitiateOut sid user h a t) = sid"
| "op_swap (RegisterFunding sid txid out) = sid"
| "op_swap (Complete sid p) = sid"

definition view :: "string \<Rightarrow> swap_coordinator \<Rightarrow> submarine_swap option \<times> bytes option \<times> (string \<times> int) option \<times> swap_server_config" where
  "view sid c = (dict_get (swaps c) sid, dict_get (swap_scripts c) sid, dict_get (onchain_funding c) sid, config c)"

lemma swap_exec_other:
  assumes "swap_exec L op c = Inr c'" and "op_swap op \<noteq> sid"
  shows "view sid c' = view sid c"
  using assms
  by (cases op)
    (auto simp: view_def rbind_eq_Inr initiate_loop_in_def initiate_loop_out_def register_funding_utxo_def Let_def
      split: if_splits elim!: completed)

lemma swap_run_other:
  assumes "fold_res (swap_exec L) ops c = Inr c'" and "\<forall>op \<in> set ops. op_swap op \<noteq> sid"
  shows "view sid c' = view sid c"
  using assms
proof (induction ops arbitrary: c)
  case (Cons op ops)
  then obtain c1 where "swap_exec L op c = Inr c1" "fold_res (swap_exec L) ops c1 = Inr c'"
    by (auto simp: rbind_eq_Inr)
  with Cons swap_exec_other [of L op c c1 sid] show ?case by simp
qed simp

text \<open>
  Property C30: a loop-in swap that was initiated and funded is completed by the preimage of its payment hash, whatever the
  coordinator does for other swaps in between: the call returns a transaction that spends the funding output of the swap's script,
  pays the amount less the fee of 500 to the server, and the swap is fulfilled with the preimage.
\<close>

theorem loop_in_completes:
  assumes "wallet_lib L" and "lib_wif L (server_wif_key (config c)) = Inr key"
    and "server_pubkey_hex (config c) = hexlify (lib_pub L key)"
    and "length user < 65536" "length (lib_pub L key) < 65536" "0 \<le> locktime" "locktime < 2 ^ 32"
    and "initiate_loop_in L sid user (sha256 p) amount locktime c = Inr ((swap, script), c1)"
    and "register_funding_utxo sid txid out c1 = Inr c2" and "lib_outpoint L txid out = Inr op"
    and "fold_res (swap_exec L) ops c2 = Inr c3" and "\<forall>op \<in> set ops. op_swap op \<noteq> sid"
  shows "\<exists>t. complete_loop_in_with_preimage L sid p c3 = Inr (t, c3\<lparr>swaps :=
      dict_set sid (swap\<lparr>preimage_hex := Some (hexlify p), swap_status := FULFILLED\<rparr>) (swaps c3)\<rparr>) \<and>
    verify_transaction_witness L E t 0 (p2wsh_address_spk L script) amount = Inr True \<and>
    vin t = [\<lparr>prevout = op, nSequence = 0xFFFFFFFF\<rparr>] \<and>
    vout t = [\<lparr>nValue = max 0 (amount - 500), scriptPubKey = create_p2wpkh L (lib_pub L key)\<rparr>]"
proof -
  have c1: "swap = new_swap sid LOOP_IN amount (sha256 p) locktime" "script = create_htlc L user (lib_pub L key) (sha256 p) locktime"
      "c1 = c\<lparr>swaps := dict_set sid swap (swaps c), swap_scripts := dict_set sid script (swap_scripts c)\<rparr>"
    using assms(3,8) by (auto simp: initiate_loop_in_def rbind_eq_Inr Let_def)
  have "view sid c3 = view sid c2" by (rule swap_run_other [OF assms(11,12)])
  then have c3: "dict_get (swaps c3) sid = Some swap" "dict_get (swap_scripts c3) sid = Some script"
      "dict_get (onchain_funding c3) sid = Some (txid, out)" "config c3 = config c"
    using assms(9) c1(3) by (auto simp: view_def register_funding_utxo_def split: if_splits)
  let ?b = "\<lparr>b_inputs = [\<lparr>prevout = op, nSequence = 0xFFFFFFFF\<rparr>],
    b_outputs = [\<lparr>nValue = max 0 (amount - 500), scriptPubKey = create_p2wpkh L (lib_pub L key)\<rparr>], b_witnesses = [], b_locktime = 0\<rparr>"
  have claim: "create_submarine_swap_claim_tx L txid out (lib_pub L key) amount p script sig =
      Inr (if sig \<noteq> [] then build (add_witness_stack [sig, p, [1], script] ?b) else build ?b)" for sig
    by (simp add: create_submarine_swap_claim_tx_def add_input_def assms(10) TransactionBuilder_def add_output_def Let_def)
  define sig where "sig = lib_sign L key (lib_sighash L script (build ?b) 0 SIGHASH_ALL amount) @ [1]"
  have sign: "sign_sighash L key (lib_sighash L script (build ?b) 0 SIGHASH_ALL amount) 1 = Inr sig"
    by (simp add: sign_sighash_def sig_def)
  have sig: "sig \<noteq> []" by (simp add: sig_def)
  let ?t = "build (add_witness_stack [sig, p, [1], script] ?b)"
  have "complete_loop_in_with_preimage L sid p c3 = Inr (?t, c3\<lparr>swaps :=
      dict_set sid (swap\<lparr>preimage_hex := Some (hexlify p), swap_status := FULFILLED\<rparr>) (swaps c3)\<rparr>)"
    using sign sig
    by (simp add: complete_loop_in_with_preimage_def c3 assms(2,3) claim sign_p2wsh_input_def Let_def c1(1) new_swap_def)
  moreover have "verify_transaction_witness L E ?t 0 (p2wsh_address_spk L script) amount = Inr True"
    by (rule wallet_lib.preimage_path_verifies [OF assms(1) c1(2) assms(4-7) sign]) simp_all
  ultimately show ?thesis by simp
qed

text \<open>The refund path: from the locktime on, the sender of the swap takes the funding back.\<close>

lemma swap_refund_verifies:
  assumes "wallet_lib L" and "script = create_htlc L (lib_pub L key) receiver h locktime"
    and "length (lib_pub L key) < 65536" "length receiver < 65536" "length h < 65536" "0 \<le> locktime" "locktime < 2 ^ 32"
    and "create_submarine_swap_refund_tx L txid out refunder amount locktime script [] = Inr t0"
    and "sign_sighash L key (lib_sighash L script t0 0 SIGHASH_ALL amount) 1 = Inr sig"
    and "create_submarine_swap_refund_tx L txid out refunder amount locktime script sig = Inr t"
  shows "nLockTime t = locktime \<and> verify_transaction_witness L E t 0 (p2wsh_address_spk L script) amount = Inr True"
proof -
  have "sig \<noteq> []" using assms(9) by (auto simp: sign_sighash_def)
  obtain b where b: "add_input L txid out 0 (TransactionBuilder 0) = Inr b"
    using assms(8) by (auto simp: create_submarine_swap_refund_tx_def rbind_eq_Inr Let_def)
  from add_input_InrD [OF b]
  have t: "vin t = vin t0" "vout t = vout t0" "nLockTime t = nLockTime t0" "vin t \<noteq> []" "wit t = [[sig, [], script]]"
      "nSequence (vin t ! 0) = 0" "nLockTime t = locktime"
    using assms(8,10) \<open>sig \<noteq> []\<close>
    by (auto simp: create_submarine_swap_refund_tx_def b Let_def add_output_def set_locktime_def)
  then have "nSequence (vin t ! 0) \<noteq> 0xFFFFFFFF" "locktime \<le> nLockTime t" by simp_all
  from wallet_lib.timeout_path_verifies [OF assms(1-7,9) t(1-5) this] t(7) show ?thesis by simp
qed

text \<open>Completing a swap before its funding is registered is a KeyError, which is not one of the package's errors.\<close>

lemma complete_unfunded_raises:
  assumes "dict_get (swaps c) sid = Some s" "swap_kind s = LOOP_IN" "payment_hash_hex s = hexlify (sha256 p)"
    "dict_get (onchain_funding c) sid = None"
  shows "complete_loop_in_with_preimage L sid p c = Inl KeyError"
  using assms by (simp add: complete_loop_in_with_preimage_def)

section \<open>A swap\<close>

definition sample_coordinator :: swap_coordinator where
  "sample_coordinator =
     \<lparr>config = SwapServerConfig (hexlify [3]) (hexlify [3]), swaps = [], swap_scripts = [], onchain_funding = []\<rparr>"

lemma sample_keys:
  "config sample_coordinator = SwapServerConfig (hexlify [3]) (hexlify [3])"
  "lib_wif wire_lib (hexlify [3]) = Inr [3]" "lib_pub wire_lib [3] = [3]"
  by (simp_all add: sample_coordinator_def wire_lib_def unhexlify_hexlify)

theorem loop_in_completes_witness:
  "\<exists>c1 c2 c3 t. swap_exec wire_lib (InitiateIn ''s1'' [2] (sha256 [9]) 5000 288) sample_coordinator = Inr c1 \<and>
    register_funding_utxo ''s1'' sample_txid 0 c1 = Inr c2 \<and>
    complete_loop_in_with_preimage wire_lib ''s1'' [9] c2 = Inr (t, c3) \<and>
    verify_transaction_witness wire_lib line_curve t 0
      (p2wsh_address_spk wire_lib (create_htlc wire_lib [2] [3] (sha256 [9]) 288)) 5000 = Inr True \<and>
    nValue (vout t ! 0) = 4500"
proof -
  let ?script = "create_htlc wire_lib [2] [3] (sha256 [9]) 288"
  let ?swap = "new_swap ''s1'' LOOP_IN 5000 (sha256 [9]) 288"
  let ?c1 = "sample_coordinator\<lparr>swaps := [(''s1'', ?swap)], swap_scripts := [(''s1'', ?script)]\<rparr>"
  let ?c2 = "?c1\<lparr>onchain_funding := [(''s1'', (sample_txid, 0))]\<rparr>"
  have init: "initiate_loop_in wire_lib ''s1'' [2] (sha256 [9]) 5000 288 sample_coordinator = Inr ((?swap, ?script), ?c1)"
    by (simp add: initiate_loop_in_def sample_coordinator_def SwapServerConfig_def Let_def)
  have fund: "register_funding_utxo ''s1'' sample_txid 0 ?c1 = Inr ?c2"
    by (simp add: register_funding_utxo_def sample_coordinator_def)
  have outpoint: "lib_outpoint wire_lib sample_txid 0 = Inr \<lparr>out_hash = [3, 2, 1], out_n = 0\<rparr>"
    by (rule sample_outpoint)
  have wif: "lib_wif wire_lib (server_wif_key (config sample_coordinator)) = Inr [3]"
    "server_pubkey_hex (config sample_coordinator) = hexlify (lib_pub wire_lib [3])"
    using sample_keys by (simp_all add: SwapServerConfig_def)
  from loop_in_completes [OF wire_wallet_lib wif _ _ _ _ init fund outpoint, of "[]" ?c2 line_curve]
  obtain t c3 where "complete_loop_in_with_preimage wire_lib ''s1'' [9] ?c2 = Inr (t, c3)"
    "verify_transaction_witness wire_lib line_curve t 0 (p2wsh_address_spk wire_lib ?script) 5000 = Inr True"
    "nValue (vout t ! 0) = 4500"
    by (auto simp: sample_keys)
  then show ?thesis using init fund by (intro exI [of _ ?c1] exI [of _ ?c2] exI [of _ c3] exI [of _ t]) simp
qed

lemma swap_run_steps: "fold_res (swap_exec L) ops c = Inr c' \<Longrightarrow> (swap_step L)\<^sup>*\<^sup>* c c'"
proof (induction ops arbitrary: c)
  case (Cons op ops)
  then obtain c1 where "swap_exec L op c = Inr c1" "fold_res (swap_exec L) ops c1 = Inr c'" by (auto simp: rbind_eq_Inr)
  with Cons.IH show ?case by (blast intro: converse_rtranclp_into_rtranclp swap_step.ok)
qed simp

theorem coordinator_invariant_witness:
  "\<exists>c. fold_res (swap_exec wire_lib) [InitiateIn ''s1'' [2] (sha256 [9]) 5000 288, RegisterFunding ''s1'' sample_txid 0]
      sample_coordinator = Inr c \<and> coordinator_ok wire_lib c"
proof -
  have "SwapCoordinator wire_lib (Some (SwapServerConfig (hexlify [3]) (hexlify [3]))) [] = Inr sample_coordinator"
    by (simp add: SwapCoordinator_def sample_coordinator_def)
  note inv = coordinator_invariant [OF this]
  obtain c where "fold_res (swap_exec wire_lib) [InitiateIn ''s1'' [2] (sha256 [9]) 5000 288, RegisterFunding ''s1'' sample_txid 0]
      sample_coordinator = Inr c"
    by (simp add: initiate_loop_in_def sample_coordinator_def SwapServerConfig_def register_funding_utxo_def Let_def)
  with inv swap_run_steps show ?thesis by blast
qed

end
