(* ===== verification/Model_Json.thy ===== *)
theory Model_Json
  imports Json Channel Shachain
begin

text \<open>
  The models the package persists, as JSON values: what pydantic's \<open>model_dump_json\<close> writes for a \<open>Channel\<close> with its HTLCs and
  revocation store and for a \<open>ShachainReceiver\<close>, and what \<open>model_validate\<close> reads back, with the defaults of missing fields.
  \<open>None\<close> is a ValidationError, which is a ValueError.  Values are accepted in the types written only; pydantic's coercions of
  other ones (numbers given as text, and the like) are not modelled.
\<close>

section \<open>Readers\<close>

definition required :: "(json \<Rightarrow> 'a option) \<Rightarrow> string \<Rightarrow> (string, json) pydict \<Rightarrow> 'a option" where
  "required f k ps = (case dict_get ps k of None \<Rightarrow> None | Some v \<Rightarrow> f v)"

definition optional :: "'a \<Rightarrow> (json \<Rightarrow> 'a option) \<Rightarrow> string \<Rightarrow> (string, json) pydict \<Rightarrow> 'a option" where
  "optional x f k ps = (case dict_get ps k of None \<Rightarrow> Some x | Some v \<Rightarrow> f v)"

fun text_of :: "json \<Rightarrow> string option" where
  "text_of (JStr s) = Some s"
| "text_of v = None"

fun int_of :: "json \<Rightarrow> int option" where
  "int_of (JInt i) = Some i"
| "int_of v = None"

fun bool_of :: "json \<Rightarrow> bool option" where
  "bool_of (JBool b) = Some b"
| "bool_of v = None"

fun nullable :: "(json \<Rightarrow> 'a option) \<Rightarrow> json \<Rightarrow> 'a option option" where
  "nullable f JNull = Some None"
| "nullable f v = map_option Some (f v)"

fun object_of :: "((string, json) pydict \<Rightarrow> 'a option) \<Rightarrow> json \<Rightarrow> 'a option" where
  "object_of f (JObj ps) = f ps"
| "object_of f v = None"

text \<open>A dictionary whose keys and values are read one by one; a key of integers is the integer's text.\<close>

fun pairs_of :: "(string \<Rightarrow> 'k option) \<Rightarrow> (json \<Rightarrow> 'v option) \<Rightarrow> (string \<times> json) list \<Rightarrow> ('k \<times> 'v) list option" where
  "pairs_of fk fv [] = Some []"
| "pairs_of fk fv ((k, v) # ps) =
     Option.bind (fk k) (\<lambda>k'. Option.bind (fv v) (\<lambda>v'. map_option (Cons (k', v')) (pairs_of fk fv ps)))"

definition int_key :: "string \<Rightarrow> int option" where
  "int_key s = (case parse_number s of Some (JInt i, []) \<Rightarrow> Some i | _ \<Rightarrow> None)"

fun nullable_text :: "string option \<Rightarrow> json" where
  "nullable_text None = JNull"
| "nullable_text (Some s) = JStr s"

fun nullable_int :: "int option \<Rightarrow> json" where
  "nullable_int None = JNull"
| "nullable_int (Some i) = JInt i"

lemma reader_simps [simp]:
  "required f k ((k, v) # ps) = f v"
  "k \<noteq> l \<Longrightarrow> required f k ((l, v) # ps) = required f k ps"
  "optional x f k ((k, v) # ps) = f v"
  "k \<noteq> l \<Longrightarrow> optional x f k ((l, v) # ps) = optional x f k ps"
  by (simp_all add: required_def optional_def)

lemma nullable_simps [simp]:
  "nullable text_of (nullable_text t) = Some t"
  "nullable int_of (nullable_int i) = Some i"
  by (cases t; simp)+ (cases i; simp)+

lemma wf_nullable [simp]: "wf_json (nullable_text t)" "wf_json (nullable_int i)"
  by (cases t; simp) (cases i; simp)

lemma int_key_dump [simp]: "int_key (dump_int i) = Some i"
  using parse_number_dump [of "[]" i] by (simp add: int_key_def)

lemma dump_int_inj: "dump_int i = dump_int j \<longleftrightarrow> i = j"
  by (metis int_key_dump option.inject)

lemma pairs_of_map:
  "(\<And>k v. (k, v) \<in> set d \<Longrightarrow> fk (gk k) = Some k) \<Longrightarrow> (\<And>k v. (k, v) \<in> set d \<Longrightarrow> fv (gv v) = Some v) \<Longrightarrow>
    pairs_of fk fv (map (\<lambda>(k, v). (gk k, gv v)) d) = Some d"
proof (induction d)
  case (Cons kv d)
  obtain k v where kv: "kv = (k, v)" by (cases kv)
  have "fk (gk k) = Some k" "fv (gv v) = Some v" using Cons.prems [of k v] by (simp_all add: kv)
  moreover have "pairs_of fk fv (map (\<lambda>(k, v). (gk k, gv v)) d) = Some d"
    by (rule Cons.IH) (use Cons.prems in auto)
  ultimately show ?case by (simp add: kv)
qed simp

definition dict_of_json :: "(string \<Rightarrow> 'k option) \<Rightarrow> (json \<Rightarrow> 'v option) \<Rightarrow> json \<Rightarrow> ('k, 'v) pydict option" where
  "dict_of_json fk fv = object_of (\<lambda>ps. map_option dict_of_pairs (pairs_of fk fv ps))"

lemma dict_of_json_wf: "dict_of_json fk fv v = Some d \<Longrightarrow> wf_dict d"
  by (cases v) (auto simp: dict_of_json_def)

lemma dict_of_json_map:
  assumes "\<And>k v. (k, v) \<in> set d \<Longrightarrow> fk (gk k) = Some k" and "\<And>k v. (k, v) \<in> set d \<Longrightarrow> fv (gv v) = Some v" and "wf_dict d"
  shows "dict_of_json fk fv (JObj (map (\<lambda>(k, v). (gk k, gv v)) d)) = Some d"
  using assms pairs_of_map [of d fk gk fv gv] by (simp add: dict_of_json_def dict_of_pairs_id wf_dict_def)

lemma wf_json_dict:
  assumes "wf_dict d" and "inj gk" and "\<And>k v. (k, v) \<in> set d \<Longrightarrow> wf_json (gv v)"
  shows "wf_json (JObj (map (\<lambda>(k, v). (gk k, gv v)) d))"
proof -
  have keys: "map fst (map (\<lambda>(k, v). (gk k, gv v)) d) = map gk (map fst d)" by auto
  have "distinct (map fst (map (\<lambda>(k, v). (gk k, gv v)) d))"
    unfolding keys using assms(1,2) by (simp only: distinct_map wf_dict_def) (auto intro: inj_on_subset)
  moreover have "list_all (\<lambda>(k, v). wf_json v) (map (\<lambda>(k, v). (gk k, gv v)) d)"
    using assms(3) by (auto simp: list_all_iff)
  ultimately show ?thesis by simp
qed

section \<open>HTLCs and channels\<close>

fun channel_state_name :: "channel_state \<Rightarrow> string" where
  "channel_state_name CH_CLOSED = ''CLOSED''"
| "channel_state_name CH_FUNDING = ''FUNDING''"
| "channel_state_name CH_OPEN = ''OPEN''"
| "channel_state_name CH_DISPUTE = ''DISPUTE''"
| "channel_state_name CH_SETTLED = ''SETTLED''"

fun htlc_state_name :: "htlc_state \<Rightarrow> string" where
  "htlc_state_name HTLC_OFFERED = ''OFFERED''"
| "htlc_state_name HTLC_ACCEPTED = ''ACCEPTED''"
| "htlc_state_name HTLC_SETTLED = ''SETTLED''"
| "htlc_state_name HTLC_REFUNDED = ''REFUNDED''"
| "htlc_state_name HTLC_EXPIRED = ''EXPIRED''"

text \<open>The member of an enumeration with a name.\<close>

definition named :: "('a \<Rightarrow> string) \<Rightarrow> 'a list \<Rightarrow> json \<Rightarrow> 'a option" where
  "named name members v = Option.bind (text_of v) (\<lambda>s. find (\<lambda>m. name m = s) members)"

definition channel_state_of :: "json \<Rightarrow> channel_state option" where
  "channel_state_of = named channel_state_name [CH_CLOSED, CH_FUNDING, CH_OPEN, CH_DISPUTE, CH_SETTLED]"

definition htlc_state_of :: "json \<Rightarrow> htlc_state option" where
  "htlc_state_of = named htlc_state_name [HTLC_OFFERED, HTLC_ACCEPTED, HTLC_SETTLED, HTLC_REFUNDED, HTLC_EXPIRED]"

lemma state_of_name [simp]:
  "channel_state_of (JStr (channel_state_name s)) = Some s"
  "htlc_state_of (JStr (htlc_state_name h)) = Some h"
  by (cases s; simp add: channel_state_of_def named_def) (cases h; simp add: htlc_state_of_def named_def)

definition htlc_json :: "htlc_contract \<Rightarrow> json" where
  "htlc_json h = JObj
     [(''htlc_id'', JStr (htlc_id h)),
      (''payment_hash'', JStr (payment_hash h)),
      (''amount_sat'', JInt (htlc_amount_sat h)),
      (''locktime'', JInt (htlc_locktime h)),
      (''offerer_alias'', nullable_text (offerer_alias h)),
      (''preimage'', nullable_text (preimage h)),
      (''settled'', JBool (settled h)),
      (''refunded'', JBool (refunded h)),
      (''state'', JStr (htlc_state_name (htlc_status h)))]"

definition htlc_of_json :: "json \<Rightarrow> htlc_contract option" where
  "htlc_of_json = object_of (\<lambda>ps.
     Option.bind (required text_of ''htlc_id'' ps) (\<lambda>hid.
     Option.bind (required text_of ''payment_hash'' ps) (\<lambda>hash.
     Option.bind (required int_of ''amount_sat'' ps) (\<lambda>amount.
     Option.bind (required int_of ''locktime'' ps) (\<lambda>locktime.
     Option.bind (optional None (nullable text_of) ''offerer_alias'' ps) (\<lambda>offerer.
     Option.bind (optional None (nullable text_of) ''preimage'' ps) (\<lambda>pre.
     Option.bind (optional False bool_of ''settled'' ps) (\<lambda>s.
     Option.bind (optional False bool_of ''refunded'' ps) (\<lambda>r.
     Option.bind (optional HTLC_OFFERED htlc_state_of ''state'' ps) (\<lambda>st.
     Some \<lparr>htlc_id = hid, payment_hash = hash, htlc_amount_sat = amount, htlc_locktime = locktime, offerer_alias = offerer,
           preimage = pre, settled = s, refunded = r, htlc_status = st\<rparr>))))))))))"

lemma htlc_of_htlc_json [simp]: "htlc_of_json (htlc_json h) = Some h"
  by (simp add: htlc_of_json_def htlc_json_def)

lemma wf_htlc_json [simp]: "wf_json (htlc_json h)"
  by (simp add: htlc_json_def)

definition secrets_json :: "(int, string) pydict \<Rightarrow> json" where
  "secrets_json d = JObj (map (\<lambda>(k, v). (dump_int k, JStr v)) d)"

definition secrets_of_json :: "json \<Rightarrow> (int, string) pydict option" where
  "secrets_of_json = dict_of_json int_key text_of"

lemma secrets_of_secrets_json [simp]: "wf_dict d \<Longrightarrow> secrets_of_json (secrets_json d) = Some d"
  by (simp add: secrets_of_json_def secrets_json_def dict_of_json_map)

lemma wf_secrets_json: "wf_dict d \<Longrightarrow> wf_json (secrets_json d)"
  unfolding secrets_json_def by (rule wf_json_dict) (auto intro: injI simp: dump_int_inj)

definition store_json :: "revocation_store \<Rightarrow> json" where
  "store_json s = JObj [(''local_secrets'', secrets_json (local_secrets s)),
     (''remote_revealed_secrets'', secrets_json (remote_revealed_secrets s))]"

definition store_of_json :: "json \<Rightarrow> revocation_store option" where
  "store_of_json = object_of (\<lambda>ps.
     Option.bind (optional [] secrets_of_json ''local_secrets'' ps) (\<lambda>l.
     Option.bind (optional [] secrets_of_json ''remote_revealed_secrets'' ps) (\<lambda>r.
     Some \<lparr>local_secrets = l, remote_revealed_secrets = r\<rparr>)))"

lemma store_of_store_json [simp]:
  "wf_dict (local_secrets s) \<Longrightarrow> wf_dict (remote_revealed_secrets s) \<Longrightarrow> store_of_json (store_json s) = Some s"
  by (simp add: store_of_json_def store_json_def)

definition channel_json :: "channel \<Rightarrow> json" where
  "channel_json c = JObj
     [(''channel_id'', JStr (channel_id c)),
      (''sender_alias'', JStr (sender_alias c)),
      (''receiver_alias'', JStr (receiver_alias c)),
      (''sender_pubkey_hex'', JStr (sender_pubkey_hex c)),
      (''receiver_pubkey_hex'', JStr (receiver_pubkey_hex c)),
      (''capacity_sat'', JInt (capacity_sat c)),
      (''balance_sender_sat'', JInt (balance_sender_sat c)),
      (''balance_receiver_sat'', JInt (balance_receiver_sat c)),
      (''state'', JStr (channel_state_name (channel_status c))),
      (''funding_txid'', nullable_text (funding_txid c)),
      (''funding_vout'', nullable_int (funding_vout c)),
      (''active_htlcs'', JObj (map (\<lambda>(k, h). (id k, htlc_json h)) (active_htlcs c))),
      (''sequence_number'', JInt (sequence_number c)),
      (''revocation_store'', store_json (store c))]"

definition channel_of_json :: "json \<Rightarrow> channel option" where
  "channel_of_json = object_of (\<lambda>ps.
     Option.bind (required text_of ''channel_id'' ps) (\<lambda>cid.
     Option.bind (required text_of ''sender_alias'' ps) (\<lambda>sender.
     Option.bind (required text_of ''receiver_alias'' ps) (\<lambda>receiver.
     Option.bind (required text_of ''sender_pubkey_hex'' ps) (\<lambda>pk1.
     Option.bind (required text_of ''receiver_pubkey_hex'' ps) (\<lambda>pk2.
     Option.bind (required int_of ''capacity_sat'' ps) (\<lambda>capacity.
     Option.bind (required int_of ''balance_sender_sat'' ps) (\<lambda>bs.
     Option.bind (required int_of ''balance_receiver_sat'' ps) (\<lambda>br.
     Option.bind (optional CH_CLOSED channel_state_of ''state'' ps) (\<lambda>st.
     Option.bind (optional None (nullable text_of) ''funding_txid'' ps) (\<lambda>txid.
     Option.bind (optional None (nullable int_of) ''funding_vout'' ps) (\<lambda>out.
     Option.bind (optional [] (dict_of_json Some htlc_of_json) ''active_htlcs'' ps) (\<lambda>htlcs.
     Option.bind (optional 0 int_of ''sequence_number'' ps) (\<lambda>sq.
     Option.bind (optional empty_store store_of_json ''revocation_store'' ps) (\<lambda>rs.
     Some \<lparr>channel_id = cid, sender_alias = sender, receiver_alias = receiver, sender_pubkey_hex = pk1,
           receiver_pubkey_hex = pk2, capacity_sat = capacity, balance_sender_sat = bs, balance_receiver_sat = br,
           channel_status = st, funding_txid = txid, funding_vout = out, active_htlcs = htlcs, sequence_number = sq,
           store = rs\<rparr>)))))))))))))))"

definition wf_channel :: "channel \<Rightarrow> bool" where
  "wf_channel c \<longleftrightarrow> wf_dict (active_htlcs c) \<and> wf_dict (local_secrets (store c)) \<and>
     wf_dict (remote_revealed_secrets (store c))"

lemma channel_of_channel_json [simp]:
  assumes "wf_channel c"
  shows "channel_of_json (channel_json c) = Some c"
proof -
  have "dict_of_json Some htlc_of_json (JObj (map (\<lambda>(k, h). (id k, htlc_json h)) (active_htlcs c))) = Some (active_htlcs c)"
    using assms by (intro dict_of_json_map) (simp_all add: wf_channel_def)
  then show ?thesis
    using assms by (simp add: channel_of_json_def channel_json_def wf_channel_def del: map_map id_apply)
qed

lemma secrets_of_json_wf: "secrets_of_json v = Some d \<Longrightarrow> wf_dict d"
  unfolding secrets_of_json_def by (rule dict_of_json_wf)

lemma optional_wf:
  "optional [] f k ps = Some d \<Longrightarrow> (\<And>v. f v = Some d \<Longrightarrow> wf_dict d) \<Longrightarrow> wf_dict d"
  by (auto simp: optional_def split: option.splits)

lemma store_of_json_wf:
  assumes "store_of_json v = Some s"
  shows "wf_dict (local_secrets s) \<and> wf_dict (remote_revealed_secrets s)"
  using assms by (cases v)
    (auto simp: store_of_json_def bind_eq_Some_conv elim!: optional_wf intro: secrets_of_json_wf)

text \<open>Whatever is read, the dictionaries of a channel have distinct keys.\<close>

lemma channel_of_json_wf:
  assumes "channel_of_json v = Some c"
  shows "wf_channel c"
proof -
  obtain ps where v: "v = JObj ps" using assms by (cases v) (simp_all add: channel_of_json_def)
  have rs: "optional empty_store store_of_json ''revocation_store'' ps = Some (store c)"
    and htlcs: "optional [] (dict_of_json Some htlc_of_json) ''active_htlcs'' ps = Some (active_htlcs c)"
    using assms unfolding v channel_of_json_def by (auto simp: bind_eq_Some_conv)
  have "wf_dict (local_secrets (store c)) \<and> wf_dict (remote_revealed_secrets (store c))"
  proof (cases "dict_get ps ''revocation_store''")
    case None
    with rs have "store c = empty_store" by (simp add: optional_def)
    then show ?thesis by (simp add: empty_store_def)
  next
    case (Some v)
    with rs show ?thesis by (intro store_of_json_wf) (simp add: optional_def)
  qed
  moreover have "wf_dict (active_htlcs c)"
    using htlcs by (rule optional_wf) (rule dict_of_json_wf)
  ultimately show ?thesis by (simp add: wf_channel_def)
qed

lemma wf_channel_json: "wf_channel c \<Longrightarrow> wf_json (channel_json c)"
proof -
  assume c: "wf_channel c"
  then have "wf_json (JObj (map (\<lambda>(k, h). (id k, htlc_json h)) (active_htlcs c)))"
    by (intro wf_json_dict) (simp_all add: wf_channel_def)
  moreover have "wf_json (store_json (store c))"
    using c by (simp add: store_json_def wf_channel_def wf_secrets_json)
  ultimately show ?thesis by (simp add: channel_json_def del: map_map id_apply)
qed

section \<open>Shachain receivers\<close>

definition receiver_json :: "receiver \<Rightarrow> json" where
  "receiver_json r = JObj [(''elements'', secrets_json (elements r)), (''last_index'', JInt (last_index r))]"

definition receiver_of_json :: "json \<Rightarrow> receiver option" where
  "receiver_of_json = object_of (\<lambda>ps.
     Option.bind (optional [] secrets_of_json ''elements'' ps) (\<lambda>e.
     Option.bind (optional (- 1) int_of ''last_index'' ps) (\<lambda>l.
     Some \<lparr>elements = e, last_index = l\<rparr>)))"

lemma receiver_of_receiver_json [simp]: "wf_dict (elements r) \<Longrightarrow> receiver_of_json (receiver_json r) = Some r"
  by (simp add: receiver_of_json_def receiver_json_def)

lemma wf_receiver_json: "wf_dict (elements r) \<Longrightarrow> wf_json (receiver_json r)"
  by (simp add: receiver_json_def wf_secrets_json)

section \<open>The state of the network\<close>

text \<open>\<open>NetworkState\<close>: the channels by their identifiers and the known preimages by their hashes.\<close>

record network_state =
  channels_of :: "(string, channel) pydict"
  preimages_of :: "(string, string) pydict"

definition empty_network :: network_state where
  "empty_network = \<lparr>channels_of = [], preimages_of = []\<rparr>"

definition network_json :: "network_state \<Rightarrow> json" where
  "network_json n = JObj
     [(''channels'', JObj (map (\<lambda>(k, c). (id k, channel_json c)) (channels_of n))),
      (''known_preimages'', JObj (map (\<lambda>(k, p). (id k, JStr p)) (preimages_of n)))]"

definition network_of_json :: "json \<Rightarrow> network_state option" where
  "network_of_json = object_of (\<lambda>ps.
     Option.bind (optional [] (dict_of_json Some channel_of_json) ''channels'' ps) (\<lambda>cs.
     Option.bind (optional [] (dict_of_json Some text_of) ''known_preimages'' ps) (\<lambda>ks.
     Some \<lparr>channels_of = cs, preimages_of = ks\<rparr>)))"

definition wf_network :: "network_state \<Rightarrow> bool" where
  "wf_network n \<longleftrightarrow> wf_dict (channels_of n) \<and> wf_dict (preimages_of n) \<and> list_all (\<lambda>(k, c). wf_channel c) (channels_of n)"

lemma network_of_network_json [simp]:
  assumes "wf_network n"
  shows "network_of_json (network_json n) = Some n"
proof -
  have "dict_of_json Some channel_of_json (JObj (map (\<lambda>(k, c). (id k, channel_json c)) (channels_of n))) = Some (channels_of n)"
    using assms by (intro dict_of_json_map) (auto simp: wf_network_def list_all_iff)
  moreover have "dict_of_json Some text_of (JObj (map (\<lambda>(k, p). (id k, JStr p)) (preimages_of n))) = Some (preimages_of n)"
    using assms by (intro dict_of_json_map) (simp_all add: wf_network_def)
  ultimately show ?thesis by (simp add: network_of_json_def network_json_def del: map_map id_apply)
qed

lemma wf_network_json:
  assumes "wf_network n"
  shows "wf_json (network_json n)"
proof -
  have "wf_json (JObj (map (\<lambda>(k, c). (id k, channel_json c)) (channels_of n)))"
    using assms by (intro wf_json_dict) (auto simp: wf_network_def list_all_iff wf_channel_json)
  moreover have "wf_json (JObj (map (\<lambda>(k, p). (id k, JStr p)) (preimages_of n)))"
    using assms by (intro wf_json_dict) (simp_all add: wf_network_def)
  ultimately show ?thesis by (simp add: network_json_def del: map_map id_apply)
qed

section \<open>The printer\<close>

text \<open>
  \<open>model_dump_json\<close> prints the value of a model as a text of its own format (pydantic's serialiser).  What the package relies
  on is that \<open>json.loads\<close> reads the value back.
\<close>

locale json_printer =
  fixes prt :: "json \<Rightarrow> string"
  assumes loads_prt: "wf_json v \<Longrightarrow> loads (prt v) = Some v"
begin

lemma read_channel: "wf_channel c \<Longrightarrow> Option.bind (loads (prt (channel_json c))) channel_of_json = Some c"
  by (simp add: loads_prt wf_channel_json)

lemma read_receiver: "wf_dict (elements r) \<Longrightarrow> Option.bind (loads (prt (receiver_json r))) receiver_of_json = Some r"
  by (simp add: loads_prt wf_receiver_json)

lemma read_network: "wf_network n \<Longrightarrow> Option.bind (loads (prt (network_json n))) network_of_json = Some n"
  by (simp add: loads_prt wf_network_json)

end

interpretation std: json_printer dumps
  by unfold_locales (rule loads_dumps)

lemmas std_printer = std.json_printer_axioms

end
