(* ===== verification/Database.thy ===== *)
theory Database
  imports Model_Json
begin

text \<open>
  The SQLite persistence engine of \<open>storage/sqlite.py\<close>.  The database is a record of its five tables; timestamps, indexes and
  the generated row numbers of \<open>htlcs\<close> are left out, and rows stand in the order SQLite scans them, that of their insertion.
  A method is one transaction: an exception rolls it back, so that the database is unchanged.  Integers beyond 64 bits are an
  OverflowError when they are bound, a violated UNIQUE or FOREIGN KEY constraint is an IntegrityError.
\<close>

section \<open>Tables\<close>

record channel_row =
  row_state_json :: string
  row_sender_alias :: string
  row_receiver_alias :: string
  row_capacity_sat :: int
  row_state :: string

record htlc_row =
  row_channel_id :: string
  row_htlc_id :: string
  row_amount_sat :: int
  row_hash_lock :: string
  row_cltv_expiry :: int
  row_direction :: string
  row_status :: string

record database =
  channels_table :: "(string, channel_row) pydict"
  htlcs_table :: "htlc_row list"
  shachain_table :: "(string, string \<times> int) pydict"
  preimages_table :: "(string, string) pydict"
  hints_table :: "(string, string) pydict"

definition new_database :: database where
  "new_database = \<lparr>channels_table = [], htlcs_table = [], shachain_table = [], preimages_table = [], hints_table = []\<rparr>"

text \<open>\<open>CREATE TABLE IF NOT EXISTS\<close>: the tables of a new file are empty, those of an existing one stay.\<close>

definition init_db :: "database option \<Rightarrow> database" where
  "init_db file = (case file of None \<Rightarrow> new_database | Some d \<Rightarrow> d)"

definition bind_int :: "int \<Rightarrow> int res" where
  "bind_int i = (if - (2 ^ 63) \<le> i \<and> i < 2 ^ 63 then Inr i else Inl OverflowError)"

section \<open>Channels\<close>

definition insert_htlc :: "string \<Rightarrow> htlc_contract \<Rightarrow> database \<Rightarrow> database res" where
  "insert_htlc cid h d =
     rbind (bind_int (htlc_amount_sat h)) (\<lambda>amount.
     rbind (bind_int (htlc_locktime h)) (\<lambda>expiry.
       if list_ex (\<lambda>r. row_channel_id r = cid \<and> row_htlc_id r = htlc_id h) (htlcs_table d) then Inl IntegrityError
       else Inr (d\<lparr>htlcs_table := htlcs_table d @
         [\<lparr>row_channel_id = cid, row_htlc_id = htlc_id h, row_amount_sat = amount, row_hash_lock = payment_hash h,
           row_cltv_expiry = expiry, row_direction = str_or (offerer_alias h) ''OUTGOING'',
           row_status = htlc_state_name (htlc_status h)\<rparr>]\<rparr>)))"

definition upsert_channel :: "(json \<Rightarrow> string) \<Rightarrow> channel \<Rightarrow> database \<Rightarrow> database res" where
  "upsert_channel prt c d =
     rbind (bind_int (capacity_sat c)) (\<lambda>capacity.
       Inr (d\<lparr>channels_table := dict_set (channel_id c)
         \<lparr>row_state_json = prt (channel_json c), row_sender_alias = sender_alias c, row_receiver_alias = receiver_alias c,
          row_capacity_sat = capacity, row_state = channel_state_name (channel_status c)\<rparr> (channels_table d)\<rparr>))"

definition delete_htlcs :: "string \<Rightarrow> database \<Rightarrow> database" where
  "delete_htlcs cid d = d\<lparr>htlcs_table := filter (\<lambda>r. row_channel_id r \<noteq> cid) (htlcs_table d)\<rparr>"

definition save_channel :: "(json \<Rightarrow> string) \<Rightarrow> channel \<Rightarrow> database \<Rightarrow> database res" where
  "save_channel prt c d =
     rbind (upsert_channel prt c d) (\<lambda>d1.
       fold_res (insert_htlc (channel_id c)) (map snd (active_htlcs c)) (delete_htlcs (channel_id c) d1))"

definition read_model :: "(json \<Rightarrow> 'a option) \<Rightarrow> string \<Rightarrow> 'a res" where
  "read_model f s = (case Option.bind (loads s) f of None \<Rightarrow> Inl ValueError | Some x \<Rightarrow> Inr x)"

definition load_channel :: "string \<Rightarrow> database \<Rightarrow> channel option res" where
  "load_channel cid d =
     (case dict_get (channels_table d) cid of None \<Rightarrow> Inr None
      | Some row \<Rightarrow> rbind (read_model channel_of_json (row_state_json row)) (\<lambda>c. Inr (Some c)))"

text \<open>Rows whose text is no channel are skipped.\<close>

definition load_all_channels :: "database \<Rightarrow> (string, channel) pydict" where
  "load_all_channels d =
     dict_of_pairs (concat (map (\<lambda>(cid, row). case read_model channel_of_json (row_state_json row) of
       Inl e \<Rightarrow> [] | Inr c \<Rightarrow> [(cid, c)]) (channels_table d)))"

text \<open>The foreign keys of \<open>htlcs\<close> and \<open>shachain\<close> cascade.\<close>

definition delete_channel :: "string \<Rightarrow> database \<Rightarrow> database" where
  "delete_channel cid d = (delete_htlcs cid d)\<lparr>channels_table := dict_del cid (channels_table d),
     shachain_table := dict_del cid (shachain_table d)\<rparr>"

section \<open>Shachain receivers, preimages and hints\<close>

definition save_shachain :: "(json \<Rightarrow> string) \<Rightarrow> string \<Rightarrow> receiver \<Rightarrow> database \<Rightarrow> database res" where
  "save_shachain prt cid r d =
     rbind (bind_int (last_index r)) (\<lambda>last.
       if dict_get (channels_table d) cid = None then Inl IntegrityError
       else Inr (d\<lparr>shachain_table := dict_set cid (prt (receiver_json r), last) (shachain_table d)\<rparr>))"

definition load_shachain :: "string \<Rightarrow> database \<Rightarrow> receiver option res" where
  "load_shachain cid d =
     (case dict_get (shachain_table d) cid of None \<Rightarrow> Inr None
      | Some row \<Rightarrow> rbind (read_model receiver_of_json (fst row)) (\<lambda>r. Inr (Some r)))"

definition save_preimage :: "string \<Rightarrow> string \<Rightarrow> database \<Rightarrow> database" where
  "save_preimage h p d = d\<lparr>preimages_table := dict_set h p (preimages_table d)\<rparr>"

definition load_preimages :: "database \<Rightarrow> (string, string) pydict" where
  "load_preimages d = dict_of_pairs (preimages_table d)"

definition save_watchtower_hint :: "string \<Rightarrow> string \<Rightarrow> database \<Rightarrow> database" where
  "save_watchtower_hint hint blob d = d\<lparr>hints_table := dict_set hint blob (hints_table d)\<rparr>"

definition lookup_watchtower_hint :: "string \<Rightarrow> database \<Rightarrow> string option" where
  "lookup_watchtower_hint hint d = dict_get (hints_table d) hint"

definition load_all_watchtower_hints :: "database \<Rightarrow> (string, string) pydict" where
  "load_all_watchtower_hints d = dict_of_pairs (hints_table d)"

section \<open>The state of the network\<close>

text \<open>Each channel and each preimage is a transaction of its own; the first that fails ends the saving.\<close>

fun save_channels :: "(json \<Rightarrow> string) \<Rightarrow> channel list \<Rightarrow> database \<Rightarrow> unit res \<times> database" where
  "save_channels prt [] d = (Inr (), d)"
| "save_channels prt (c # cs) d =
     (case save_channel prt c d of Inl e \<Rightarrow> (Inl e, d) | Inr d' \<Rightarrow> save_channels prt cs d')"

definition save_preimages :: "(string, string) pydict \<Rightarrow> database \<Rightarrow> database" where
  "save_preimages ps d = fold (\<lambda>(h, p). save_preimage h p) ps d"

definition save_network_state :: "(json \<Rightarrow> string) \<Rightarrow> network_state \<Rightarrow> database \<Rightarrow> unit res \<times> database" where
  "save_network_state prt n d =
     (case save_channels prt (map snd (channels_of n)) d of
        (Inl e, d') \<Rightarrow> (Inl e, d')
      | (Inr u, d') \<Rightarrow> (Inr u, save_preimages (preimages_of n) d'))"

definition load_network_state :: "database \<Rightarrow> network_state" where
  "load_network_state d = \<lparr>channels_of = load_all_channels d, preimages_of = load_preimages d\<rparr>"

definition clear :: "database \<Rightarrow> database" where
  "clear d = d\<lparr>htlcs_table := [], shachain_table := [], channels_table := [], preimages_table := [], hints_table := []\<rparr>"

section \<open>Which channels can be stored\<close>

definition fits :: "int \<Rightarrow> bool" where
  "fits i \<longleftrightarrow> - (2 ^ 63) \<le> i \<and> i < 2 ^ 63"

lemma bind_int_simps [simp]: "fits i \<Longrightarrow> bind_int i = Inr i" "\<not> fits i \<Longrightarrow> bind_int i = Inl OverflowError"
  by (simp_all add: bind_int_def fits_def)

definition htlc_fits :: "htlc_contract \<Rightarrow> bool" where
  "htlc_fits h \<longleftrightarrow> fits (htlc_amount_sat h) \<and> fits (htlc_locktime h)"

definition storable :: "channel \<Rightarrow> bool" where
  "storable c \<longleftrightarrow> fits (capacity_sat c) \<and> list_all htlc_fits (map snd (active_htlcs c)) \<and>
     distinct (map (htlc_id \<circ> snd) (active_htlcs c))"

definition row_of_htlc :: "string \<Rightarrow> htlc_contract \<Rightarrow> htlc_row" where
  "row_of_htlc cid h =
     \<lparr>row_channel_id = cid, row_htlc_id = htlc_id h, row_amount_sat = htlc_amount_sat h, row_hash_lock = payment_hash h,
      row_cltv_expiry = htlc_locktime h, row_direction = str_or (offerer_alias h) ''OUTGOING'',
      row_status = htlc_state_name (htlc_status h)\<rparr>"

lemma row_of_htlc_simps [simp]: "row_channel_id (row_of_htlc cid h) = cid" "row_htlc_id (row_of_htlc cid h) = htlc_id h"
  by (simp_all add: row_of_htlc_def)

definition htlc_rows :: "channel \<Rightarrow> htlc_row list" where
  "htlc_rows c = map (row_of_htlc (channel_id c)) (map snd (active_htlcs c))"

definition row_of_channel :: "(json \<Rightarrow> string) \<Rightarrow> channel \<Rightarrow> channel_row" where
  "row_of_channel prt c =
     \<lparr>row_state_json = prt (channel_json c), row_sender_alias = sender_alias c, row_receiver_alias = receiver_alias c,
      row_capacity_sat = capacity_sat c, row_state = channel_state_name (channel_status c)\<rparr>"

definition taken :: "string \<Rightarrow> database \<Rightarrow> string set" where
  "taken cid d = set (map row_htlc_id (filter (\<lambda>r. row_channel_id r = cid) (htlcs_table d)))"

lemma insert_htlc_cases:
  "insert_htlc cid h d =
     (if \<not> htlc_fits h then Inl OverflowError else if htlc_id h \<in> taken cid d then Inl IntegrityError
      else Inr (d\<lparr>htlcs_table := htlcs_table d @ [row_of_htlc cid h]\<rparr>))"
proof -
  have "list_ex (\<lambda>r. row_channel_id r = cid \<and> row_htlc_id r = htlc_id h) (htlcs_table d) \<longleftrightarrow> htlc_id h \<in> taken cid d"
    by (force simp: list_ex_iff taken_def)
  then show ?thesis
    by (cases "fits (htlc_amount_sat h)"; cases "fits (htlc_locktime h)") (auto simp: insert_htlc_def htlc_fits_def row_of_htlc_def)
qed

lemma taken_append:
  "taken cid (d\<lparr>htlcs_table := htlcs_table d @ [row_of_htlc cid h]\<rparr>) = insert (htlc_id h) (taken cid d)"
  by (simp add: taken_def)

lemma insert_htlcs_ok:
  "list_all htlc_fits hs \<Longrightarrow> distinct (map htlc_id hs) \<Longrightarrow> htlc_id ` set hs \<inter> taken cid d = {} \<Longrightarrow>
    fold_res (insert_htlc cid) hs d = Inr (d\<lparr>htlcs_table := htlcs_table d @ map (row_of_htlc cid) hs\<rparr>)"
  by (induction hs arbitrary: d) (auto simp: insert_htlc_cases taken_append)

lemma insert_htlcs_fail:
  "\<not> (list_all htlc_fits hs \<and> distinct (map htlc_id hs)) \<or> htlc_id ` set hs \<inter> taken cid d \<noteq> {} \<Longrightarrow>
    \<exists>e. fold_res (insert_htlc cid) hs d = Inl e \<and> e \<in> {OverflowError, IntegrityError}"
proof (induction hs arbitrary: d)
  case (Cons h hs)
  show ?case
  proof (cases "htlc_fits h \<and> htlc_id h \<notin> taken cid d")
    case True
    then have "\<exists>e. fold_res (insert_htlc cid) hs (d\<lparr>htlcs_table := htlcs_table d @ [row_of_htlc cid h]\<rparr>) = Inl e \<and>
        e \<in> {OverflowError, IntegrityError}"
      using Cons.prems by (intro Cons.IH) (auto simp: taken_append)
    with True show ?thesis by (simp add: insert_htlc_cases [of cid h d])
  qed (auto simp: insert_htlc_cases [of cid h d])
qed simp

lemma taken_delete [simp]: "taken cid (delete_htlcs cid d) = {}"
  by (simp add: taken_def delete_htlcs_def)

text \<open>Saving a channel succeeds or fails whatever the database holds.\<close>

lemma save_channel_ok:
  assumes "storable c"
  shows "save_channel prt c d =
    Inr (d\<lparr>channels_table := dict_set (channel_id c) (row_of_channel prt c) (channels_table d),
           htlcs_table := filter (\<lambda>r. row_channel_id r \<noteq> channel_id c) (htlcs_table d) @ htlc_rows c\<rparr>)"
  using assms by (simp add: save_channel_def upsert_channel_def storable_def insert_htlcs_ok delete_htlcs_def
    row_of_channel_def htlc_rows_def taken_def)

lemma save_channel_fails:
  assumes "\<not> storable c"
  shows "\<exists>e. save_channel prt c d = Inl e \<and> e \<in> {OverflowError, IntegrityError}"
proof (cases "fits (capacity_sat c)")
  case True
  with assms have "\<not> (list_all htlc_fits (map snd (active_htlcs c)) \<and> distinct (map htlc_id (map snd (active_htlcs c))))"
    by (simp add: storable_def)
  from insert_htlcs_fail [OF disjI1 [OF this]] show ?thesis using True by (simp add: save_channel_def upsert_channel_def)
qed (simp add: save_channel_def upsert_channel_def)

lemma save_channel_iff: "(\<exists>d'. save_channel prt c d = Inr d') \<longleftrightarrow> storable c"
  using save_channel_ok [of c prt d] save_channel_fails [of c prt d] by (cases "storable c") auto

section \<open>Operations as data\<close>

datatype db_op =
    Save_Channel channel
  | Delete_Channel string
  | Save_Shachain string receiver
  | Save_Preimage string string
  | Save_Hint string string
  | Save_Network network_state
  | Clear

text \<open>The database after an operation, whether it returns or raises.\<close>

fun run_op :: "(json \<Rightarrow> string) \<Rightarrow> db_op \<Rightarrow> database \<Rightarrow> database" where
  "run_op prt (Save_Channel c) d = (case save_channel prt c d of Inl e \<Rightarrow> d | Inr d' \<Rightarrow> d')"
| "run_op prt (Delete_Channel cid) d = delete_channel cid d"
| "run_op prt (Save_Shachain cid r) d = (case save_shachain prt cid r d of Inl e \<Rightarrow> d | Inr d' \<Rightarrow> d')"
| "run_op prt (Save_Preimage h p) d = save_preimage h p d"
| "run_op prt (Save_Hint h b) d = save_watchtower_hint h b d"
| "run_op prt (Save_Network n) d = snd (save_network_state prt n d)"
| "run_op prt Clear d = clear d"

text \<open>The dictionaries of Python values have distinct keys.\<close>

fun wf_op :: "db_op \<Rightarrow> bool" where
  "wf_op (Save_Channel c) = wf_channel c"
| "wf_op (Save_Shachain cid r) = wf_dict (elements r)"
| "wf_op (Save_Network n) = wf_network n"
| "wf_op _ = True"

section \<open>The invariant\<close>

text \<open>
  A row of \<open>channels\<close> holds the text of a channel whose columns and whose rows of \<open>htlcs\<close> agree with it, every other row
  belongs to a channel, and keys are unique.
\<close>

definition holds_channel :: "(json \<Rightarrow> string) \<Rightarrow> database \<Rightarrow> channel \<Rightarrow> bool" where
  "holds_channel prt d c \<longleftrightarrow> wf_channel c \<and> storable c \<and>
     dict_get (channels_table d) (channel_id c) = Some (row_of_channel prt c) \<and>
     filter (\<lambda>r. row_channel_id r = channel_id c) (htlcs_table d) = htlc_rows c"

definition holds_receiver :: "(json \<Rightarrow> string) \<Rightarrow> database \<Rightarrow> string \<Rightarrow> receiver \<Rightarrow> bool" where
  "holds_receiver prt d cid r \<longleftrightarrow> wf_dict (elements r) \<and> fits (last_index r) \<and> dict_get (channels_table d) cid \<noteq> None \<and>
     dict_get (shachain_table d) cid = Some (prt (receiver_json r), last_index r)"

definition wf_database :: "(json \<Rightarrow> string) \<Rightarrow> database \<Rightarrow> bool" where
  "wf_database prt d \<longleftrightarrow>
     wf_dict (channels_table d) \<and> wf_dict (shachain_table d) \<and> wf_dict (preimages_table d) \<and> wf_dict (hints_table d) \<and>
     (\<forall>cid row. dict_get (channels_table d) cid = Some row \<longrightarrow> (\<exists>c. channel_id c = cid \<and> holds_channel prt d c)) \<and>
     (\<forall>cid row. dict_get (shachain_table d) cid = Some row \<longrightarrow> (\<exists>r. holds_receiver prt d cid r)) \<and>
     (\<forall>r \<in> set (htlcs_table d). dict_get (channels_table d) (row_channel_id r) \<noteq> None)"

lemma wf_databaseE:
  assumes "wf_database prt d"
  obtains "wf_dict (channels_table d)" "wf_dict (shachain_table d)" "wf_dict (preimages_table d)" "wf_dict (hints_table d)"
    and "\<And>cid row. dict_get (channels_table d) cid = Some row \<Longrightarrow> \<exists>c. channel_id c = cid \<and> holds_channel prt d c"
    and "\<And>cid row. dict_get (shachain_table d) cid = Some row \<Longrightarrow> \<exists>r. holds_receiver prt d cid r"
    and "\<And>r. r \<in> set (htlcs_table d) \<Longrightarrow> dict_get (channels_table d) (row_channel_id r) \<noteq> None"
  using assms unfolding wf_database_def by blast

lemma wf_new_database: "wf_database prt new_database"
  by (simp add: wf_database_def new_database_def)

lemma htlc_rows_owner: "r \<in> set (htlc_rows c) \<Longrightarrow> row_channel_id r = channel_id c"
  by (auto simp: htlc_rows_def)

lemma filter_htlc_rows:
  "filter (\<lambda>r. row_channel_id r = cid) (htlc_rows c) = (if cid = channel_id c then htlc_rows c else [])"
  by (auto simp: filter_empty_conv htlc_rows_owner intro: filter_True)

text \<open>The rows of a channel are untouched when another one is saved or deleted.\<close>

lemma holds_channel_other:
  assumes "holds_channel prt d c" and "channel_id c \<noteq> cid"
    and "dict_get (channels_table d') (channel_id c) = dict_get (channels_table d) (channel_id c)"
    and "htlcs_table d' = filter (\<lambda>r. row_channel_id r \<noteq> cid) (htlcs_table d) @ rows"
    and "\<And>r. r \<in> set rows \<Longrightarrow> row_channel_id r = cid"
  shows "holds_channel prt d' c"
proof -
  have "filter (\<lambda>r. row_channel_id r = channel_id c) rows = []"
    using assms(2,5) by (auto simp: filter_empty_conv)
  moreover have "filter (\<lambda>r. row_channel_id r = channel_id c) (filter (\<lambda>r. row_channel_id r \<noteq> cid) (htlcs_table d)) =
      filter (\<lambda>r. row_channel_id r = channel_id c) (htlcs_table d)"
    unfolding filter_filter by (rule filter_cong) (use assms(2) in auto)
  ultimately show ?thesis using assms(1,3,4) by (simp add: holds_channel_def)
qed

lemma save_channel_wf:
  assumes "wf_database prt d" and "wf_channel c" and "save_channel prt c d = Inr d'"
  shows "wf_database prt d' \<and> holds_channel prt d' c"
proof -
  have c: "storable c" using save_channel_iff [of prt c d] assms(3) by blast
  with assms(3) have d': "d' = d\<lparr>channels_table := dict_set (channel_id c) (row_of_channel prt c) (channels_table d),
      htlcs_table := filter (\<lambda>r. row_channel_id r \<noteq> channel_id c) (htlcs_table d) @ htlc_rows c\<rparr>"
    by (simp add: save_channel_ok)
  have new: "holds_channel prt d' c"
    using assms(2) c by (simp add: d' holds_channel_def filter_htlc_rows filter_empty_conv)
  from assms(1) show ?thesis
  proof (rule wf_databaseE)
    assume wf: "wf_dict (channels_table d)" "wf_dict (shachain_table d)" "wf_dict (preimages_table d)" "wf_dict (hints_table d)"
      and channels: "\<And>cid row. dict_get (channels_table d) cid = Some row \<Longrightarrow> \<exists>c. channel_id c = cid \<and> holds_channel prt d c"
      and receivers: "\<And>cid row. dict_get (shachain_table d) cid = Some row \<Longrightarrow> \<exists>r. holds_receiver prt d cid r"
      and owners: "\<And>r. r \<in> set (htlcs_table d) \<Longrightarrow> dict_get (channels_table d) (row_channel_id r) \<noteq> None"
    have other: "\<exists>c'. channel_id c' = cid \<and> holds_channel prt d' c'" if "dict_get (channels_table d') cid = Some row" for cid row
    proof (cases "cid = channel_id c")
      case True
      with new show ?thesis by blast
    next
      case False
      with that have "dict_get (channels_table d) cid = Some row" by (simp add: d')
      then obtain c' where c': "channel_id c' = cid" "holds_channel prt d c'" using channels by blast
      have "holds_channel prt d' c'"
        by (rule holds_channel_other [OF c'(2), of "channel_id c" _ "htlc_rows c"]) (use False c'(1) in \<open>auto simp: d' htlc_rows_owner\<close>)
      with c'(1) show ?thesis by blast
    qed
    moreover have "\<exists>r. holds_receiver prt d' cid r" if row: "dict_get (shachain_table d') cid = Some row" for cid row
      using receivers [of cid row] row by (auto simp: d' holds_receiver_def)
    moreover have "dict_get (channels_table d') (row_channel_id r) \<noteq> None" if "r \<in> set (htlcs_table d')" for r
      using that owners by (auto simp: d' htlc_rows_owner)
    ultimately show ?thesis using wf new unfolding wf_database_def by (simp add: d')
  qed
qed

lemma delete_channel_wf:
  assumes "wf_database prt d"
  shows "wf_database prt (delete_channel cid d)"
  using assms
proof (rule wf_databaseE)
  let ?d = "delete_channel cid d"
  assume wf: "wf_dict (channels_table d)" "wf_dict (shachain_table d)" "wf_dict (preimages_table d)" "wf_dict (hints_table d)"
    and channels: "\<And>cid row. dict_get (channels_table d) cid = Some row \<Longrightarrow> \<exists>c. channel_id c = cid \<and> holds_channel prt d c"
    and receivers: "\<And>cid row. dict_get (shachain_table d) cid = Some row \<Longrightarrow> \<exists>r. holds_receiver prt d cid r"
    and owners: "\<And>r. r \<in> set (htlcs_table d) \<Longrightarrow> dict_get (channels_table d) (row_channel_id r) \<noteq> None"
  have "\<exists>c. channel_id c = k \<and> holds_channel prt ?d c" if row: "dict_get (channels_table ?d) k = Some row" for k row
  proof -
    from row have k: "k \<noteq> cid" "dict_get (channels_table d) k = Some row"
      by (auto simp: delete_channel_def delete_htlcs_def split: if_splits)
    then obtain c where c: "channel_id c = k" "holds_channel prt d c" using channels by blast
    have "holds_channel prt ?d c"
      by (rule holds_channel_other [OF c(2), of cid _ "[]"]) (use c(1) k(1) in \<open>auto simp: delete_channel_def delete_htlcs_def\<close>)
    with c(1) show ?thesis by blast
  qed
  moreover have "\<exists>r. holds_receiver prt ?d k r" if row: "dict_get (shachain_table ?d) k = Some row" for k row
    using receivers [of k row] row by (auto simp: delete_channel_def delete_htlcs_def holds_receiver_def split: if_splits)
  moreover have "dict_get (channels_table ?d) (row_channel_id r) \<noteq> None" if "r \<in> set (htlcs_table ?d)" for r
    using that owners by (auto simp: delete_channel_def delete_htlcs_def)
  ultimately show ?thesis using wf unfolding wf_database_def by (simp add: delete_channel_def delete_htlcs_def)
qed

lemma save_shachain_cases:
  "save_shachain prt cid r d =
     (if \<not> fits (last_index r) then Inl OverflowError
      else if dict_get (channels_table d) cid = None then Inl IntegrityError
      else Inr (d\<lparr>shachain_table := dict_set cid (prt (receiver_json r), last_index r) (shachain_table d)\<rparr>))"
  by (cases "fits (last_index r)") (simp_all add: save_shachain_def)

lemma holds_cong:
  "channels_table d' = channels_table d \<Longrightarrow> htlcs_table d' = htlcs_table d \<Longrightarrow> holds_channel prt d' c = holds_channel prt d c"
  "channels_table d' = channels_table d \<Longrightarrow> dict_get (shachain_table d') cid = dict_get (shachain_table d) cid \<Longrightarrow>
    holds_receiver prt d' cid r = holds_receiver prt d cid r"
  by (simp_all add: holds_channel_def holds_receiver_def)

lemma save_shachain_wf:
  assumes "wf_database prt d" and "wf_dict (elements r)" and "save_shachain prt cid r d = Inr d'"
  shows "wf_database prt d' \<and> holds_receiver prt d' cid r"
proof -
  have ok: "fits (last_index r)" "dict_get (channels_table d) cid \<noteq> None"
    and d': "d' = d\<lparr>shachain_table := dict_set cid (prt (receiver_json r), last_index r) (shachain_table d)\<rparr>"
    using assms(3) by (auto simp: save_shachain_cases split: if_splits)
  have new: "holds_receiver prt d' cid r" using ok assms(2) by (simp add: d' holds_receiver_def)
  have "\<exists>r. holds_receiver prt d' k r" if row: "dict_get (shachain_table d') k = Some row" for k row
  proof (cases "k = cid")
    case False
    with row have "dict_get (shachain_table d) k = Some row" by (simp add: d')
    then obtain r' where "holds_receiver prt d k r'" using assms(1) unfolding wf_database_def by blast
    then have "holds_receiver prt d' k r'" using False by (simp add: d' holds_receiver_def)
    then show ?thesis by blast
  qed (use new in blast)
  moreover have "holds_channel prt d' c = holds_channel prt d c" for c by (rule holds_cong) (simp_all add: d')
  ultimately show ?thesis using assms(1) new unfolding wf_database_def by (simp add: d')
qed

text \<open>Preimages and hints touch no other table.\<close>

lemma other_tables_wf:
  assumes "wf_database prt d" and "wf_dict ps" and "wf_dict hs"
  shows "wf_database prt (d\<lparr>preimages_table := ps, hints_table := hs\<rparr>)"
proof -
  let ?d = "d\<lparr>preimages_table := ps, hints_table := hs\<rparr>"
  have "holds_channel prt ?d = holds_channel prt d" "holds_receiver prt ?d = holds_receiver prt d"
    by (intro ext holds_cong; simp)+
  then show ?thesis using assms unfolding wf_database_def by simp
qed

lemma save_preimage_wf: "wf_database prt d \<Longrightarrow> wf_database prt (save_preimage h p d)"
  using other_tables_wf [of prt d "dict_set h p (preimages_table d)" "hints_table d"]
  by (simp add: save_preimage_def wf_database_def)

lemma save_hint_wf: "wf_database prt d \<Longrightarrow> wf_database prt (save_watchtower_hint h b d)"
  using other_tables_wf [of prt d "preimages_table d" "dict_set h b (hints_table d)"]
  by (simp add: save_watchtower_hint_def wf_database_def)

lemma save_preimages_wf: "wf_database prt d \<Longrightarrow> wf_database prt (save_preimages ps d)"
  by (induction ps arbitrary: d) (auto simp: save_preimages_def save_preimage_wf)

lemma save_channels_wf:
  "wf_database prt d \<Longrightarrow> list_all wf_channel cs \<Longrightarrow> wf_database prt (snd (save_channels prt cs d))"
  by (induction cs arbitrary: d) (auto dest: save_channel_wf split: sum.split)

lemma save_network_state_wf:
  assumes "wf_database prt d" and "wf_network n"
  shows "wf_database prt (snd (save_network_state prt n d))"
proof -
  have "list_all wf_channel (map snd (channels_of n))"
    using assms(2) by (auto simp: wf_network_def list_all_iff)
  with assms(1) have "wf_database prt (snd (save_channels prt (map snd (channels_of n)) d))" by (rule save_channels_wf)
  then show ?thesis by (auto simp: save_network_state_def save_preimages_wf split: prod.split sum.split)
qed

lemma clear_wf: "wf_database prt (clear d)"
  by (simp add: wf_database_def clear_def)

lemma run_op_wf: "wf_database prt d \<Longrightarrow> wf_op op \<Longrightarrow> wf_database prt (run_op prt op d)"
  by (cases op) (auto simp: delete_channel_wf save_preimage_wf save_hint_wf save_network_state_wf clear_wf
    dest: save_channel_wf save_shachain_wf split: sum.split)

lemma run_ops_wf: "wf_database prt d \<Longrightarrow> list_all wf_op ops \<Longrightarrow> wf_database prt (fold (run_op prt) ops d)"
  by (induction ops arbitrary: d) (simp_all add: run_op_wf)

section \<open>Key-value stores\<close>

text \<open>What a client of the database relies on: a value that was put is found under its key, and nothing else changes.\<close>

locale kv_store =
  fixes get :: "'s \<Rightarrow> 'k \<Rightarrow> 'v option"
    and put :: "'k \<Rightarrow> 'v \<Rightarrow> 's \<Rightarrow> 's"
    and legal :: "'k \<Rightarrow> 'v \<Rightarrow> bool"
  assumes get_put: "legal k v \<Longrightarrow> get (put k v s) = (get s)(k \<mapsto> v)"
begin

lemma get_puts:
  "list_all (\<lambda>(k, v). legal k v) kvs \<Longrightarrow> distinct (map fst kvs) \<Longrightarrow>
    get (fold (\<lambda>(k, v). put k v) kvs s) = get s ++ map_of kvs"
proof (induction kvs arbitrary: s)
  case (Cons kv kvs)
  obtain k v where kv: "kv = (k, v)" by (cases kv)
  have "k \<notin> dom (map_of kvs)" using Cons.prems(2) by (simp add: kv dom_map_of_conv_image_fst)
  note left = map_add_upd_left [OF this]
  have new: "get (put k v s) = (get s)(k \<mapsto> v)" using Cons.prems(1) by (intro get_put) (simp add: kv)
  have "get (fold (\<lambda>(k, v). put k v) (kv # kvs) s) = get (put k v s) ++ map_of kvs"
    using Cons.IH [of "put k v s"] Cons.prems by (simp add: kv)
  then show ?case by (simp only: new left kv map_of.simps fst_conv snd_conv map_add_upd)
qed simp

lemma put_again: "legal k v \<Longrightarrow> legal k w \<Longrightarrow> get (put k w (put k v s)) = get (put k w s)"
  by (simp add: get_put)

lemma put_commutes: "legal k v \<Longrightarrow> legal l w \<Longrightarrow> k \<noteq> l \<Longrightarrow> get (put k v (put l w s)) = get (put l w (put k v s))"
  by (simp add: get_put fun_upd_twist)

end

interpretation preimage_store: kv_store "\<lambda>d. dict_get (preimages_table d)" save_preimage "\<lambda>_ _. True"
  by unfold_locales (simp add: save_preimage_def)

interpretation hint_store: kv_store "\<lambda>d hint. lookup_watchtower_hint hint d" save_watchtower_hint "\<lambda>_ _. True"
  by unfold_locales (simp add: lookup_watchtower_hint_def save_watchtower_hint_def fun_eq_iff)

section \<open>The archive the database implements\<close>

record archive =
  arch_channels :: "string \<rightharpoonup> channel"
  arch_receivers :: "string \<rightharpoonup> receiver"
  arch_preimages :: "string \<rightharpoonup> string"
  arch_hints :: "string \<rightharpoonup> string"

definition empty_archive :: archive where
  "empty_archive = \<lparr>arch_channels = (\<lambda>_. None), arch_receivers = (\<lambda>_. None), arch_preimages = (\<lambda>_. None), arch_hints = (\<lambda>_. None)\<rparr>"

definition loaded :: "'a option res \<Rightarrow> 'a option" where
  "loaded r = (case r of Inl e \<Rightarrow> None | Inr x \<Rightarrow> x)"

definition view :: "database \<Rightarrow> archive" where
  "view d = \<lparr>arch_channels = (\<lambda>cid. loaded (load_channel cid d)), arch_receivers = (\<lambda>cid. loaded (load_shachain cid d)),
     arch_preimages = dict_get (preimages_table d), arch_hints = (\<lambda>hint. lookup_watchtower_hint hint d)\<rparr>"

text \<open>The operations of the archive: maps are updated, unless a value cannot be stored.\<close>

definition archive_channel :: "channel \<Rightarrow> archive \<Rightarrow> archive" where
  "archive_channel c a = a\<lparr>arch_channels := (arch_channels a)(channel_id c \<mapsto> c)\<rparr>"

fun archive_op :: "db_op \<Rightarrow> archive \<Rightarrow> archive" where
  "archive_op (Save_Channel c) a = (if storable c then archive_channel c a else a)"
| "archive_op (Delete_Channel cid) a =
     a\<lparr>arch_channels := (arch_channels a)(cid := None), arch_receivers := (arch_receivers a)(cid := None)\<rparr>"
| "archive_op (Save_Shachain cid r) a =
     (if fits (last_index r) \<and> arch_channels a cid \<noteq> None then a\<lparr>arch_receivers := (arch_receivers a)(cid \<mapsto> r)\<rparr> else a)"
| "archive_op (Save_Preimage h p) a = a\<lparr>arch_preimages := (arch_preimages a)(h \<mapsto> p)\<rparr>"
| "archive_op (Save_Hint h b) a = a\<lparr>arch_hints := (arch_hints a)(h \<mapsto> b)\<rparr>"
| "archive_op (Save_Network n) a =
     (let cs = map snd (channels_of n);
          a' = fold archive_channel (takeWhile storable cs) a
      in if list_all storable cs then a'\<lparr>arch_preimages := arch_preimages a' ++ dict_get (preimages_of n)\<rparr> else a')"
| "archive_op Clear a = empty_archive"

text \<open>The rows whose text can be read, as a dictionary.\<close>

lemma readable_rows:
  assumes "wf_dict rows"
  shows "dict_get (dict_of_pairs (concat (map (\<lambda>(k, row). case f row of Inl e \<Rightarrow> [] | Inr x \<Rightarrow> [(k, x)]) rows))) k =
    (case dict_get rows k of None \<Rightarrow> None | Some row \<Rightarrow> (case f row of Inl e \<Rightarrow> None | Inr x \<Rightarrow> Some x))"
proof -
  let ?ps = "\<lambda>rows. concat (map (\<lambda>(k, row). case f row of Inl e \<Rightarrow> [] | Inr x \<Rightarrow> [(k, x)]) rows)"
  have keys: "set (map fst (?ps rows)) \<subseteq> set (map fst rows)" for rows
    by (force split: sum.splits)
  have "distinct (map fst rows) \<Longrightarrow> distinct (map fst (?ps rows)) \<and>
      dict_get (?ps rows) k = (case dict_get rows k of None \<Rightarrow> None | Some row \<Rightarrow> (case f row of Inl e \<Rightarrow> None | Inr x \<Rightarrow> Some x))"
  proof (induction rows)
    case (Cons r rows)
    obtain l row where r: "r = (l, row)" by (cases r)
    define qs where "qs = ?ps rows"
    have "l \<notin> set (map fst rows)" using Cons.prems by (simp add: r)
    then have l: "l \<notin> set (map fst qs)" unfolding qs_def by (rule contra_subsetD [OF keys])
    then have "dict_get qs l = None" unfolding map_of_eq_None_iff by simp
    moreover have "?ps (r # rows) = (case f row of Inl e \<Rightarrow> [] | Inr x \<Rightarrow> [(l, x)]) @ qs" by (simp add: r qs_def)
    moreover note Cons [folded qs_def]
    ultimately show ?case using l by (auto simp: r split: sum.split)
  qed simp
  with assms show ?thesis by (simp add: wf_dict_def dict_of_pairs_id)
qed

context json_printer
begin

lemma load_holds: "holds_channel prt d c \<Longrightarrow> load_channel (channel_id c) d = Inr (Some c)"
  using read_channel [of c] by (simp add: load_channel_def holds_channel_def read_model_def row_of_channel_def)

lemma load_receiver_holds: "holds_receiver prt d cid r \<Longrightarrow> load_shachain cid d = Inr (Some r)"
  using read_receiver [of r] by (simp add: load_shachain_def holds_receiver_def read_model_def)

lemma load_channel_wf:
  assumes "wf_database prt d"
  shows "load_channel cid d = Inr (loaded (load_channel cid d)) \<and>
    (loaded (load_channel cid d) = None \<longleftrightarrow> dict_get (channels_table d) cid = None)"
proof (cases "dict_get (channels_table d) cid")
  case None
  then show ?thesis by (simp add: load_channel_def loaded_def)
next
  case (Some row)
  then obtain c where c: "channel_id c = cid" "holds_channel prt d c" using assms unfolding wf_database_def by blast
  show ?thesis using load_holds [OF c(2)] Some by (simp add: c(1) loaded_def)
qed

lemma load_shachain_wf:
  assumes "wf_database prt d"
  shows "load_shachain cid d = Inr (loaded (load_shachain cid d))"
proof (cases "dict_get (shachain_table d) cid")
  case None
  then show ?thesis by (simp add: load_shachain_def loaded_def)
next
  case (Some row)
  then obtain r where r: "holds_receiver prt d cid r" using assms unfolding wf_database_def by blast
  show ?thesis using load_receiver_holds [OF r] by (simp add: loaded_def)
qed

lemma load_channel_other:
  "dict_get (channels_table d') cid = dict_get (channels_table d) cid \<Longrightarrow> load_channel cid d' = load_channel cid d"
  by (simp add: load_channel_def)

lemma view_save_channel:
  assumes "storable c" and "wf_channel c" and "save_channel prt c d = Inr d'"
  shows "view d' = archive_channel c (view d)"
proof -
  have d': "d' = d\<lparr>channels_table := dict_set (channel_id c) (row_of_channel prt c) (channels_table d),
      htlcs_table := filter (\<lambda>r. row_channel_id r \<noteq> channel_id c) (htlcs_table d) @ htlc_rows c\<rparr>"
    using assms(1,3) by (simp add: save_channel_ok)
  have "loaded (load_channel k d') = (if k = channel_id c then Some c else loaded (load_channel k d))" for k
    using read_channel [OF assms(2)] by (simp add: load_channel_def loaded_def read_model_def row_of_channel_def d')
  then show ?thesis
    by (simp add: view_def archive_channel_def fun_eq_iff load_shachain_def lookup_watchtower_hint_def d')
qed

lemma view_save_channels:
  "list_all wf_channel cs \<Longrightarrow>
    view (snd (save_channels prt cs d)) = fold archive_channel (takeWhile storable cs) (view d) \<and>
    ((\<exists>d'. save_channels prt cs d = (Inr (), d')) \<longleftrightarrow> list_all storable cs)"
proof (induction cs arbitrary: d)
  case (Cons c cs)
  show ?case
  proof (cases "storable c")
    case True
    then obtain d' where d': "save_channel prt c d = Inr d'" using save_channel_iff by blast
    with True Cons.prems have "view d' = archive_channel c (view d)" by (intro view_save_channel) simp_all
    with True d' Cons show ?thesis by simp
  next
    case False
    then obtain e where "save_channel prt c d = Inl e" using save_channel_fails by blast
    with False show ?thesis by simp
  qed
qed simp

lemma save_preimages_view:
  assumes "wf_dict ps"
  shows "view (save_preimages ps d) = (view d)\<lparr>arch_preimages := arch_preimages (view d) ++ dict_get ps\<rparr>"
proof -
  have "dict_get (preimages_table (save_preimages ps d)) = dict_get (preimages_table d) ++ dict_get ps"
    unfolding save_preimages_def using assms by (intro preimage_store.get_puts) (simp_all add: wf_dict_def list_all_iff)
  moreover have "channels_table (save_preimages ps d) = channels_table d \<and> shachain_table (save_preimages ps d) = shachain_table d \<and>
      hints_table (save_preimages ps d) = hints_table d"
    unfolding save_preimages_def by (induction ps arbitrary: d) (auto simp: save_preimage_def)
  ultimately show ?thesis by (simp add: view_def load_channel_def load_shachain_def lookup_watchtower_hint_def)
qed

lemma save_network_state_cases:
  assumes "wf_network n"
  shows "view (snd (save_network_state prt n d)) = archive_op (Save_Network n) (view d) \<and>
    (fst (save_network_state prt n d) = Inr () \<longleftrightarrow> list_all storable (map snd (channels_of n)))"
proof -
  let ?cs = "map snd (channels_of n)"
  have "list_all wf_channel ?cs" using assms by (auto simp: wf_network_def list_all_iff)
  from view_save_channels [OF this, of d]
  have cs: "view (snd (save_channels prt ?cs d)) = fold archive_channel (takeWhile storable ?cs) (view d)"
    and ok: "(\<exists>d'. save_channels prt ?cs d = (Inr (), d')) \<longleftrightarrow> list_all storable ?cs" by blast+
  have ps: "wf_dict (preimages_of n)" using assms by (simp add: wf_network_def)
  obtain r d' where r: "save_channels prt ?cs d = (r, d')" by (cases "save_channels prt ?cs d")
  show ?thesis
  proof (cases r)
    case (Inl e)
    with r ok have "\<not> list_all storable ?cs" by simp
    with Inl r cs show ?thesis by (simp add: save_network_state_def Let_def)
  next
    case (Inr u)
    with r ok have "list_all storable ?cs" by simp
    with Inr r cs show ?thesis by (simp add: save_network_state_def Let_def save_preimages_view [OF ps])
  qed
qed

lemma view_run_op:
  assumes d: "wf_database prt d" and op: "wf_op op"
  shows "view (run_op prt op d) = archive_op op (view d)"
proof (cases op)
  case (Save_Channel c)
  show ?thesis
  proof (cases "storable c")
    case True
    then obtain d' where "save_channel prt c d = Inr d'" using save_channel_iff by blast
    with True Save_Channel op show ?thesis by (simp add: view_save_channel)
  next
    case False
    then obtain e where "save_channel prt c d = Inl e" using save_channel_fails by blast
    with False Save_Channel show ?thesis by simp
  qed
next
  case (Delete_Channel cid)
  then show ?thesis
    by (simp add: view_def delete_channel_def delete_htlcs_def load_channel_def load_shachain_def loaded_def
      lookup_watchtower_hint_def fun_eq_iff)
next
  case (Save_Shachain cid r)
  have known: "arch_channels (view d) cid = None \<longleftrightarrow> dict_get (channels_table d) cid = None"
    using load_channel_wf [OF d, of cid] by (simp add: view_def)
  show ?thesis
  proof (cases "fits (last_index r) \<and> arch_channels (view d) cid \<noteq> None")
    case True
    then have "save_shachain prt cid r d =
        Inr (d\<lparr>shachain_table := dict_set cid (prt (receiver_json r), last_index r) (shachain_table d)\<rparr>)"
      using known by (simp add: save_shachain_cases)
    moreover have "Option.bind (loads (prt (receiver_json r))) receiver_of_json = Some r"
      using op Save_Shachain by (intro read_receiver) simp
    ultimately show ?thesis using True Save_Shachain
      by (auto simp: view_def load_channel_def load_shachain_def loaded_def read_model_def lookup_watchtower_hint_def fun_eq_iff)
  next
    case False
    then show ?thesis using Save_Shachain known by (auto simp: save_shachain_cases)
  qed
next
  case (Save_Network n)
  then show ?thesis using save_network_state_cases [of n d] op by simp
qed (simp_all add: view_def save_preimage_def save_watchtower_hint_def clear_def empty_archive_def load_channel_def load_shachain_def
  loaded_def lookup_watchtower_hint_def fun_eq_iff)

lemma view_run_ops:
  "wf_database prt d \<Longrightarrow> list_all wf_op ops \<Longrightarrow> view (fold (run_op prt) ops d) = fold archive_op ops (view d)"
  by (induction ops arbitrary: d) (simp_all add: view_run_op run_op_wf)

lemma load_all_channels_wf:
  assumes "wf_database prt d"
  shows "dict_get (load_all_channels d) = arch_channels (view d)"
proof -
  have "wf_dict (channels_table d)" using assms by (simp add: wf_database_def)
  from readable_rows [OF this, of "\<lambda>row. read_model channel_of_json (row_state_json row)"] show ?thesis
    by (auto simp: load_all_channels_def view_def load_channel_def loaded_def fun_eq_iff split: option.split sum.split)
qed

lemma load_network_view:
  assumes "wf_database prt d"
  shows "dict_get (channels_of (load_network_state d)) = arch_channels (view d) \<and>
    dict_get (preimages_of (load_network_state d)) = arch_preimages (view d)"
  using load_all_channels_wf [OF assms] assms
  by (simp add: load_network_state_def load_preimages_def dict_of_pairs_id wf_database_def wf_dict_def view_def)

lemma fold_archive_channel:
  "arch_channels (fold archive_channel cs a) = arch_channels a ++ map_of (rev (map (\<lambda>c. (channel_id c, c)) cs)) \<and>
    arch_preimages (fold archive_channel cs a) = arch_preimages a"
  by (induction cs arbitrary: a) (auto simp: archive_channel_def map_add_def fun_eq_iff split: option.split)

lemma network_roundtrip:
  assumes d: "wf_database prt d" and n: "wf_network n"
    and ids: "list_all (\<lambda>(k, c). k = channel_id c \<and> storable c) (channels_of n)"
    and run: "save_network_state prt n d = (r, d')"
  shows "r = Inr () \<and>
    dict_get (channels_of (load_network_state d')) = dict_get (channels_of (load_network_state d)) ++ dict_get (channels_of n) \<and>
    dict_get (preimages_of (load_network_state d')) = dict_get (preimages_of (load_network_state d)) ++ dict_get (preimages_of n)"
proof -
  let ?cs = "map snd (channels_of n)"
  have all: "list_all storable ?cs" using ids by (auto simp: list_all_iff)
  then have take: "takeWhile storable ?cs = ?cs" by (simp add: takeWhile_eq_all_conv list_all_iff)
  have "map (\<lambda>c. (channel_id c, c)) ?cs = channels_of n"
    using ids by (auto simp: list_all_iff intro!: map_idI)
  moreover have "map_of (rev (channels_of n)) = map_of (channels_of n)"
    using n by (subst map_of_inject_set) (simp_all add: wf_network_def wf_dict_def rev_map [symmetric])
  ultimately have cs: "arch_channels (fold archive_channel ?cs (view d)) = arch_channels (view d) ++ dict_get (channels_of n)"
    and ps: "arch_preimages (fold archive_channel ?cs (view d)) = arch_preimages (view d)"
    using fold_archive_channel [of ?cs "view d"] by simp_all
  have r: "r = Inr ()" and v: "view d' = archive_op (Save_Network n) (view d)"
    using save_network_state_cases [OF n, of d] all run by simp_all
  have "wf_database prt d'" using save_network_state_wf [OF d n] run by simp
  from load_network_view [OF this] load_network_view [OF d] r v cs ps all take show ?thesis by (simp add: Let_def)
qed

text \<open>A channel that cannot be stored ends the saving halfway: the channels before it stay saved, the preimages are not.\<close>

lemma save_network_state_not_atomic:
  assumes "wf_network n" and "map snd (channels_of n) = cs @ c # cs'" and "list_all storable cs" and "\<not> storable c"
    and "save_network_state prt n d = (r, d')"
  shows "r \<noteq> Inr () \<and> view d' = fold archive_channel cs (view d)"
proof -
  have "takeWhile storable (cs @ c # cs') = cs"
    using assms(3,4) by (simp add: takeWhile_append takeWhile_eq_all_conv list_all_iff)
  then show ?thesis using save_network_state_cases [OF assms(1), of d] assms(2,4,5) by (simp add: Let_def)
qed

end

section \<open>Properties\<close>

text \<open>
  Property C33: the database implements an archive of maps.  After any operations on a new database, failed ones included,
  what can be loaded from it is what the operations on the maps say: a channel, a receiver, a preimage or a hint is the last
  one stored under its key, deleting a channel removes its receiver, a receiver needs its channel, and a network state with a
  channel that cannot be stored is saved up to that channel.
\<close>

theorem database_implements_archive:
  assumes "json_printer prt" and "list_all wf_op ops"
  shows "view (fold (run_op prt) ops new_database) = fold archive_op ops empty_archive"
proof -
  have "view new_database = empty_archive"
    by (simp add: view_def new_database_def empty_archive_def load_channel_def load_shachain_def loaded_def
      lookup_watchtower_hint_def fun_eq_iff)
  then show ?thesis using json_printer.view_run_ops [OF assms(1) wf_new_database assms(2)] by simp
qed

text \<open>
  Property C34: the types of the database.  After any operations on a new database the keys of its tables are unique, the
  columns and HTLC rows of a channel agree with its text, every receiver and every HTLC row belongs to a channel, and loading
  a channel or receiver never raises.
\<close>

theorem database_well_typed:
  assumes "json_printer prt" and "list_all wf_op ops" and "d = fold (run_op prt) ops new_database"
  shows "wf_database prt d \<and> (\<exists>c. load_channel cid d = Inr c) \<and> (\<exists>r. load_shachain cid d = Inr r)"
proof -
  have "wf_database prt d" using run_ops_wf [OF wf_new_database assms(2)] assms(3) by simp
  with json_printer.load_channel_wf [OF assms(1)] json_printer.load_shachain_wf [OF assms(1)] show ?thesis by blast
qed

text \<open>
  Saving and loading the state of the network.  When every channel can be stored under its own identifier, the
  saving succeeds, and what is loaded afterwards is what was there before, overridden by the channels and preimages saved.
\<close>

theorem network_state_roundtrip:
  assumes "json_printer prt" and "wf_database prt d" and "wf_network n"
    and "list_all (\<lambda>(k, c). k = channel_id c \<and> storable c) (channels_of n)" and "save_network_state prt n d = (r, d')"
  shows "r = Inr () \<and>
    dict_get (channels_of (load_network_state d')) = dict_get (channels_of (load_network_state d)) ++ dict_get (channels_of n) \<and>
    dict_get (preimages_of (load_network_state d')) = dict_get (preimages_of (load_network_state d)) ++ dict_get (preimages_of n)"
  by (rule json_printer.network_roundtrip [OF assms])

text \<open>A channel with one HTLC, as the witnesses store it.\<close>

definition sample_channel :: "int \<Rightarrow> channel" where
  "sample_channel amount = \<lparr>channel_id = ''c1'', sender_alias = ''A'', receiver_alias = ''B'', sender_pubkey_hex = ''02'',
     receiver_pubkey_hex = ''03'', capacity_sat = 100, balance_sender_sat = 90, balance_receiver_sat = 0, channel_status = CH_OPEN,
     funding_txid = None, funding_vout = None,
     active_htlcs = [(''h'', \<lparr>htlc_id = ''h'', payment_hash = ''00'', htlc_amount_sat = amount, htlc_locktime = 5,
       offerer_alias = Some ''A'', preimage = None, settled = False, refunded = False, htlc_status = HTLC_OFFERED\<rparr>)],
     sequence_number = 1, store = empty_store\<rparr>"

lemma sample_channel_facts:
  "wf_channel (sample_channel amount)" "storable (sample_channel 10)" "\<not> storable (sample_channel 9223372036854775808)"
  "channel_id (sample_channel amount) = ''c1''"
  by (simp_all add: sample_channel_def wf_channel_def wf_dict_def empty_store_def storable_def fits_def htlc_fits_def)

lemma database_implements_archive_witness:
  "arch_channels (view (fold (run_op dumps) [Save_Channel (sample_channel 10), Save_Channel (sample_channel 9223372036854775808),
     Save_Shachain ''c2'' \<lparr>elements = [], last_index = - 1\<rparr>, Save_Preimage ''00'' ''01''] new_database)) ''c1'' = Some (sample_channel 10)"
  by (subst database_implements_archive [OF std_printer])
    (simp_all add: sample_channel_facts archive_channel_def empty_archive_def)

lemma database_well_typed_witness:
  "wf_database dumps (fold (run_op dumps) [Save_Channel (sample_channel 10), Delete_Channel ''c2''] new_database)"
  using database_well_typed [OF std_printer _ refl, of "[Save_Channel (sample_channel 10), Delete_Channel ''c2'']"]
  by (simp add: sample_channel_facts)

lemma network_state_roundtrip_witness:
  "dict_get (channels_of (load_network_state (snd (save_network_state dumps
     \<lparr>channels_of = [(''c1'', sample_channel 10)], preimages_of = [(''00'', ''01'')]\<rparr> new_database)))) ''c1'' = Some (sample_channel 10)"
  using network_state_roundtrip [OF std_printer wf_new_database _ _ surjective_pairing,
      of "\<lparr>channels_of = [(''c1'', sample_channel 10)], preimages_of = [(''00'', ''01'')]\<rparr>"]
  by (simp add: sample_channel_facts wf_network_def wf_dict_def)

end
