(* ===== verification/Storage.thy ===== *)
theory Storage
  imports Model_Json Text
begin

text \<open>
  The JSON persistence engine of \<open>storage/engine.py\<close>.  A directory maps file names to contents; what the operating system
  decides (whether a file can be written, read or renamed, and the clock of the backup's name) are arguments.  \<open>save_trace\<close>
  lists the directories a crash can leave behind while a state is saved: the temporary file is opened, filled byte by byte, and
  then replaces the state file in one step.
\<close>

section \<open>Directories and names\<close>

type_synonym directory = "(string, bytes) pydict"

text \<open>\<open>Path(name).with_suffix(".tmp")\<close>: the suffix starts at the last dot, unless there are only dots before it.\<close>

definition with_suffix_tmp :: "string \<Rightarrow> string" where
  "with_suffix_tmp name =
     (let suffix = takeWhile (\<lambda>c. c \<noteq> CHR ''.'') (rev name);
          stem = drop (length suffix + 1) (rev name)
      in (if list_ex (\<lambda>c. c \<noteq> CHR ''.'') stem then rev stem else name) @ ''.tmp'')"

definition backup_name :: "string \<Rightarrow> int \<Rightarrow> string" where
  "backup_name name now = name @ ''.bak_'' @ dump_int now"

text \<open>\<open>source.replace(target)\<close> and \<open>source.rename(target)\<close>: the target, if any, is replaced.\<close>

definition rename_file :: "string \<Rightarrow> string \<Rightarrow> directory \<Rightarrow> directory" where
  "rename_file source target d =
     (case dict_get d source of None \<Rightarrow> d
      | Some content \<Rightarrow> if source = target then d else dict_del source (dict_set target content d))"

section \<open>The engine\<close>

text \<open>Whether the calls of the operating system succeed.\<close>

record disk =
  can_write :: bool
  can_read :: bool
  can_rename :: bool

definition healthy :: disk where
  "healthy = \<lparr>can_write = True, can_read = True, can_rename = True\<rparr>"

definition state_bytes :: "(json \<Rightarrow> string) \<Rightarrow> network_state \<Rightarrow> bytes" where
  "state_bytes prt n = utf8_encode (prt (network_json n))"

definition save_state :: "(json \<Rightarrow> string) \<Rightarrow> disk \<Rightarrow> string \<Rightarrow> network_state \<Rightarrow> directory \<Rightarrow> directory res" where
  "save_state prt os name n d =
     (if \<not> can_write os then Inl OSError
      else Inr (rename_file (with_suffix_tmp name) name (dict_set (with_suffix_tmp name) (state_bytes prt n) d)))"

definition save_trace :: "(json \<Rightarrow> string) \<Rightarrow> string \<Rightarrow> network_state \<Rightarrow> directory \<Rightarrow> directory list" where
  "save_trace prt name n d =
     (let tmp = with_suffix_tmp name; content = state_bytes prt n
      in [d] @ map (\<lambda>k. dict_set tmp (take k content) d) [0..<Suc (length content)]
         @ [rename_file tmp name (dict_set tmp content d)])"

text \<open>\<open>json.load\<close> of a file and the validation of what it holds: \<open>None\<close> is a UnicodeDecodeError, JSONDecodeError or ValidationError.\<close>

definition parse_state :: "bytes \<Rightarrow> network_state option" where
  "parse_state content = Option.bind (utf8_decode content) (\<lambda>s. Option.bind (loads s) network_of_json)"

definition load_state :: "disk \<Rightarrow> int \<Rightarrow> string \<Rightarrow> directory \<Rightarrow> network_state res \<times> directory" where
  "load_state os now name d =
     (case dict_get d name of None \<Rightarrow> (Inr empty_network, d)
      | Some content \<Rightarrow>
          if \<not> can_read os then (Inl OSError, d)
          else (case parse_state content of Some n \<Rightarrow> (Inr n, d)
                | None \<Rightarrow> (Inr empty_network, if can_rename os then rename_file name (backup_name name now) d else d)))"

definition load_state_safe ::
  "disk \<Rightarrow> int \<Rightarrow> string \<Rightarrow> directory \<Rightarrow> (network_state, py_error) py_result \<times> directory" where
  "load_state_safe os now name d =
     (case load_state os now name d of
        (Inr n, d') \<Rightarrow> (Ok n, d')
      | (Inl e, d') \<Rightarrow> (Err e, d'))"

definition clear_state :: "string \<Rightarrow> directory \<Rightarrow> directory" where
  "clear_state name d = dict_del name d"

text \<open>
  \<open>with engine.session(...) as state:\<close> runs a body that may change the state and then ends, or raises; the state is saved in
  both cases, and an exception of the saving takes the place of the body's.
\<close>

definition session ::
  "(json \<Rightarrow> string) \<Rightarrow> disk \<Rightarrow> string \<Rightarrow> (network_state \<Rightarrow> network_state \<times> 'a res) \<Rightarrow> network_state \<Rightarrow> directory \<Rightarrow> 'a res \<times> directory" where
  "session prt os name body n d =
     (case body n of (n', r) \<Rightarrow>
        (case save_state prt os name n' d of
           Inl e \<Rightarrow> (Inl e, d)
         | Inr d' \<Rightarrow> (r, d')))"

section \<open>Lemmas\<close>

lemma with_suffix_tmp_eq: "with_suffix_tmp name = name \<Longrightarrow> \<exists>stem. name = stem @ ''.tmp''"
  unfolding with_suffix_tmp_def Let_def by metis

lemma get_rename_file:
  assumes "source \<noteq> target" and "dict_get d source = Some content"
  shows "dict_get (rename_file source target d) = (dict_get d)(target \<mapsto> content, source := None)"
  using assms by (simp add: rename_file_def)

lemma get_saved:
  assumes "with_suffix_tmp name \<noteq> name" and "save_state prt os name n d = Inr d'"
  shows "dict_get d' = (dict_get d)(name \<mapsto> state_bytes prt n, with_suffix_tmp name := None)"
  using assms get_rename_file [OF assms(1), of "dict_set (with_suffix_tmp name) (state_bytes prt n) d"]
  by (auto simp: save_state_def fun_upd_def fun_eq_iff split: if_splits)

text \<open>Loading looks at the state file only.\<close>

lemma load_state_other:
  "dict_get d' name = dict_get d name \<Longrightarrow> fst (load_state os now name d') = fst (load_state os now name d)"
  by (auto simp: load_state_def split: option.split)

context json_printer
begin

lemma parse_state_bytes: "wf_network n \<Longrightarrow> parse_state (state_bytes prt n) = Some n"
  by (simp add: parse_state_def state_bytes_def loads_prt wf_network_json)

lemma load_written:
  "wf_network n \<Longrightarrow> dict_get d name = Some (state_bytes prt n) \<Longrightarrow> can_read os \<Longrightarrow>
    load_state os now name d = (Inr n, d)"
  by (simp add: load_state_def parse_state_bytes)

lemma save_load:
  assumes "wf_network n" and "with_suffix_tmp name \<noteq> name" and "can_read os" and "save_state prt os' name n d = Inr d'"
  shows "load_state os now name d' = (Inr n, d')"
  using assms by (intro load_written) (simp_all add: get_saved [OF assms(2,4)])

lemma save_trace_cases:
  assumes "with_suffix_tmp name \<noteq> name" and "d' \<in> set (save_trace prt name n d)"
  shows "dict_get d' name = dict_get d name \<or> dict_get d' name = Some (state_bytes prt n)"
  using assms get_rename_file [OF assms(1)]
  by (auto simp: save_trace_def Let_def simp del: upt_Suc)

lemma crash_safe:
  assumes "wf_network n" and "with_suffix_tmp name \<noteq> name" and "can_read os" and "d' \<in> set (save_trace prt name n d)"
  shows "fst (load_state os now name d') \<in> {fst (load_state os now name d), Inr n}"
  using save_trace_cases [OF assms(2,4)] load_state_other [of d' name d os now] load_written [OF assms(1) _ assms(3)] by fastforce

end

lemma save_state_ends_trace: "can_write os \<Longrightarrow> save_state prt os name n d = Inr (last (save_trace prt name n d))"
  by (simp add: save_state_def save_trace_def Let_def)

text \<open>A state file that cannot be read as a state is set aside, and the state starts empty; the safe variant reports nothing of it.\<close>

lemma corrupt_state_is_set_aside:
  assumes "dict_get d name = Some content" and "parse_state content = None" and "can_read os" and "can_rename os"
    and "load_state os now name d = (r, d')"
  shows "r = Inr empty_network \<and> dict_get d' = (dict_get d)(backup_name name now \<mapsto> content, name := None)"
  using assms get_rename_file [of name "backup_name name now" d content] by (auto simp: load_state_def backup_name_def)

lemma load_state_safe_err: "load_state_safe os now name d = (Err e, d') \<Longrightarrow> e = OSError \<and> d' = d"
  by (auto simp: load_state_safe_def load_state_def split: prod.splits sum.splits option.splits if_splits)

text \<open>A session leaves the state its body reached on disk, even when the body raises.\<close>

lemma session_saves:
  assumes "json_printer prt" and "wf_network n'" and "with_suffix_tmp name \<noteq> name" and "can_write os" and "can_read os"
    and "body n = (n', r)" and "session prt os name body n d = (r', d')"
  shows "r' = r \<and> load_state os now name d' = (Inr n', d')"
proof -
  obtain d'' where s: "save_state prt os name n' d = Inr d''" using assms(4) by (simp add: save_state_def)
  then show ?thesis using json_printer.save_load [OF assms(1-3,5) s] assms(6,7) by (simp add: session_def)
qed

text \<open>
  Property C32: saving is safe against crashes.  Whatever prefix of the writing a crash leaves behind, loading gives the state
  that was there before or the new one, and when the saving ends, loading gives the new one.  The printer of pydantic is any
  whose texts \<open>json.loads\<close> reads back.  The state file must not end in \<open>.tmp\<close> itself (\<open>with_suffix_tmp name \<noteq> name\<close>):
  then it would be its own temporary file and be written in place.
\<close>

theorem saving_is_crash_safe:
  assumes "json_printer prt" and "wf_network n" and "with_suffix_tmp name \<noteq> name" and "can_read os" and "can_write os"
    and "d' \<in> set (save_trace prt name n d)" and "save_state prt os name n d = Inr saved"
  shows "fst (load_state os now name d') \<in> {fst (load_state os now name d), Inr n} \<and> load_state os now name saved = (Inr n, saved)"
  using json_printer.crash_safe [OF assms(1-4,6)] json_printer.save_load [OF assms(1-4,7)] by blast

lemma saving_is_crash_safe_witness:
  "fst (load_state healthy 7 ''s.json'' [(''s.json'', [0x41]), (''s.tmp'', [0x7B])]) \<in>
     {fst (load_state healthy 7 ''s.json'' [(''s.json'', [0x41])]), Inr empty_network} \<and>
   load_state healthy 7 ''s.json'' [(''s.json'', state_bytes dumps empty_network)] =
     (Inr empty_network, [(''s.json'', state_bytes dumps empty_network)])"
proof -
  have tmp: "with_suffix_tmp ''s.json'' = ''s.tmp''" by code_simp
  have start: "take 1 (state_bytes dumps empty_network) = [0x7B]" "1 < length (state_bytes dumps empty_network)" by code_simp+
  have "[(''s.json'', [0x41]), (''s.tmp'', [0x7B])] \<in> set (save_trace dumps ''s.json'' empty_network [(''s.json'', [0x41])])"
    using start by (fastforce simp: save_trace_def Let_def tmp simp del: upt_Suc intro: image_eqI [of _ _ 1])
  moreover have "save_state dumps healthy ''s.json'' empty_network [(''s.json'', [0x41])] = Inr [(''s.json'', state_bytes dumps empty_network)]"
    by (simp add: save_state_def healthy_def tmp rename_file_def)
  moreover have "wf_network empty_network" by (simp add: wf_network_def empty_network_def)
  ultimately show ?thesis
    using saving_is_crash_safe [OF std_printer, of empty_network "''s.json''" healthy] by (simp add: tmp healthy_def)
qed

end
