(* ===== verification/Config.thy ===== *)
theory Config
  imports Json
begin

text \<open>
  The environment settings of \<open>config.py\<close>: the network, the Esplora address, the fallback fee rate and the keys, addresses and
  public keys of the three simulated parties, read from the environment with their defaults, and the endpoints of the Esplora
  interface.  The environment (after \<open>load_dotenv\<close>) is a dictionary; \<open>str.lower\<close>, \<open>str.strip\<close> and \<open>int\<close> are those of texts of
  code points below 256.  The other constants of the module stand with the components that use them.
\<close>

section \<open>Python's text operations\<close>

definition py_space :: "char \<Rightarrow> bool" where
  "py_space c \<longleftrightarrow> (let n = (of_char c :: nat) in 9 \<le> n \<and> n \<le> 13 \<or> 28 \<le> n \<and> n \<le> 32 \<or> n = 133 \<or> n = 160)"

definition strip :: "string \<Rightarrow> string" where
  "strip s = rev (dropWhile py_space (rev (dropWhile py_space s)))"

definition rstrip_slash :: "string \<Rightarrow> string" where
  "rstrip_slash s = rev (dropWhile (\<lambda>c. c = CHR ''/'') (rev s))"

text \<open>\<open>int(s)\<close>: digits with single underscores between them, at most 4300, after an optional sign.\<close>

fun digit_groups :: "bool \<Rightarrow> string \<Rightarrow> bool" where
  "digit_groups after_digit [] = after_digit"
| "digit_groups after_digit (c # cs) =
     (if is_digit c then digit_groups True cs else if c = CHR ''_'' \<and> after_digit then digit_groups False cs else False)"

definition py_int :: "string \<Rightarrow> int res" where
  "py_int s =
     (let t = strip s;
          (sign, ds) = (case t of [] \<Rightarrow> (1, t)
            | c # r \<Rightarrow> if c = CHR ''-'' then (- 1, r) else if c = CHR ''+'' then (1, r) else (1, t))
      in if digit_groups False ds \<and> length (filter is_digit ds) \<le> 4300 then Inr (sign * int (number_of (filter is_digit ds)))
         else Inl ValueError)"

text \<open>\<open>s.lower()\<close>: the upper case letters of ASCII and of the Latin-1 supplement.\<close>

definition lower_char :: "char \<Rightarrow> char" where
  "lower_char c =
     (let n = (of_char c :: nat)
      in if 65 \<le> n \<and> n \<le> 90 \<or> 192 \<le> n \<and> n \<le> 222 \<and> n \<noteq> 215 then char_of (n + 32) else c)"

definition lower :: "string \<Rightarrow> string" where
  "lower s = map lower_char s"

section \<open>Endpoints and defaults\<close>

definition ESPLORA_FEE_ESTIMATES_ENDPOINT :: string where "ESPLORA_FEE_ESTIMATES_ENDPOINT = ''/fee-estimates''"
definition ESPLORA_TIP_HEIGHT_ENDPOINT :: string where "ESPLORA_TIP_HEIGHT_ENDPOINT = ''/blocks/tip/height''"
definition ESPLORA_TIP_HASH_ENDPOINT :: string where "ESPLORA_TIP_HASH_ENDPOINT = ''/blocks/tip/hash''"
definition ESPLORA_ADDRESS_ENDPOINT :: string where "ESPLORA_ADDRESS_ENDPOINT = ''/address''"
definition ESPLORA_TX_ENDPOINT :: string where "ESPLORA_TX_ENDPOINT = ''/tx''"
definition DEFAULT_SIGNET_FAUCET_URL :: string where "DEFAULT_SIGNET_FAUCET_URL = ''https://bitcoinsignetfaucet.com''"
definition DEFAULT_FEE_RATE_SAT_VB :: int where "DEFAULT_FEE_RATE_SAT_VB = 2"

section \<open>Settings\<close>

type_synonym environment = "(string, string) pydict"

definition getenv :: "environment \<Rightarrow> string \<Rightarrow> string \<Rightarrow> string" where
  "getenv env k dflt = (case dict_get env k of None \<Rightarrow> dflt | Some v \<Rightarrow> v)"

datatype network_type = Testnet | Signet | Regtest | Mainnet

fun network_name :: "network_type \<Rightarrow> string" where
  "network_name Testnet = ''testnet''"
| "network_name Signet = ''signet''"
| "network_name Regtest = ''regtest''"
| "network_name Mainnet = ''mainnet''"

definition get_network :: "environment \<Rightarrow> network_type" where
  "get_network env =
     (let val = strip (lower (getenv env ''BITCOIN_NETWORK'' ''signet''))
      in case find (\<lambda>n. network_name n = val) [Testnet, Signet, Regtest, Mainnet] of None \<Rightarrow> Signet | Some n \<Rightarrow> n)"

record settings =
  network_setting :: network_type
  esplora_api_url :: string
  signet_faucet_url :: string
  default_fee_rate_sat_vb :: int
  alice_key :: string
  bob_key :: string
  dave_key :: string
  alice_address :: string
  bob_address :: string
  dave_address :: string
  alice_pubkey :: string
  bob_pubkey :: string
  dave_pubkey :: string

text \<open>A fee rate that is no integer is a ValueError when the module is imported.\<close>

definition Settings :: "environment \<Rightarrow> settings res" where
  "Settings env =
     rbind (py_int (getenv env ''DEFAULT_FEE_RATE_SAT_VB'' (dump_int DEFAULT_FEE_RATE_SAT_VB))) (\<lambda>rate.
       Inr \<lparr>network_setting = get_network env,
         esplora_api_url = getenv env ''ESPLORA_API_URL'' ''https://mempool.space/signet/api'',
         signet_faucet_url = getenv env ''SIGNET_FAUCET_URL'' DEFAULT_SIGNET_FAUCET_URL,
         default_fee_rate_sat_vb = rate,
         alice_key = getenv env ''ALICE_PRIVATE_KEY'' [], bob_key = getenv env ''BOB_PRIVATE_KEY'' [],
         dave_key = getenv env ''DAVE_PRIVATE_KEY'' [],
         alice_address = getenv env ''ALICE_ADDRESS'' [], bob_address = getenv env ''BOB_ADDRESS'' [],
         dave_address = getenv env ''DAVE_ADDRESS'' [],
         alice_pubkey = getenv env ''ALICE_PUBKEY'' [], bob_pubkey = getenv env ''BOB_PUBKEY'' [],
         dave_pubkey = getenv env ''DAVE_PUBKEY'' []\<rparr>)"

definition by_alias :: "string \<Rightarrow> string \<Rightarrow> string \<Rightarrow> string \<Rightarrow> string" where
  "by_alias alice bob dave alias =
     (let alias_lower = lower alias
      in if alias_lower = ''alice'' then alice else if alias_lower = ''bob'' then bob
         else if alias_lower = ''dave'' then dave else [])"

definition get_key :: "settings \<Rightarrow> string \<Rightarrow> string" where
  "get_key s = by_alias (alice_key s) (bob_key s) (dave_key s)"

definition get_address :: "settings \<Rightarrow> string \<Rightarrow> string" where
  "get_address s = by_alias (alice_address s) (bob_address s) (dave_address s)"

definition get_pubkey :: "settings \<Rightarrow> string \<Rightarrow> string" where
  "get_pubkey s = by_alias (alice_pubkey s) (bob_pubkey s) (dave_pubkey s)"

definition is_live_configured :: "settings \<Rightarrow> bool" where
  "is_live_configured s \<longleftrightarrow> alice_key s \<noteq> [] \<and> bob_key s \<noteq> [] \<and> dave_key s \<noteq> []"

text \<open>The parameters \<open>init_bitcoin_network\<close> selects in the Bitcoin library.\<close>

definition init_bitcoin_network :: "settings \<Rightarrow> string" where
  "init_bitcoin_network s =
     (let net = lower (network_name (network_setting s))
      in if net \<in> {''testnet'', ''signet''} then ''testnet''
         else if net = ''regtest'' then ''regtest'' else if net = ''mainnet'' then ''mainnet'' else ''testnet'')"

section \<open>Lemmas\<close>

text \<open>Reading an integer back from its text, and the settings of an empty environment.\<close>

lemma is_digit_not_space: "is_digit c \<Longrightarrow> \<not> py_space c"
  by (auto simp: is_digit_def py_space_def Let_def)

lemma strip_id: "s \<noteq> [] \<Longrightarrow> \<not> py_space (hd s) \<Longrightarrow> \<not> py_space (last s) \<Longrightarrow> strip s = s"
proof -
  assume s: "s \<noteq> []" "\<not> py_space (hd s)" "\<not> py_space (last s)"
  have keep: "t \<noteq> [] \<Longrightarrow> \<not> py_space (hd t) \<Longrightarrow> dropWhile py_space t = t" for t by (cases t) auto
  then show "strip s = s" using s keep [of s] keep [of "rev s"] by (simp add: strip_def hd_rev)
qed

lemma digit_groups_digits: "list_all is_digit ds \<Longrightarrow> digit_groups b ds = (ds \<noteq> [] \<or> b)"
  by (induction ds arbitrary: b) auto

lemma py_int_dump:
  assumes "length (digits (nat \<bar>i\<bar>)) \<le> 4300"
  shows "py_int (dump_int i) = Inr i"
proof -
  let ?ds = "digits (nat \<bar>i\<bar>)"
  have ds: "list_all is_digit ?ds" "?ds \<noteq> []" by (simp_all add: all_digits)
  then have keep: "filter is_digit ?ds = ?ds" "digit_groups False ?ds"
    by (simp_all add: filter_id_conv list_all_iff digit_groups_digits)
  have hd: "is_digit (hd ?ds)" "is_digit (last ?ds)" using ds by (auto simp: list_all_iff)
  have minus: "\<not> py_space (CHR ''-'')" "\<not> is_digit (CHR ''-'')" "\<not> is_digit (CHR ''+'')" by code_simp+
  have stripped: "strip (dump_int i) = dump_int i"
    using ds(2) hd minus by (intro strip_id) (auto simp: dump_int_def is_digit_not_space abs_if)
  obtain c r where c: "?ds = c # r" using ds(2) by (cases ?ds) auto
  with hd minus have c': "c \<noteq> CHR ''-''" "c \<noteq> CHR ''+''" by auto
  have num: "number_of (c # r) = nat \<bar>i\<bar>" using number_of_digits [of "nat \<bar>i\<bar>"] c by simp
  have shape: "dump_int i = (if i < 0 then CHR ''-'' # c # r else c # r)" using c by (simp add: dump_int_def abs_if split: if_splits)
  have keep': "filter is_digit (c # r) = c # r" "digit_groups False (c # r)" "length (c # r) \<le> 4300"
    using keep assms unfolding c by blast+
  show ?thesis
    unfolding py_int_def stripped unfolding shape Let_def using c' num by (simp add: keep' del: filter.simps digit_groups.simps list.size)
qed

lemma settings_of_nothing:
  "Settings [] = Inr s \<Longrightarrow> network_setting s = Signet \<and> default_fee_rate_sat_vb s = 2 \<and> init_bitcoin_network s = ''testnet'' \<and> \<not> is_live_configured s"
proof -
  have "get_network [] = Signet" by code_simp
  moreover have "py_int (dump_int DEFAULT_FEE_RATE_SAT_VB) = Inr 2" by code_simp
  moreover have "lower ''signet'' = ''signet''" by code_simp
  ultimately show "Settings [] = Inr s \<Longrightarrow> network_setting s = Signet \<and> default_fee_rate_sat_vb s = 2 \<and>
      init_bitcoin_network s = ''testnet'' \<and> \<not> is_live_configured s"
    by (auto simp: Settings_def getenv_def init_bitcoin_network_def is_live_configured_def)
qed

lemma init_bitcoin_network_known: "init_bitcoin_network s \<in> {''testnet'', ''regtest'', ''mainnet''}"
  by (simp add: init_bitcoin_network_def Let_def)

end
