(* ===== verification/Client.thy ===== *)
theory Client
  imports Witness_Program Transactions Config Domain_Core
begin

text \<open>
  The Esplora client of \<open>network/client.py\<close>.  The network is a function from requests to the text of the response, or an
  exception, over a state of its own; its HTTP library and the server behind it are not in the repository.  Answers are JSON
  values as the server sends them.  Floating-point numbers stand in the record \<open>floats\<close>: how a JSON value becomes a float and
  how a float text becomes an integer; amounts with a fraction are a TypeError of the model.
\<close>

section \<open>Floats and JSON values\<close>

record 'f floats =
  fl_of_json :: "json \<Rightarrow> 'f res"
  fl_trunc :: "string \<Rightarrow> int res"
  fl_default :: 'f

text \<open>\<open>v.get(k, default)\<close>, \<open>v[k]\<close>, \<open>list(v)\<close> and \<open>int(v)\<close> of a decoded answer.\<close>

definition json_get :: "string \<Rightarrow> json \<Rightarrow> json \<Rightarrow> json res" where
  "json_get k dflt v =
     (case v of JObj ps \<Rightarrow> Inr (case dict_get ps k of None \<Rightarrow> dflt | Some x \<Rightarrow> x) | _ \<Rightarrow> Inl AttributeError)"

definition json_item :: "string \<Rightarrow> json \<Rightarrow> json res" where
  "json_item k v =
     (case v of JObj ps \<Rightarrow> (case dict_get ps k of None \<Rightarrow> Inl KeyError | Some x \<Rightarrow> Inr x) | _ \<Rightarrow> Inl TypeError)"

fun json_iter :: "json \<Rightarrow> json list res" where
  "json_iter (JList vs) = Inr vs"
| "json_iter (JObj ps) = Inr (map (JStr \<circ> fst) ps)"
| "json_iter (JStr s) = Inr (map (\<lambda>c. JStr [c]) s)"
| "json_iter v = Inl TypeError"

fun json_int :: "'f floats \<Rightarrow> json \<Rightarrow> int res" where
  "json_int F (JInt i) = Inr i"
| "json_int F (JBool b) = Inr (if b then 1 else 0)"
| "json_int F (JStr s) = py_int s"
| "json_int F (JFloat t) = fl_trunc F t"
| "json_int F v = Inl TypeError"

fun json_amount :: "json \<Rightarrow> int res" where
  "json_amount (JInt i) = Inr i"
| "json_amount (JBool b) = Inr (if b then 1 else 0)"
| "json_amount v = Inl TypeError"

section \<open>Requests\<close>

datatype request = Get string | Post string string

type_synonym 's net = "request \<Rightarrow> 's \<Rightarrow> string res \<times> 's"

text \<open>
  The body of a method: the response is read inside the handler that turns an HTTPError or a ValueError into a NetworkError.
\<close>

definition attempt :: "'s net \<Rightarrow> request \<Rightarrow> (string \<Rightarrow> 'a res) \<Rightarrow> 's \<Rightarrow> 'a res \<times> 's" where
  "attempt net rq parse s =
     (case net rq s of (response, s') \<Rightarrow>
        (case rbind response parse of
           Inl e \<Rightarrow> (Inl (if e = HTTPError \<or> e = ValueError then NetworkError else e), s')
         | Inr x \<Rightarrow> (Inr x, s')))"

text \<open>\<open>@retry(max_attempts=2, delay_seconds=0.1, exceptions=(httpx.HTTPError,))\<close>, delays in milliseconds.\<close>

definition retried :: "'s net \<Rightarrow> request \<Rightarrow> (string \<Rightarrow> 'a res) \<Rightarrow> 's \<Rightarrow> 'a res \<times> int list \<times> 's" where
  "retried net rq parse s = retry 2 (\<lambda>e. e = HTTPError) (attempt net rq parse) 100 (\<lambda>delay. 2 * delay) s"

definition call :: "'s net \<Rightarrow> request \<Rightarrow> (string \<Rightarrow> 'a res) \<Rightarrow> 's \<Rightarrow> 'a res \<times> 's" where
  "call net rq parse s = (case retried net rq parse s of (r, delays, s') \<Rightarrow> (r, s'))"

definition parse_json :: "string \<Rightarrow> json res" where
  "parse_json text = (case loads text of None \<Rightarrow> Inl ValueError | Some v \<Rightarrow> Inr v)"

definition EsploraClient :: "string option \<Rightarrow> string \<Rightarrow> string" where
  "EsploraClient base_url configured = rstrip_slash (str_or base_url configured)"

definition get_block_height :: "'s net \<Rightarrow> string \<Rightarrow> 's \<Rightarrow> int res \<times> 's" where
  "get_block_height net base = call net (Get (base @ ESPLORA_TIP_HEIGHT_ENDPOINT)) (\<lambda>text. py_int (strip text))"

definition get_tip_hash :: "'s net \<Rightarrow> string \<Rightarrow> 's \<Rightarrow> string res \<times> 's" where
  "get_tip_hash net base = call net (Get (base @ ESPLORA_TIP_HASH_ENDPOINT)) (\<lambda>text. Inr (strip text))"

definition get_fee_estimates :: "'s net \<Rightarrow> string \<Rightarrow> 's \<Rightarrow> json res \<times> 's" where
  "get_fee_estimates net base = call net (Get (base @ ESPLORA_FEE_ESTIMATES_ENDPOINT)) parse_json"

definition get_address_stats :: "'s net \<Rightarrow> string \<Rightarrow> string \<Rightarrow> 's \<Rightarrow> json res \<times> 's" where
  "get_address_stats net base address = call net (Get (base @ ESPLORA_ADDRESS_ENDPOINT @ ''/'' @ address)) parse_json"

definition get_address_utxos :: "'s net \<Rightarrow> string \<Rightarrow> string \<Rightarrow> 's \<Rightarrow> json res \<times> 's" where
  "get_address_utxos net base address = call net (Get (base @ ESPLORA_ADDRESS_ENDPOINT @ ''/'' @ address @ ''/utxo'')) parse_json"

definition get_tx :: "'s net \<Rightarrow> string \<Rightarrow> string \<Rightarrow> 's \<Rightarrow> json res \<times> 's" where
  "get_tx net base txid = call net (Get (base @ ESPLORA_TX_ENDPOINT @ ''/'' @ txid)) parse_json"

definition get_tx_status :: "'s net \<Rightarrow> string \<Rightarrow> string \<Rightarrow> 's \<Rightarrow> json res \<times> 's" where
  "get_tx_status net base txid = call net (Get (base @ ESPLORA_TX_ENDPOINT @ ''/'' @ txid @ ''/status'')) parse_json"

definition broadcast_tx :: "'s net \<Rightarrow> string \<Rightarrow> string \<Rightarrow> 's \<Rightarrow> string res \<times> 's" where
  "broadcast_tx net base raw_tx_hex = call net (Post (base @ ESPLORA_TX_ENDPOINT) raw_tx_hex) (\<lambda>text. Inr (strip text))"

section \<open>Fee rates\<close>

text \<open>
  \<open>estimates\<close> is an object from targets to rates.  On any other value the code fails or falls back as its first operation on
  it does: \<open>in\<close> and iteration of a list or a text, a TypeError on the rest.
\<close>

fun is_substring :: "string \<Rightarrow> string \<Rightarrow> bool" where
  "is_substring p [] = (p = [])"
| "is_substring p (c # s) = (take (length p) (c # s) = p \<or> is_substring p s)"

definition odd_estimates :: "'f floats \<Rightarrow> string \<Rightarrow> json \<Rightarrow> 'f res" where
  "odd_estimates F key v =
     (case json_iter v of Inl e \<Rightarrow> Inl e
      | Inr vs \<Rightarrow>
          if (case v of JList ws \<Rightarrow> JStr key \<in> set ws | JStr s \<Rightarrow> is_substring key s | _ \<Rightarrow> False) then Inl TypeError
          else if vs = [] then Inl ValueError
          else (case fold_res (\<lambda>w u. rbind (json_int F w) (\<lambda>_. Inr u)) vs () of Inl e \<Rightarrow> Inl e | Inr _ \<Rightarrow> Inl TypeError))"

definition pick_estimate :: "'f floats \<Rightarrow> int \<Rightarrow> json \<Rightarrow> 'f res" where
  "pick_estimate F target_blocks v =
     (let key = dump_int target_blocks
      in case v of
        JObj estimates \<Rightarrow>
          (case dict_get estimates key of Some x \<Rightarrow> fl_of_json F x
           | None \<Rightarrow>
               rbind (fold_res (\<lambda>k ks. rbind (py_int k) (\<lambda>i. Inr (ks @ [i]))) (dict_keys estimates) []) (\<lambda>ks.
                 let int_keys = sort ks
                 in case find (\<lambda>k. target_blocks \<le> k) int_keys of
                      Some k \<Rightarrow> rbind (json_item (dump_int k) v) (fl_of_json F)
                    | None \<Rightarrow> (if int_keys = [] then Inl ValueError
                               else rbind (json_item (dump_int (last int_keys)) v) (fl_of_json F))))
      | _ \<Rightarrow> odd_estimates F key v)"

text \<open>The fallback: a NetworkError, HTTPError, ValueError or KeyError, and no estimate at all (a ValueError above).\<close>

definition get_recommended_fee_rate :: "'s net \<Rightarrow> 'f floats \<Rightarrow> string \<Rightarrow> int \<Rightarrow> 's \<Rightarrow> 'f res \<times> 's" where
  "get_recommended_fee_rate net F base target_blocks s =
     (case get_fee_estimates net base s of (r, s') \<Rightarrow>
        (case rbind r (pick_estimate F target_blocks) of
           Inr rate \<Rightarrow> (Inr rate, s')
         | Inl e \<Rightarrow> (if e \<in> {NetworkError, HTTPError, ValueError, KeyError} then Inr (fl_default F) else Inl e, s')))"

section \<open>Addresses and transactions\<close>

definition balance_of :: "'f floats \<Rightarrow> json \<Rightarrow> int res" where
  "balance_of F stats =
     rbind (json_get ''funded_txo_sum'' (JInt 0) stats) (\<lambda>v. rbind (json_int F v) (\<lambda>funded.
     rbind (json_get ''spent_txo_sum'' (JInt 0) stats) (\<lambda>w. rbind (json_int F w) (\<lambda>spent.
       Inr (funded - spent)))))"

definition get_address_balance :: "'s net \<Rightarrow> 'f floats \<Rightarrow> string \<Rightarrow> string \<Rightarrow> 's \<Rightarrow> (int \<times> int) res \<times> 's" where
  "get_address_balance net F base address s =
     apfst (\<lambda>r. rbind r (\<lambda>data.
       rbind (json_get ''chain_stats'' (JObj []) data) (\<lambda>chain.
       rbind (json_get ''mempool_stats'' (JObj []) data) (\<lambda>mempool.
       rbind (balance_of F chain) (\<lambda>confirmed. rbind (balance_of F mempool) (\<lambda>unconfirmed.
         Inr (confirmed, unconfirmed))))))) (get_address_stats net base address s)"

text \<open>\<open>str(utxos[0]["txid"])\<close>: \<open>repr\<close> is Python's text of a value that is not one.\<close>

definition first_utxo :: "'f floats \<Rightarrow> (json \<Rightarrow> string) \<Rightarrow> json \<Rightarrow> (string \<times> int) option res" where
  "first_utxo F repr utxos =
     (case utxos of
        JList (u # us) \<Rightarrow>
          rbind (json_item ''txid'' u) (\<lambda>txid. rbind (json_get ''vout'' (JInt 0) u) (\<lambda>n. rbind (json_int F n) (\<lambda>i.
            Inr (Some (case txid of JStr t \<Rightarrow> t | _ \<Rightarrow> repr txid, i)))))
      | _ \<Rightarrow> Inr None)"

definition derived_utxo :: "btclib \<Rightarrow> bytes \<Rightarrow> bytes \<Rightarrow> string \<times> int" where
  "derived_utxo L pubkey tip_bytes = (lib_b2x L (lib_Hash L (pubkey @ tip_bytes)), 0)"

text \<open>A tip hash that is no hexadecimal text is a ValueError nobody catches.\<close>

definition tip_utxo :: "'s net \<Rightarrow> btclib \<Rightarrow> string \<Rightarrow> bytes \<Rightarrow> 's \<Rightarrow> (string \<times> int) res \<times> 's" where
  "tip_utxo net L base pubkey s =
     (case get_tip_hash net base s of (r, s') \<Rightarrow>
        (case rbind r bytes_fromhex of
           Inr tip_bytes \<Rightarrow> (Inr (derived_utxo L pubkey tip_bytes), s')
         | Inl e \<Rightarrow> (if e = NetworkError then Inr (derived_utxo L pubkey (replicate 32 0)) else Inl e, s')))"

definition get_utxo_for_node ::
    "'s net \<Rightarrow> 'f floats \<Rightarrow> (json \<Rightarrow> string) \<Rightarrow> btclib \<Rightarrow> string \<Rightarrow> bytes \<Rightarrow> string \<Rightarrow> 's \<Rightarrow> (string \<times> int) res \<times> 's" where
  "get_utxo_for_node net F repr L base pubkey address s =
     (case get_address_utxos net base address s of (r, s') \<Rightarrow>
        (case rbind r (first_utxo F repr) of
           Inr (Some u) \<Rightarrow> (Inr u, s')
         | Inr None \<Rightarrow> tip_utxo net L base pubkey s'
         | Inl e \<Rightarrow> if e = NetworkError then tip_utxo net L base pubkey s' else (Inl e, s')))"

definition confirmed :: "json \<Rightarrow> bool res" where
  "confirmed status = rbind (json_get ''confirmed'' (JBool False) status) (\<lambda>v. Inr (json_true v))"

definition is_tx_confirmed :: "'s net \<Rightarrow> string \<Rightarrow> string \<Rightarrow> 's \<Rightarrow> bool res \<times> 's" where
  "is_tx_confirmed net base txid s = apfst (\<lambda>r. rbind r confirmed) (get_tx_status net base txid s)"

text \<open>
  \<open>poll_tx_confirmation\<close>: \<open>clock\<close> reads the time (in milliseconds) and \<open>sleep\<close> waits; each turn of the loop takes a unit of
  fuel, and \<open>None\<close> is a loop that has not ended.
\<close>

fun poll_loop ::
    "nat \<Rightarrow> ('s \<Rightarrow> json res \<times> 's) \<Rightarrow> ('s \<Rightarrow> int \<times> 's) \<Rightarrow> ('s \<Rightarrow> 's) \<Rightarrow> int \<Rightarrow> 's \<Rightarrow> (json res \<times> 's) option" where
  "poll_loop 0 status clock sleep deadline s = None"
| "poll_loop (Suc n) status clock sleep deadline s =
     (case clock s of (now, s1) \<Rightarrow>
        if deadline \<le> now then Some (Inl TimeoutError, s1)
        else (case status s1 of (r, s2) \<Rightarrow>
          (case rbind r (\<lambda>v. rbind (confirmed v) (\<lambda>b. Inr (v, b))) of
             Inr (v, True) \<Rightarrow> Some (Inr v, s2)
           | Inr (v, False) \<Rightarrow> poll_loop n status clock sleep deadline (sleep s2)
           | Inl e \<Rightarrow> if e = NetworkError then poll_loop n status clock sleep deadline (sleep s2) else Some (Inl e, s2))))"

definition poll_tx_confirmation ::
    "nat \<Rightarrow> 's net \<Rightarrow> ('s \<Rightarrow> int \<times> 's) \<Rightarrow> (int \<Rightarrow> 's \<Rightarrow> 's) \<Rightarrow> string \<Rightarrow> string \<Rightarrow> int \<Rightarrow> int \<Rightarrow> 's \<Rightarrow> (json res \<times> 's) option" where
  "poll_tx_confirmation fuel net clock sleep base txid max_timeout_ms poll_interval_ms s =
     (case clock s of (start, s') \<Rightarrow>
        poll_loop fuel (get_tx_status net base txid) clock (sleep poll_interval_ms) (start + max_timeout_ms) s')"

section \<open>Funding a channel\<close>

definition DEFAULT_FUNDING_TX_VBYTES :: int where
  "DEFAULT_FUNDING_TX_VBYTES = 250"

definition utxo_value :: "json \<Rightarrow> int res" where
  "utxo_value u = rbind (json_get ''value'' (JInt 0) u) json_amount"

definition utxo_confirmed :: "json \<Rightarrow> bool res" where
  "utxo_confirmed u = rbind (json_get ''status'' (JObj []) u) confirmed"

definition confirmed_utxos :: "json list \<Rightarrow> json list res" where
  "confirmed_utxos us =
     rbind (fold_res (\<lambda>u cs. rbind (utxo_confirmed u) (\<lambda>b. Inr (if b then cs @ [u] else cs))) us []) (\<lambda>cs.
       Inr (if cs = [] then us else cs))"

text \<open>Coins are taken in the order of the answer until the target is reached, or all of them.\<close>

fun select_utxos :: "int \<Rightarrow> json list \<Rightarrow> json list \<Rightarrow> int \<Rightarrow> (json list \<times> int) res" where
  "select_utxos target [] selected accumulated = Inr (selected, accumulated)"
| "select_utxos target (u # us) selected accumulated =
     rbind (utxo_value u) (\<lambda>v.
       if target \<le> accumulated + v then Inr (selected @ [u], accumulated + v)
       else select_utxos target us (selected @ [u]) (accumulated + v))"

definition add_utxo_input :: "btclib \<Rightarrow> json \<Rightarrow> tx_builder \<Rightarrow> tx_builder res" where
  "add_utxo_input L u b =
     rbind (json_item ''txid'' u) (\<lambda>txid. rbind (json_item ''vout'' u) (\<lambda>n.
       case txid of JStr t \<Rightarrow> rbind (json_amount n) (\<lambda>i. add_input L t i 0xFFFFFFFF b) | _ \<Rightarrow> Inl AttributeError))"

definition add_funding_outputs :: "btclib \<Rightarrow> int \<Rightarrow> int \<Rightarrow> bytes \<Rightarrow> bytes \<Rightarrow> tx_builder \<Rightarrow> tx_builder" where
  "add_funding_outputs L capacity_sat change_sat redeem_script funder_pubkey b =
     (let b' = add_p2wsh_output L capacity_sat redeem_script b
      in if BITCOIN_DUST_LIMIT_SAT \<le> change_sat then add_p2wpkh_output L change_sat funder_pubkey b' else b')"

text \<open>The signature of one input, over the unsigned transaction.\<close>

definition sign_utxo :: "btclib \<Rightarrow> bytes \<Rightarrow> tx \<Rightarrow> nat \<times> json \<Rightarrow> tx_builder \<Rightarrow> tx_builder res" where
  "sign_utxo L secret unsigned_tx iu b =
     rbind (utxo_value (snd iu)) (\<lambda>v.
     rbind (sign_sighash L secret
       (lib_sighash L (create_p2wpkh_scriptCode L (lib_pub L secret)) unsigned_tx (fst iu) SIGHASH_ALL v) 1) (\<lambda>sig.
       Inr (add_witness_stack [sig, lib_pub L secret] b)))"

definition build_funding ::
    "btclib \<Rightarrow> bytes \<Rightarrow> bytes \<Rightarrow> json list \<Rightarrow> int \<Rightarrow> int \<Rightarrow> tx res" where
  "build_funding L secret redeem_script utxos capacity_sat change_sat =
     (let finish = add_funding_outputs L capacity_sat change_sat redeem_script (lib_pub L secret)
      in rbind (fold_res (add_utxo_input L) utxos (TransactionBuilder 0)) (\<lambda>b.
         let unsigned_tx = build (finish b)
         in rbind (fold_res (add_utxo_input L) utxos (TransactionBuilder 0)) (\<lambda>b'.
            rbind (fold_res (sign_utxo L secret unsigned_tx) (zip [0..<length utxos] utxos) (finish b')) (\<lambda>b''.
              Inr (build b'')))))"

text \<open>
  The transaction for the coins of an answer, the coins it spends and the capacity it pays.  \<open>estimated_fee_sat\<close> is
  \<open>int(DEFAULT_FUNDING_TX_VBYTES * fee_rate_sat_vb)\<close>, a product with a float.
\<close>

definition plan_funding ::
    "btclib \<Rightarrow> bytes \<Rightarrow> bytes \<Rightarrow> int \<Rightarrow> int \<Rightarrow> json \<Rightarrow> (tx \<times> bytes \<times> json list \<times> int) res" where
  "plan_funding L secret counterparty_pubkey capacity_sat estimated_fee_sat utxos =
     (if \<not> json_true utxos then Inl NetworkError
      else rbind (json_iter utxos) (\<lambda>us. rbind (confirmed_utxos us) (\<lambda>confirmed.
        rbind (select_utxos (capacity_sat + estimated_fee_sat) confirmed [] 0) (\<lambda>(selected, accumulated).
          if accumulated < estimated_fee_sat + BITCOIN_DUST_LIMIT_SAT then Inl NetworkError
          else
            let capacity = (if accumulated - estimated_fee_sat < capacity_sat
                  then max BITCOIN_DUST_LIMIT_SAT (accumulated - estimated_fee_sat) else capacity_sat);
                redeem_script = create_multisig_2of2 L (lib_pub L secret) counterparty_pubkey;
                change_sat = accumulated - capacity - estimated_fee_sat
            in rbind (build_funding L secret redeem_script selected capacity change_sat) (\<lambda>t.
                 Inr (t, redeem_script, selected, capacity))))))"

definition fund_channel_on_chain ::
    "'s net \<Rightarrow> btclib \<Rightarrow> (bytes \<Rightarrow> string) \<Rightarrow> (tx \<Rightarrow> bytes) \<Rightarrow> string \<Rightarrow> bytes \<Rightarrow> bytes \<Rightarrow> int \<Rightarrow> int \<Rightarrow> 's \<Rightarrow>
      (string \<times> int \<times> bytes) res \<times> 's" where
  "fund_channel_on_chain net L p2wpkh_address serialize base secret counterparty_pubkey capacity_sat estimated_fee_sat s =
     (case get_address_utxos net base (p2wpkh_address (lib_pub L secret)) s of (r, s') \<Rightarrow>
        (case rbind r (plan_funding L secret counterparty_pubkey capacity_sat estimated_fee_sat) of
           Inl e \<Rightarrow> (Inl e, s')
         | Inr (t, redeem_script, selected, capacity) \<Rightarrow>
             apfst (\<lambda>r. rbind r (\<lambda>txid. Inr (txid, 0, redeem_script))) (broadcast_tx net base (lib_b2x L (serialize t)) s')))"

section \<open>Requests are made once\<close>

text \<open>
  The handler inside a method turns every HTTPError into a NetworkError before the decorator around it sees one, so nothing is
  ever tried again.
\<close>

lemma attempt_no_http_error: "attempt net rq parse s \<noteq> (Inl HTTPError, s')"
  by (auto simp: attempt_def split: prod.splits sum.splits)

lemma retried_once: "retried net rq parse s = (fst (attempt net rq parse s), [], snd (attempt net rq parse s))"
proof -
  obtain r s' where r: "attempt net rq parse s = (r, s')" by (cases "attempt net rq parse s")
  moreover have "r \<noteq> Inl HTTPError" using attempt_no_http_error [of net rq parse s s'] r by auto
  ultimately show ?thesis by (cases r) (simp_all add: retried_def retry_def numeral_2_eq_2)
qed

lemma call_attempt: "call net rq parse s = attempt net rq parse s"
  by (simp add: call_def retried_once)

section \<open>Polling ends\<close>

text \<open>Reading the clock and asking the server do not turn time back, and sleeping advances it.\<close>

lemma poll_loop_ends:
  assumes clock: "\<And>s. \<exists>s'. clock s = (tm s, s') \<and> tm s \<le> tm s'" and status: "\<And>s. tm s \<le> tm (snd (status s))"
    and sleep: "\<And>s. tm s < tm (sleep s)"
  shows "deadline - tm s < int n \<Longrightarrow> 0 < n \<Longrightarrow> \<exists>r. poll_loop n status clock sleep deadline s = Some r"
proof (induction n arbitrary: s)
  case (Suc n)
  obtain s1 where s1: "clock s = (tm s, s1)" "tm s \<le> tm s1" using clock by blast
  obtain r s2 where s2: "status s1 = (r, s2)" by (cases "status s1")
  then have "tm s < tm (sleep s2)" using s1(2) status [of s1] sleep [of s2] by simp
  then have again: "tm s < deadline \<Longrightarrow> \<exists>r. poll_loop n status clock sleep deadline (sleep s2) = Some r"
    using Suc.prems by (intro Suc.IH) auto
  then show ?case using s1(1) s2 by (auto simp: not_le split: sum.split bool.split)
qed simp

lemma poll_tx_confirmation_ends:
  assumes clock: "\<And>s. \<exists>s'. clock s = (tm s, s') \<and> tm s \<le> tm s'"
    and net: "\<And>rq s. tm s \<le> tm (snd (net rq s))" and sleep: "\<And>s. tm s < tm (sleep interval s)" and "nat timeout < fuel"
  shows "\<exists>r. poll_tx_confirmation fuel net clock sleep base txid timeout interval s = Some r"
proof -
  have status: "tm s \<le> tm (snd (get_tx_status net base txid s))" for s
    using net [of s "Get (base @ ESPLORA_TX_ENDPOINT @ ''/'' @ txid @ ''/status'')"]
    by (auto simp: get_tx_status_def call_attempt attempt_def split: prod.split sum.split)
  obtain s' where s': "clock s = (tm s, s')" "tm s \<le> tm s'" using clock by blast
  have "\<exists>r. poll_loop fuel (get_tx_status net base txid) clock (sleep interval) (tm s + timeout) s' = Some r"
    by (rule poll_loop_ends [OF clock status sleep]) (use s'(2) assms(4) in auto)
  then show ?thesis by (simp add: poll_tx_confirmation_def s'(1))
qed

section \<open>The funding transaction\<close>












end
