(* ===== verification/App.thy ===== *)
theory App
  imports Node Storage Client "HOL-Library.Multiset"
begin

text \<open>
  The state of the command line program (\<open>cli/app.py\<close>): how the nodes and their channels are kept across runs in the state file,
  the balances it reports, and the command that funds a channel on chain.  The dictionary of nodes is the list of nodes of the
  world; loading a state puts new channel objects on the heap.  What the commands print is left out.
\<close>

section \<open>Loading and saving the nodes\<close>

definition node_at :: "world \<Rightarrow> string \<Rightarrow> nat option" where
  "node_at w a = find (\<lambda>i. node_alias (nodes w ! i) = a) [0..<length (nodes w)]"

definition attach :: "string \<Rightarrow> nat \<Rightarrow> node \<Rightarrow> node" where
  "attach peer_alias ref n = n\<lparr>node_channels := dict_set peer_alias ref (node_channels n)\<rparr>"

definition sync_channel :: "channel \<Rightarrow> world \<Rightarrow> world" where
  "sync_channel c w =
     (case (node_at w (sender_alias c), node_at w (receiver_alias c)) of
        (Some i, Some j) \<Rightarrow>
          let ref = length (chans w)
          in update_node j (attach (sender_alias c) ref) (update_node i (attach (receiver_alias c) ref) (w\<lparr>chans := chans w @ [c]\<rparr>))
      | _ \<Rightarrow> w)"

definition sync_nodes :: "network_state \<Rightarrow> world \<Rightarrow> world" where
  "sync_nodes n w = fold sync_channel (map snd (channels_of n)) w"

definition sync_nodes_with_storage :: "disk \<Rightarrow> int \<Rightarrow> string \<Rightarrow> world \<Rightarrow> directory \<Rightarrow> unit res \<times> world \<times> directory" where
  "sync_nodes_with_storage os now name w d =
     (case load_state os now name d of
        (Inl e, d') \<Rightarrow> (Inl e, w, d')
      | (Inr n, d') \<Rightarrow> (Inr (), sync_nodes n w, d'))"

text \<open>The channels of all nodes, each as often as it is linked, and the dictionary of them by identifier.\<close>

definition node_peers :: "world \<Rightarrow> node \<Rightarrow> (string, channel) pydict" where
  "node_peers w n = map (\<lambda>(p, ref). (p, chans w ! ref)) (node_channels n)"

definition linked_channels :: "world \<Rightarrow> channel list" where
  "linked_channels w = concat (map (\<lambda>n. map snd (node_peers w n)) (nodes w))"

definition save_nodes :: "world \<Rightarrow> network_state" where
  "save_nodes w = \<lparr>channels_of = fold (\<lambda>c d. dict_set (channel_id c) c d) (linked_channels w) [], preimages_of = []\<rparr>"

definition save_nodes_to_storage :: "(json \<Rightarrow> string) \<Rightarrow> disk \<Rightarrow> string \<Rightarrow> world \<Rightarrow> directory \<Rightarrow> directory res" where
  "save_nodes_to_storage prt os name w d = save_state prt os name (save_nodes w) d"

definition channel_balance :: "string \<Rightarrow> channel \<Rightarrow> int" where
  "channel_balance a c =
     (if sender_alias c = a then balance_sender_sat c else if receiver_alias c = a then balance_receiver_sat c else 0)"

definition get_node_offchain_balance :: "world \<Rightarrow> node \<Rightarrow> int" where
  "get_node_offchain_balance w n = dict_sum (channel_balance (node_alias n)) (node_peers w n)"

section \<open>Funding a channel\<close>

datatype fund_outcome = Exit_1 | Funded string | Not_funded

text \<open>The fee rate is its default, 2.0.  A NetworkError is printed; other exceptions end the program.\<close>

definition fund_channel ::
    "'s net \<Rightarrow> btclib \<Rightarrow> (bytes \<Rightarrow> string) \<Rightarrow> (tx \<Rightarrow> bytes) \<Rightarrow> string \<Rightarrow> (json \<Rightarrow> string) \<Rightarrow> disk \<Rightarrow> string \<Rightarrow>
      string \<Rightarrow> string \<Rightarrow> int \<Rightarrow> world \<Rightarrow> directory \<Rightarrow> 's \<Rightarrow> fund_outcome res \<times> world \<times> directory \<times> 's" where
  "fund_channel net L address serialize base prt os name funder counterparty capacity w d s =
     (case (node_at w funder, node_at w counterparty) of
        (Some i, Some j) \<Rightarrow>
          (case fund_channel_on_chain net L address serialize base (node_secret (nodes w ! i)) (node_pubkey (nodes w ! j))
                  capacity (DEFAULT_FUNDING_TX_VBYTES * 2) s of
             (Inl e, s') \<Rightarrow> (if e = NetworkError then Inr Not_funded else Inl e, w, d, s')
           | (Inr (txid, out, redeem_script), s') \<Rightarrow>
               (case open_channel i j capacity w of (w', ref) \<Rightarrow>
                  let w'' = w'\<lparr>chans := (chans w')[ref := (chans w' ! ref)\<lparr>funding_txid := Some txid, funding_vout := Some out\<rparr>]\<rparr>
                  in (case save_nodes_to_storage prt os name w'' d of
                        Inl e \<Rightarrow> (Inl e, w'', d, s')
                      | Inr d' \<Rightarrow> (Inr (Funded txid), w'', d', s'))))
      | _ \<Rightarrow> (Inr Exit_1, w, d, s))"

section \<open>What a node sees of its peers\<close>

definition peer_channel :: "world \<Rightarrow> nat \<Rightarrow> string \<Rightarrow> channel option" where
  "peer_channel w i = dict_get (node_peers w (nodes w ! i))"

definition refs_ok :: "world \<Rightarrow> bool" where
  "refs_ok w \<longleftrightarrow> distinct (map node_alias (nodes w)) \<and>
     (\<forall>i < length (nodes w). wf_dict (node_channels (nodes w ! i)) \<and>
       (\<forall>p ref. dict_get (node_channels (nodes w ! i)) p = Some ref \<longrightarrow> ref < length (chans w)))"

lemma get_node_peers: "dict_get (node_peers w n) p = map_option (\<lambda>ref. chans w ! ref) (dict_get (node_channels n) p)"
  by (simp add: node_peers_def map_of_map)

lemma wf_node_peers: "wf_dict (node_channels n) \<Longrightarrow> wf_dict (node_peers w n)"
  by (simp add: wf_dict_def node_peers_def comp_def split_beta)

lemma node_at_Some:
  assumes "distinct (map node_alias (nodes w))"
  shows "node_at w a = Some i \<longleftrightarrow> i < length (nodes w) \<and> node_alias (nodes w ! i) = a"
proof
  assume "node_at w a = Some i"
  then show "i < length (nodes w) \<and> node_alias (nodes w ! i) = a" by (auto simp: node_at_def find_Some_iff)
next
  assume i: "i < length (nodes w) \<and> node_alias (nodes w ! i) = a"
  then have "node_at w a \<noteq> None" by (auto simp: node_at_def find_None_iff)
  then obtain k where k: "node_at w a = Some k" by blast
  then have "k < length (nodes w) \<and> node_alias (nodes w ! k) = a" by (auto simp: node_at_def find_Some_iff)
  with i k show "node_at w a = Some i" using distinct_alias_inj [OF assms] by metis
qed

lemma node_at_None: "node_at w a = None \<longleftrightarrow> a \<notin> node_alias ` set (nodes w)"
  by (fastforce simp: node_at_def find_None_iff in_set_conv_nth image_iff)

text \<open>One loaded channel is the one its two ends see of each other; nothing else changes.\<close>

definition joins :: "world \<Rightarrow> channel \<Rightarrow> nat \<Rightarrow> string \<Rightarrow> bool" where
  "joins w c i p \<longleftrightarrow> {sender_alias c, receiver_alias c} \<subseteq> node_alias ` set (nodes w) \<and>
     {sender_alias c, receiver_alias c} = {node_alias (nodes w ! i), p}"

lemma sync_channel_step:
  assumes ok: "refs_ok w" and i: "i < length (nodes w)"
  shows "peer_channel (sync_channel c w) i p = (if joins w c i p then Some c else peer_channel w i p)"
    and "refs_ok (sync_channel c w)" and "map node_alias (nodes (sync_channel c w)) = map node_alias (nodes w)"
proof -
  note dist = ok [unfolded refs_ok_def, THEN conjunct1]
  let ?s = "sender_alias c" and ?r = "receiver_alias c"
  show "peer_channel (sync_channel c w) i p = (if joins w c i p then Some c else peer_channel w i p)"
    and "refs_ok (sync_channel c w)" and "map node_alias (nodes (sync_channel c w)) = map node_alias (nodes w)"
  proof (atomize (full), cases "node_at w ?s = None \<or> node_at w ?r = None")
    case True
    then have "sync_channel c w = w" by (auto simp: sync_channel_def split: option.split)
    moreover have "\<not> joins w c i p" using True by (auto simp: joins_def node_at_None)
    ultimately show "peer_channel (sync_channel c w) i p = (if joins w c i p then Some c else peer_channel w i p) \<and>
        refs_ok (sync_channel c w) \<and> map node_alias (nodes (sync_channel c w)) = map node_alias (nodes w)"
      using ok by simp
  next
    case False
    then obtain k l where k: "node_at w ?s = Some k" and l: "node_at w ?r = Some l" by auto
    then have kl: "k < length (nodes w)" "node_alias (nodes w ! k) = ?s" "l < length (nodes w)" "node_alias (nodes w ! l) = ?r"
      using node_at_Some [OF dist] by auto
    then have mem: "?s \<in> node_alias ` set (nodes w)" "?r \<in> node_alias ` set (nodes w)" by (metis imageI nth_mem)+
    define ref where "ref = length (chans w)"
    let ?w = "sync_channel c w"
    have w: "chans ?w = chans w @ [c]" "length (nodes ?w) = length (nodes w)"
      by (simp_all add: sync_channel_def k l Let_def)
    have node: "nodes ?w ! m =
        (let n = (if m = k then attach ?r ref (nodes w ! k) else nodes w ! m) in if m = l then attach ?s ref n else n)" for m
      using kl by (simp add: sync_channel_def k l Let_def nth_update_node ref_def)
    have same: "node_alias (nodes ?w ! m) = node_alias (nodes w ! m)" for m by (simp add: node attach_def Let_def)
    have get: "dict_get (node_channels (nodes ?w ! m)) q =
        (if m = l \<and> q = ?s \<or> m = k \<and> q = ?r then Some ref else dict_get (node_channels (nodes w ! m)) q)" for m q
      by (simp add: node attach_def Let_def)
    have inj: "node_alias (nodes w ! m) = node_alias (nodes w ! n) \<longleftrightarrow> m = n" if "m < length (nodes w)" "n < length (nodes w)" for m n
      using distinct_alias_inj [OF dist that] .
    have "i = l \<and> p = ?s \<or> i = k \<and> p = ?r \<longleftrightarrow> joins w c i p"
      using kl i inj [OF i kl(1)] inj [OF i kl(3)] mem by (auto simp: joins_def doubleton_eq_iff)
    moreover have "dict_get (node_channels (nodes w ! i)) p = Some r \<Longrightarrow> r < length (chans w)" for r
      using ok i by (auto simp: refs_ok_def)
    ultimately have "peer_channel ?w i p = (if joins w c i p then Some c else peer_channel w i p)"
      by (cases "dict_get (node_channels (nodes w ! i)) p") (auto simp: peer_channel_def get_node_peers get w ref_def nth_append)
    moreover have aliases: "map node_alias (nodes ?w) = map node_alias (nodes w)"
      by (rule nth_equalityI) (simp_all add: w same)
    moreover have "refs_ok ?w"
      unfolding refs_ok_def aliases w(2)
    proof (intro conjI allI impI)
      show "distinct (map node_alias (nodes w))" by (rule dist)
      fix m assume m: "m < length (nodes w)"
      then show "wf_dict (node_channels (nodes ?w ! m))"
        using ok kl by (simp add: node attach_def Let_def refs_ok_def)
      fix q r assume "dict_get (node_channels (nodes ?w ! m)) q = Some r"
      then show "r < length (chans ?w)" using ok m by (auto simp: get w ref_def refs_ok_def less_SucI split: if_splits)
    qed
    ultimately show "peer_channel ?w i p = (if joins w c i p then Some c else peer_channel w i p) \<and>
        refs_ok ?w \<and> map node_alias (nodes ?w) = map node_alias (nodes w)" by blast
  qed
qed

lemma sync_fold:
  assumes ok: "refs_ok w" and i: "i < length (nodes w)"
  shows "map node_alias (nodes (fold sync_channel cs w)) = map node_alias (nodes w) \<and> refs_ok (fold sync_channel cs w) \<and>
    peer_channel (fold sync_channel cs w) i p =
      (case find (\<lambda>c. joins w c i p) (rev cs) of None \<Rightarrow> peer_channel w i p | Some c \<Rightarrow> Some c)"
proof (induction cs rule: rev_induct)
  case (snoc c cs)
  let ?w = "fold sync_channel cs w"
  have aliases: "map node_alias (nodes ?w) = map node_alias (nodes w)" and ok': "refs_ok ?w" using snoc by blast+
  have len: "length (nodes ?w) = length (nodes w)" using arg_cong [OF aliases, of length] by simp
  have "node_alias ` set (nodes ?w) = node_alias ` set (nodes w)" using arg_cong [OF aliases, of set] by simp
  moreover have "node_alias (nodes ?w ! i) = node_alias (nodes w ! i)"
    using arg_cong [OF aliases, of "\<lambda>as. as ! i"] i len by simp
  ultimately have "joins ?w c i p = joins w c i p" by (simp add: joins_def)
  with snoc sync_channel_step [OF ok', of i c] i len show ?case by (simp add: aliases)
qed (use ok in simp)

section \<open>A restart\<close>

lemma dict_sum_cong:
  assumes "wf_dict d" and "wf_dict e" and "dict_get d = dict_get e"
  shows "dict_sum f d = dict_sum f e"
proof -
  have "set d = set e" using assms by (simp add: wf_dict_def map_of_inject_set)
  moreover have "distinct d" "distinct e" using assms(1,2) by (simp_all add: wf_dict_def distinct_map)
  ultimately have "mset d = mset e" by (simp add: set_eq_iff_mset_eq_distinct)
  then show ?thesis by (metis dict_sum_def mset_map sum_mset_sum_list)
qed

lemma saved_channels:
  assumes "inj_on key (set cs)"
  shows "snd ` set (fold (\<lambda>c d. dict_set (key c) c d) cs []) = set cs \<and> wf_dict (fold (\<lambda>c d. dict_set (key c) c d) cs [])"
  using assms
proof (induction cs rule: rev_induct)
  case (snoc c cs)
  let ?d = "fold (\<lambda>c d. dict_set (key c) c d) cs []"
  have wf: "wf_dict ?d" and vals: "snd ` set ?d = set cs" using snoc by (simp_all add: inj_on_insert)
  have keys: "(k, x) \<in> set (fold (\<lambda>c d. dict_set (key c) c d) cs []) \<Longrightarrow> k = key x" for k x cs
    by (induction cs rule: rev_induct) (auto dest: subsetD [OF set_dict_set])
  have "snd ` set (dict_set (key c) c ?d) = insert c (set cs)"
  proof (cases "c \<in> set cs")
    case True
    then obtain k where "(k, c) \<in> set ?d" using vals by force
    then have "dict_get ?d (key c) = Some c" using keys wf by (metis dict_get_iff)
    then have "dict_get (dict_set (key c) c ?d) = dict_get ?d" by (simp add: fun_upd_idem)
    then have "set (dict_set (key c) c ?d) = set ?d"
      using wf by (intro map_of_inject_set [THEN iffD1]) (simp_all add: wf_dict_def [symmetric])
    with True vals show ?thesis by auto
  next
    case False
    have "dict_get ?d (key c) = None"
    proof (rule ccontr)
      assume "dict_get ?d (key c) \<noteq> None"
      then obtain x where x: "(key c, x) \<in> set ?d" by (auto dest: dict_get_SomeD)
      then have "key c = key x" "x \<in> set cs" using keys vals by force+
      with snoc.prems False show False by (auto simp: inj_on_def)
    qed
    with vals show ?thesis by (simp add: set_dict_set_fresh)
  qed
  with wf show ?case by simp
qed simp

text \<open>In a consistent network the channel two nodes share is the only linked one between them.\<close>

definition mutual :: "world \<Rightarrow> bool" where
  "mutual w \<longleftrightarrow> distinct (map node_alias (nodes w)) \<and>
     (\<forall>i < length (nodes w). \<forall>p ref. dict_get (node_channels (nodes w ! i)) p = Some ref \<longrightarrow>
        (\<exists>j. node_alias (nodes w ! j) = p \<and> shares w i j ref))"

lemma network_mutual: "network_ok w \<Longrightarrow> mutual w"
  by (simp add: network_ok_def mutual_def)

lemma linked_channel_iff:
  assumes "mutual w" and refs: "refs_ok w" and i: "i < length (nodes w)"
  shows "peer_channel w i p = Some c \<longleftrightarrow> c \<in> set (linked_channels w) \<and> joins w c i p"
proof
  note dist = assms(1) [unfolded mutual_def, THEN conjunct1]
  assume "peer_channel w i p = Some c"
  then obtain ref where ref: "dict_get (node_channels (nodes w ! i)) p = Some ref" "c = chans w ! ref"
    by (auto simp: peer_channel_def get_node_peers)
  then obtain j where j: "node_alias (nodes w ! j) = p" "shares w i j ref"
    using assms(1) i unfolding mutual_def by blast
  have "(p, ref) \<in> set (node_channels (nodes w ! i))" using ref(1) by (rule dict_get_SomeD)
  then have "c \<in> set (linked_channels w)"
    using i ref(2) by (force simp: linked_channels_def node_peers_def intro!: bexI [of _ "nodes w ! i"])
  then show "c \<in> set (linked_channels w) \<and> joins w c i p"
    using j ref(2) by (auto simp: joins_def shares_def)
next
  note dist = assms(1) [unfolded mutual_def, THEN conjunct1]
  assume c: "c \<in> set (linked_channels w) \<and> joins w c i p"
  then obtain n q ref where n: "n \<in> set (nodes w)" "(q, ref) \<in> set (node_channels n)" "c = chans w ! ref"
    by (auto simp: linked_channels_def node_peers_def)
  then obtain k where k: "k < length (nodes w)" "(q, ref) \<in> set (node_channels (nodes w ! k))" "c = chans w ! ref"
    by (auto simp: in_set_conv_nth)
  then have "dict_get (node_channels (nodes w ! k)) q = Some ref"
    using refs by (simp add: refs_ok_def dict_get_iff)
  then obtain l where l: "node_alias (nodes w ! l) = q" "shares w k l ref"
    using assms(1) k(1) unfolding mutual_def by blast
  then have "{node_alias (nodes w ! k), node_alias (nodes w ! l)} = {node_alias (nodes w ! i), p}"
    using c k(3) by (auto simp: joins_def shares_def)
  then consider "node_alias (nodes w ! k) = node_alias (nodes w ! i)" "p = node_alias (nodes w ! l)"
    | "node_alias (nodes w ! l) = node_alias (nodes w ! i)" "p = node_alias (nodes w ! k)"
    by (auto simp: doubleton_eq_iff)
  then have "dict_get (node_channels (nodes w ! i)) p = Some ref"
  proof cases
    case 1
    then have "k = i" using distinct_alias_inj [OF dist k(1) i] by simp
    with 1 l(2) show ?thesis by (simp add: shares_def)
  next
    case 2
    moreover have "l < length (nodes w)" using l(2) by (simp add: shares_def)
    ultimately have "l = i" using distinct_alias_inj [OF dist _ i] by simp
    with 2 l(2) show ?thesis by (simp add: shares_def)
  qed
  then show "peer_channel w i p = Some c" using k(3) by (simp add: peer_channel_def get_node_peers)
qed

lemma linked_channels_peers:
  assumes "refs_ok w"
  shows "set (linked_channels w) = {c. \<exists>i < length (nodes w). \<exists>p. peer_channel w i p = Some c}"
proof -
  have "c \<in> set (linked_channels w) \<longleftrightarrow> (\<exists>i < length (nodes w). \<exists>p. peer_channel w i p = Some c)" for c
  proof -
    have "c \<in> set (linked_channels w) \<longleftrightarrow> (\<exists>i < length (nodes w). \<exists>p. (p, c) \<in> set (node_peers w (nodes w ! i)))"
      by (force simp: linked_channels_def in_set_conv_nth [of _ "nodes w"])
    moreover have "(p, c) \<in> set (node_peers w (nodes w ! i)) \<longleftrightarrow> peer_channel w i p = Some c" if "i < length (nodes w)" for i p
      using assms that wf_node_peers [of "nodes w ! i" w] by (simp add: refs_ok_def peer_channel_def dict_get_iff)
    ultimately show ?thesis by blast
  qed
  then show ?thesis by blast
qed

lemma sync_save:
  assumes ok: "mutual w" and refs: "refs_ok w" and ids: "inj_on channel_id (set (linked_channels w))"
    and fresh: "map node_alias (nodes w') = map node_alias (nodes w)" and refs': "refs_ok w'"
    and old: "\<And>i p. i < length (nodes w) \<Longrightarrow> peer_channel w' i p = None \<or> peer_channel w' i p = peer_channel w i p"
    and i: "i < length (nodes w)"
  shows "peer_channel (sync_nodes (save_nodes w) w') i = peer_channel w i \<and> refs_ok (sync_nodes (save_nodes w) w') \<and>
    map node_alias (nodes (sync_nodes (save_nodes w) w')) = map node_alias (nodes w)"
proof -
  let ?cs = "map snd (channels_of (save_nodes w))"
  have len: "length (nodes w') = length (nodes w)" using arg_cong [OF fresh, of length] by simp
  have cs: "set ?cs = set (linked_channels w)" using saved_channels [OF ids] by (simp add: save_nodes_def)
  have "node_alias ` set (nodes w') = node_alias ` set (nodes w)" using arg_cong [OF fresh, of set] by simp
  moreover have "node_alias (nodes w' ! i) = node_alias (nodes w ! i)"
    using arg_cong [OF fresh, of "\<lambda>as. as ! i"] i len by simp
  ultimately have joins: "joins w' c i p = joins w c i p" for c p by (simp add: joins_def)
  have "peer_channel (sync_nodes (save_nodes w) w') i p = peer_channel w i p" for p
  proof (cases "find (\<lambda>c. joins w c i p) (rev ?cs)")
    case None
    then have "\<not> (c \<in> set (linked_channels w) \<and> joins w c i p)" for c
      unfolding cs [symmetric] by (auto simp: find_None_iff simp del: set_map)
    then have "peer_channel w i p = None" using linked_channel_iff [OF ok refs i] by (metis option.exhaust)
    moreover have "peer_channel (sync_nodes (save_nodes w) w') i p = peer_channel w' i p"
      using None sync_fold [OF refs', of i ?cs p] i len by (simp add: sync_nodes_def joins)
    moreover have "peer_channel w' i p = None \<or> peer_channel w' i p = peer_channel w i p" by (rule old [OF i])
    ultimately show ?thesis by auto
  next
    case (Some c)
    then obtain n where n: "n < length (rev ?cs)" "joins w c i p" "c = rev ?cs ! n" unfolding find_Some_iff by blast
    then have "c \<in> set (rev ?cs)" using nth_mem by blast
    then have "c \<in> set ?cs" by (simp only: set_rev)
    with n(2) have "c \<in> set (linked_channels w) \<and> joins w c i p" by (simp only: cs)
    then have "peer_channel w i p = Some c" using linked_channel_iff [OF ok refs i] by blast
    with Some show ?thesis using sync_fold [OF refs', of i ?cs p] i len by (simp add: sync_nodes_def joins)
  qed
  with sync_fold [OF refs', of i ?cs] i len show ?thesis by (simp add: sync_nodes_def fresh fun_eq_iff)
qed

text \<open>Reachable networks keep their dictionaries well formed.\<close>

definition wf_nodes :: "world \<Rightarrow> bool" where
  "wf_nodes w \<longleftrightarrow> (\<forall>n \<in> set (nodes w). wf_dict (node_channels n))"

lemma wf_nodes_update:
  "wf_nodes w \<Longrightarrow> i < length (nodes w) \<Longrightarrow> (\<And>n. wf_dict (node_channels n) \<Longrightarrow> wf_dict (node_channels (f n))) \<Longrightarrow>
    wf_nodes (update_node i f w)"
  by (auto simp: wf_nodes_def update_node_def dest!: subsetD [OF set_update_subset_insert])

lemma wf_nodes_chans [simp]: "wf_nodes (w\<lparr>chans := cs\<rparr>) = wf_nodes w"
  by (simp add: wf_nodes_def)

lemma network_wf_nodes: "network L E w \<Longrightarrow> wf_nodes w"
proof (induction rule: network.induct)
  case (start ns)
  then show ?case by (simp add: wf_nodes_def)
next
  case (open_chan w i j capacity)
  then show ?case
    unfolding open_channel_def Let_def fst_conv by (intro wf_nodes_update) (simp_all add: link_channel_def)
next
  case (invoice w i random)
  then show ?case
    unfolding create_invoice_def Let_def case_prod_unfold fst_conv by (intro wf_nodes_update) simp_all
next
  case (pay w i amount p hid hash lock random)
  have secret: "wf_nodes (update_node i (remember_secret p n x) (w\<lparr>chans := cs\<rparr>))" for n x cs
    using pay.IH pay.hyps(2) by (intro wf_nodes_update) simp_all
  show ?case using pay.IH by (simp add: route_htlc_payment_def Let_def secret split: sum.split)
next
  case (fulfill w i p hid x)
  then show ?case by (simp add: fulfill_htlc_def split: sum.split)
next
  case (refund w i p hid height)
  then show ?case by (simp add: node_refund_htlc_def split: sum.split)
qed

lemma network_refs_ok:
  assumes "network L E w"
  shows "refs_ok w"
proof -
  have "ref < length (chans w)" if "i < length (nodes w)" "dict_get (node_channels (nodes w ! i)) p = Some ref" for i p ref
    using network_okD [OF network_network_ok [OF assms] that(1), of p ref] that(2) by (simp add: get_channel_with_def)
  then show ?thesis
    using network_network_ok [OF assms] network_wf_nodes [OF assms] by (simp add: refs_ok_def network_ok_def wf_nodes_def)
qed

text \<open>
  Property C36: a restart keeps the channels.  After the nodes of a reachable network are saved, a new process whose nodes have
  the same names and no channels, loading the state file, gives every node the channels it had, peer by peer, and the same
  off-chain balance.  Channels must have different identifiers, which are built from the two names.
\<close>

theorem restart_keeps_channels:
  assumes "json_printer prt" and "network L E w" and "inj_on channel_id (set (linked_channels w))"
    and "list_all wf_channel (linked_channels w)"
    and "with_suffix_tmp name \<noteq> name" and "can_read os" and "save_nodes_to_storage prt os' name w d = Inr d'"
    and "map node_alias (nodes w0) = map node_alias (nodes w)" and "list_all (\<lambda>n. node_channels n = []) (nodes w0)"
    and "sync_nodes_with_storage os now name w0 d' = (r, w1, d'')" and "i < length (nodes w)"
  shows "r = Inr () \<and> d'' = d' \<and> peer_channel w1 i = peer_channel w i \<and>
    get_node_offchain_balance w1 (nodes w1 ! i) = get_node_offchain_balance w (nodes w ! i)"
proof -
  note ok = network_network_ok [OF assms(2)] and refs = network_refs_ok [OF assms(2)]
  have saved: "snd ` set (channels_of (save_nodes w)) = set (linked_channels w)" "wf_dict (channels_of (save_nodes w))"
    using saved_channels [OF assms(3)] by (simp_all add: save_nodes_def)
  have "list_all (\<lambda>(k, c). wf_channel c) (channels_of (save_nodes w))"
    using assms(4) saved(1) by (force simp: list_all_iff)
  with saved(2) have "wf_network (save_nodes w)" by (simp add: wf_network_def) (simp add: save_nodes_def)
  from json_printer.save_load [OF assms(1) this assms(5,6) assms(7) [unfolded save_nodes_to_storage_def]] assms(10)
  have r: "r = Inr ()" "d'' = d'" and w1: "w1 = sync_nodes (save_nodes w) w0"
    by (simp_all add: sync_nodes_with_storage_def)
  have len: "length (nodes w0) = length (nodes w)" using arg_cong [OF assms(8), of length] by simp
  have empty: "node_channels (nodes w0 ! k) = []" if "k < length (nodes w)" for k using assms(9) len that by (simp add: list_all_iff)
  have refs0: "refs_ok w0" using ok assms(8) empty len by (simp add: refs_ok_def network_ok_def)
  have "peer_channel w0 k p = None \<or> peer_channel w0 k p = peer_channel w k p" if "k < length (nodes w)" for k p
    using empty [OF that] by (simp add: peer_channel_def get_node_peers)
  from sync_save [OF network_mutual [OF ok] refs assms(3,8) refs0 this assms(11)]
  have peers: "peer_channel w1 i = peer_channel w i" and refs1: "refs_ok w1"
    and aliases: "map node_alias (nodes w1) = map node_alias (nodes w)" by (simp_all add: w1)
  have len: "length (nodes w1) = length (nodes w)" using arg_cong [OF aliases, of length] by simp
  have "node_alias (nodes w1 ! i) = node_alias (nodes w ! i)"
    using arg_cong [OF aliases, of "\<lambda>as. as ! i"] assms(11) len by simp
  moreover have "dict_sum f (node_peers w1 (nodes w1 ! i)) = dict_sum f (node_peers w (nodes w ! i))" for f
    using peers refs refs1 assms(11) len by (intro dict_sum_cong wf_node_peers) (simp_all add: refs_ok_def peer_channel_def)
  ultimately show ?thesis using r peers by (simp add: get_node_offchain_balance_def)
qed

text \<open>
  A restored channel cannot be paid over: loading links the channels but makes no entry for the peer among the revocation
  secrets.  The first payment deducts the amount and stores the HTLC, then raises a KeyError.
\<close>

lemma attach_secrets [simp]: "revocation_secrets (attach p ref n) = revocation_secrets n"
  by (simp add: attach_def)

lemma sync_secrets: "revocation_secrets (nodes (sync_nodes n w) ! i) = revocation_secrets (nodes w ! i)"
proof -
  have one: "revocation_secrets (nodes (update_node k (attach p ref) w) ! i) = revocation_secrets (nodes w ! i)" for k p ref w
    by (cases "k < length (nodes w)") (simp_all add: update_node_def nth_list_update list_update_beyond)
  have step: "revocation_secrets (nodes (sync_channel c w) ! i) = revocation_secrets (nodes w ! i)" for c w
    by (simp add: sync_channel_def Let_def one split: option.split)
  have "revocation_secrets (nodes (fold sync_channel cs w) ! i) = revocation_secrets (nodes w ! i)" for cs
    by (induction cs rule: rev_induct) (simp_all add: step)
  then show ?thesis by (simp add: sync_nodes_def)
qed

lemma restored_channel_raises:
  assumes "get_channel_with (nodes w ! i) p = Inr ref" and "dict_get (revocation_secrets (nodes w ! i)) p = None"
    and "add_htlc (chans w ! ref) (new_htlc hid hash amount lock (node_alias (nodes w ! i))) (Some (node_alias (nodes w ! i))) = Inr c"
    and "generate_revocation_secret E random = Inr sp"
  shows "route_htlc_payment L E i p amount hash lock hid random w = (w\<lparr>chans := (chans w)[ref := c]\<rparr>, Inl KeyError)"
  using assms by (cases sp) (simp add: route_htlc_payment_def)

lemma restart_keeps_channels_witness:
  "peer_channel (fst (snd (sync_nodes_with_storage healthy 7 ''s.json''
     \<lparr>chans = [], nodes = [plain_node ''Alice'', plain_node ''Bob'']\<rparr> [(''s.json'', state_bytes dumps (save_nodes pair_world))]))) 1 ''Alice'' =
   Some (chans pair_world ! 0)"
proof -
  have tmp: "with_suffix_tmp ''s.json'' = ''s.tmp''" by code_simp
  have linked: "linked_channels pair_world = [chans pair_world ! 0, chans pair_world ! 0]" by code_simp
  have start: "map node_alias (nodes pair_world) = [''Alice'', ''Bob'']" "peer_channel pair_world 1 ''Alice'' = Some (chans pair_world ! 0)"
    "wf_channel (chans pair_world ! 0)" "length (nodes pair_world) = 2"
    by code_simp+
  have saved: "save_nodes_to_storage dumps healthy ''s.json'' pair_world [] = Inr [(''s.json'', state_bytes dumps (save_nodes pair_world))]"
    by (simp add: save_nodes_to_storage_def save_state_def healthy_def tmp rename_file_def)
  let ?w0 = "\<lparr>chans = [], nodes = [plain_node ''Alice'', plain_node ''Bob'']\<rparr>"
  obtain r w1 d'' where sync: "sync_nodes_with_storage healthy 7 ''s.json'' ?w0 [(''s.json'', state_bytes dumps (save_nodes pair_world))] = (r, w1, d'')"
    by (metis prod_cases3)
  have "peer_channel w1 1 = peer_channel pair_world 1"
    by (rule restart_keeps_channels [OF std_printer pair_network [of wire_lib line_curve] _ _ _ _ saved _ _ sync, THEN conjunct2, THEN conjunct2, THEN conjunct1])
      (use start in \<open>simp_all add: linked tmp healthy_def plain_node_def\<close>)
  with sync start(2) show ?thesis by simp
qed

end
