(* ===== verification/Simulation.thy ===== *)
theory Simulation
  imports App Routing
begin

text \<open>
  The payment of the demonstration \<open>cli/demos/routing.py\<close>, from end to end: channels from Alice to Bob and from Bob to Dave with
  their funding transactions, the search for a route, Dave's invoice, the HTLC over both hops, the commitment transaction, the
  redemption on the way back and the signed closing transaction.  The state is the world of nodes and the network of the client;
  what is printed is left out, and saving the nodes is \<open>save_nodes_to_storage\<close>.
\<close>

section \<open>Calls in sequence\<close>

text \<open>A call returns or raises, in a state of the world and of the network.\<close>

type_synonym ('s, 'a) action = "world \<times> 's \<Rightarrow> 'a res \<times> (world \<times> 's)"

definition then_do :: "('s, 'a) action \<Rightarrow> ('a \<Rightarrow> ('s, 'b) action) \<Rightarrow> ('s, 'b) action" where
  "then_do m f t = (case m t of (Inl e, t') \<Rightarrow> (Inl e, t') | (Inr x, t') \<Rightarrow> f x t')"

definition lift_res :: "'a res \<Rightarrow> ('s, 'a) action" where
  "lift_res r t = (r, t)"

definition on_net :: "('s \<Rightarrow> 'a res \<times> 's) \<Rightarrow> ('s, 'a) action" where
  "on_net f t = (case f (snd t) of (r, s) \<Rightarrow> (r, (fst t, s)))"

definition on_world :: "(world \<Rightarrow> 'a call) \<Rightarrow> ('s, 'a) action" where
  "on_world f t = (case f (fst t) of (w, r) \<Rightarrow> (r, (w, snd t)))"

definition get_world :: "('s, world) action" where
  "get_world t = (Inr (fst t), t)"

definition find_node :: "string \<Rightarrow> ('s, nat) action" where
  "find_node a t = (case node_at (fst t) a of None \<Rightarrow> (Inl KeyError, t) | Some i \<Rightarrow> (Inr i, t))"

section \<open>The demonstration\<close>

definition DEFAULT_SIMULATION_CAPACITY_SAT :: int where "DEFAULT_SIMULATION_CAPACITY_SAT = 100000"
definition DEFAULT_SIMULATION_PAYMENT_SAT :: int where "DEFAULT_SIMULATION_PAYMENT_SAT = 25000"
definition DEFAULT_HTLC_LOCKTIME_T1_DELTA :: int where "DEFAULT_HTLC_LOCKTIME_T1_DELTA = 144"
definition DEFAULT_HTLC_LOCKTIME_T2_DELTA :: int where "DEFAULT_HTLC_LOCKTIME_T2_DELTA = 100"

definition set_funding :: "nat \<Rightarrow> string \<Rightarrow> int \<Rightarrow> world \<Rightarrow> world" where
  "set_funding ref txid out w = w\<lparr>chans := (chans w)[ref := (chans w ! ref)\<lparr>funding_txid := Some txid, funding_vout := Some out\<rparr>]\<rparr>"

text \<open>\<open>txid_of\<close> is the library's \<open>GetTxid\<close>, \<open>hexlify\<close> the \<open>hex\<close> of bytes.\<close>

definition open_and_fund ::
    "btclib \<Rightarrow> (tx \<Rightarrow> bytes) \<Rightarrow> nat \<Rightarrow> nat \<Rightarrow> string \<Rightarrow> int \<Rightarrow> ('s, nat \<times> tx \<times> bytes) action" where
  "open_and_fund L txid_of i j utxo_txid utxo_vout =
     then_do (on_world (\<lambda>w. let (w', ref) = open_channel i j DEFAULT_SIMULATION_CAPACITY_SAT w in (w', Inr ref))) (\<lambda>ref.
     then_do get_world (\<lambda>w.
     then_do (lift_res (create_funding_transaction L utxo_txid utxo_vout (node_pubkey (nodes w ! i)) (node_pubkey (nodes w ! j))
         DEFAULT_SIMULATION_CAPACITY_SAT)) (\<lambda>(t, script).
     then_do (on_world (\<lambda>w. (set_funding ref (hexlify (txid_of t)) 0 w, Inr ()))) (\<lambda>_.
       lift_res (Inr (ref, t, script))))))"

definition node_utxo ::
    "'s net \<Rightarrow> 'f floats \<Rightarrow> (json \<Rightarrow> string) \<Rightarrow> btclib \<Rightarrow> string \<Rightarrow> nat \<Rightarrow> ('s, string \<times> int) action" where
  "node_utxo net F repr L base i =
     then_do get_world (\<lambda>w. on_net (get_utxo_for_node net F repr L base (node_pubkey (nodes w ! i)) (node_address (nodes w ! i))))"

record demo_setup =
  su_alice :: nat
  su_bob :: nat
  su_dave :: nat
  su_ab :: nat
  su_bd :: nat
  su_tx_ab :: tx
  su_script_ab :: bytes
  su_tx_bd :: tx

definition open_demo ::
    "'s net \<Rightarrow> 'f floats \<Rightarrow> (json \<Rightarrow> string) \<Rightarrow> btclib \<Rightarrow> (tx \<Rightarrow> bytes) \<Rightarrow> string \<Rightarrow> ('s, demo_setup) action" where
  "open_demo net F repr L txid_of base =
     then_do (find_node ''Alice'') (\<lambda>a. then_do (find_node ''Bob'') (\<lambda>b. then_do (find_node ''Dave'') (\<lambda>d.
     then_do (node_utxo net F repr L base a) (\<lambda>(txid_a, vout_a).
     then_do (node_utxo net F repr L base b) (\<lambda>(txid_b, vout_b).
     then_do (open_and_fund L txid_of a b txid_a vout_a) (\<lambda>(ab, tx_ab, script_ab).
     then_do (open_and_fund L txid_of b d txid_b vout_b) (\<lambda>(bd, tx_bd, script_bd).
       lift_res (Inr \<lparr>su_alice = a, su_bob = b, su_dave = d, su_ab = ab, su_bd = bd, su_tx_ab = tx_ab,
         su_script_ab = script_ab, su_tx_bd = tx_bd\<rparr>))))))))"

text \<open>Broadcasting a funding transaction and waiting for it; every exception is printed only.  \<open>None\<close>: the polling has not ended.\<close>

definition announce ::
    "nat \<Rightarrow> 's net \<Rightarrow> ('s \<Rightarrow> int \<times> 's) \<Rightarrow> (int \<Rightarrow> 's \<Rightarrow> 's) \<Rightarrow> string \<Rightarrow> (tx \<Rightarrow> bytes) \<Rightarrow> tx \<Rightarrow> 's \<Rightarrow> 's option" where
  "announce fuel net clock sleep base serialize t s =
     (case broadcast_tx net base (hexlify (serialize t)) s of
        (Inl e, s') \<Rightarrow> Some s'
      | (Inr txid, s') \<Rightarrow> map_option snd (poll_tx_confirmation fuel net clock sleep base txid 30000 2000 s'))"

definition announce_all ::
    "bool \<Rightarrow> nat \<Rightarrow> 's net \<Rightarrow> ('s \<Rightarrow> int \<times> 's) \<Rightarrow> (int \<Rightarrow> 's \<Rightarrow> 's) \<Rightarrow> string \<Rightarrow> (tx \<Rightarrow> bytes) \<Rightarrow> demo_setup \<Rightarrow> 's \<Rightarrow> 's option" where
  "announce_all live fuel net clock sleep base serialize su s =
     (if live then Option.bind (announce fuel net clock sleep base serialize (su_tx_ab su) s)
          (announce fuel net clock sleep base serialize (su_tx_bd su))
      else Some s)"

definition demo_query :: route_query where
  "demo_query = \<lparr>rq_source = ''Alice'', rq_target = ''Dave'', rq_amount = DEFAULT_SIMULATION_PAYMENT_SAT, rq_base_locktime = 100,
     rq_cltv_delta = DEFAULT_CLTV_DELTA_BLOCKS, rq_base_fee = DEFAULT_ROUTING_BASE_FEE_SAT,
     rq_fee_ppm = DEFAULT_ROUTING_FEE_RATE_PPM\<rparr>"

text \<open>The closing transaction, signed over its unsigned form by both parties.\<close>

definition signed_close :: "btclib \<Rightarrow> string \<Rightarrow> node \<Rightarrow> node \<Rightarrow> int \<Rightarrow> int \<Rightarrow> bytes \<Rightarrow> tx res" where
  "signed_close L txid alice bob alice_sat bob_sat script =
     rbind (create_cooperative_close_transaction L txid 0 (node_pubkey alice) (node_pubkey bob) alice_sat bob_sat [] [] []) (\<lambda>t.
     let sighash = lib_sighash L script t 0 SIGHASH_ALL DEFAULT_SIMULATION_CAPACITY_SAT
     in rbind (sign_sighash L (node_secret alice) sighash 1) (\<lambda>sig1. rbind (sign_sighash L (node_secret bob) sighash 1) (\<lambda>sig2.
       create_cooperative_close_transaction L txid 0 (node_pubkey alice) (node_pubkey bob) alice_sat bob_sat sig1 sig2 script)))"

definition pay_demo ::
    "'s net \<Rightarrow> btclib \<Rightarrow> 'p eclib \<Rightarrow> string \<Rightarrow> bytes \<Rightarrow> bytes \<Rightarrow> bytes \<Rightarrow> demo_setup \<Rightarrow> ('s, payment_route \<times> tx \<times> tx) action" where
  "pay_demo net L E base random1 random2 random3 su =
     (let a = su_alice su; b = su_bob su; d = su_dave su; ab = su_ab su; bd = su_bd su;
          amount = DEFAULT_SIMULATION_PAYMENT_SAT;
          alice_sat = DEFAULT_SIMULATION_CAPACITY_SAT - amount
      in then_do get_world (\<lambda>w.
         then_do (lift_res (find_path (chans w) (add_channel (chans w) bd (add_channel (chans w) ab [])) demo_query)) (\<lambda>route.
         then_do (on_world (\<lambda>w. let (w', inv) = create_invoice L d random1 w in (w', Inr inv))) (\<lambda>(preimage_hex, hash_hex).
         then_do (on_net (get_block_height net base)) (\<lambda>height.
         then_do (on_world (route_htlc_payment L E a ''Bob'' amount hash_hex (height + DEFAULT_HTLC_LOCKTIME_T1_DELTA) ''htlc_ab_1'' random2)) (\<lambda>_.
         then_do (lift_res (bytes_fromhex hash_hex)) (\<lambda>hash.
         then_do get_world (\<lambda>w.
         let alice = nodes w ! a; bob = nodes w ! b; txid = str_or (funding_txid (chans w ! ab)) [];
             script = create_htlc L (node_pubkey alice) (node_pubkey bob) hash (height + DEFAULT_HTLC_LOCKTIME_T1_DELTA)
         in then_do (lift_res (create_commitment_transaction L txid 0 (node_pubkey alice) (node_pubkey bob) alice_sat 0 [(amount, script)] 0)) (\<lambda>unsigned_commit.
         then_do (lift_res (sign_commitment_transaction L unsigned_commit 0 (su_script_ab su) DEFAULT_SIMULATION_CAPACITY_SAT
             (node_secret alice) (node_secret bob))) (\<lambda>commit.
         then_do (on_world (route_htlc_payment L E b ''Dave'' amount hash_hex (height + DEFAULT_HTLC_LOCKTIME_T2_DELTA) ''htlc_bd_1'' random3)) (\<lambda>_.
         then_do (on_world (fulfill_htlc L b ''Dave'' ''htlc_bd_1'' preimage_hex)) (\<lambda>_.
         then_do (on_world (fulfill_htlc L a ''Bob'' ''htlc_ab_1'' preimage_hex)) (\<lambda>_.
         then_do (lift_res (signed_close L txid alice bob alice_sat amount (su_script_ab su))) (\<lambda>close.
           lift_res (Inr (route, commit, close))))))))))))))))"

definition run_simulate_demo ::
    "bool \<Rightarrow> nat \<Rightarrow> 's net \<Rightarrow> ('s \<Rightarrow> int \<times> 's) \<Rightarrow> (int \<Rightarrow> 's \<Rightarrow> 's) \<Rightarrow> 'f floats \<Rightarrow> (json \<Rightarrow> string) \<Rightarrow> btclib \<Rightarrow> 'p eclib \<Rightarrow>
      (tx \<Rightarrow> bytes) \<Rightarrow> (tx \<Rightarrow> bytes) \<Rightarrow> string \<Rightarrow> bytes \<Rightarrow> bytes \<Rightarrow> bytes \<Rightarrow> world \<times> 's \<Rightarrow>
      ((payment_route \<times> tx \<times> tx) res \<times> (world \<times> 's)) option" where
  "run_simulate_demo live fuel net clock sleep F repr L E txid_of serialize base random1 random2 random3 t =
     (case open_demo net F repr L txid_of base t of
        (Inl e, t') \<Rightarrow> Some (Inl e, t')
      | (Inr su, (w, s)) \<Rightarrow>
          map_option (\<lambda>s'. pay_demo net L E base random1 random2 random3 su (w, s'))
            (announce_all live fuel net clock sleep base serialize su s))"

section \<open>Steps\<close>

lemma then_do_steps:
  "f w = (w', Inr x) \<Longrightarrow> then_do (on_world f) g (w, s) = g x (w', s)"
  "h s = (Inr y, s') \<Longrightarrow> then_do (on_net h) k (w, s) = k y (w, s')"
  "r = Inr z \<Longrightarrow> then_do (lift_res r) l (w, s) = l z (w, s)"
  "then_do get_world m (w, s) = m w (w, s)"
  by (simp_all add: then_do_def on_world_def on_net_def lift_res_def get_world_def)

lemma then_do_Inr: "then_do m f t = (Inr y, t'') \<longleftrightarrow> (\<exists>x t'. m t = (Inr x, t') \<and> f x t' = (Inr y, t''))"
  by (auto simp: then_do_def split: prod.splits sum.splits)

text \<open>Calls that leave what the payment uses of the nodes.\<close>

definition same_nodes :: "world \<Rightarrow> world \<Rightarrow> bool" where
  "same_nodes w w' \<longleftrightarrow> length (nodes w') = length (nodes w) \<and>
     (\<forall>k. node_alias (nodes w' ! k) = node_alias (nodes w ! k) \<and> node_secret (nodes w' ! k) = node_secret (nodes w ! k) \<and>
       node_pubkey (nodes w' ! k) = node_pubkey (nodes w ! k) \<and> node_channels (nodes w' ! k) = node_channels (nodes w ! k) \<and>
       (\<forall>p. dict_get (revocation_secrets (nodes w' ! k)) p = None \<longrightarrow> dict_get (revocation_secrets (nodes w ! k)) p = None))"

definition linked :: "world \<Rightarrow> nat \<Rightarrow> string \<Rightarrow> nat \<Rightarrow> bool" where
  "linked w i p ref \<longleftrightarrow> i < length (nodes w) \<and> ref < length (chans w) \<and> dict_get (node_channels (nodes w ! i)) p = Some ref \<and>
     dict_get (revocation_secrets (nodes w ! i)) p \<noteq> None"

lemma same_nodes_chans [simp]: "same_nodes w (w'\<lparr>chans := cs\<rparr>) = same_nodes w w'" "same_nodes w w"
  by (simp_all add: same_nodes_def)

lemma same_nodes_trans: "same_nodes w w' \<Longrightarrow> same_nodes w' w'' \<Longrightarrow> same_nodes w w''"
  by (simp add: same_nodes_def)

lemma linked_same: "same_nodes w w' \<Longrightarrow> length (chans w') = length (chans w) \<Longrightarrow> linked w i p ref \<Longrightarrow> linked w' i p ref"
  unfolding same_nodes_def linked_def by metis

lemma invoice_step:
  assumes "i < length (nodes w)"
  shows "\<exists>w'. create_invoice L i random w = (w', (lib_b2x L random, lib_b2x L (sha256 random))) \<and> same_nodes w w' \<and> chans w' = chans w"
  using assms by (auto simp: create_invoice_def generate_secret_def Let_def same_nodes_def nth_update_node)

lemma remember_secret_keys [simp]:
  "node_secret (remember_secret p k x n) = node_secret n" "node_pubkey (remember_secret p k x n) = node_pubkey n"
  by (simp_all add: remember_secret_def)

lemma route_step:
  assumes "linked w i p ref" and "a = node_alias (nodes w ! i)"
    and "add_htlc (chans w ! ref) (new_htlc hid hash amount lock a) (Some a) = Inr c" and "generate_revocation_secret E random = Inr sp"
  shows "\<exists>w'. route_htlc_payment L E i p amount hash lock hid random w = (w', Inr True) \<and> same_nodes w w' \<and>
    chans w' = (chans w)[ref := c]"
proof -
  let ?w = "w\<lparr>chans := (chans w)[ref := c]\<rparr>"
  have "route_htlc_payment L E i p amount hash lock hid random w =
      (update_node i (remember_secret p (sequence_number c) (lib_b2x L (fst sp))) ?w, Inr True)"
    using assms by (cases sp) (simp add: route_htlc_payment_def Let_def linked_def get_channel_with_def)
  moreover have "same_nodes w (update_node i (remember_secret p n x) ?w)" for n x
    using assms(1) by (simp add: linked_def same_nodes_def nth_update_node)
  ultimately show ?thesis by simp
qed

lemma fulfill_step:
  assumes "linked w i p ref" and "redeem_htlc L (chans w ! ref) hid x = Inr (c, h)"
  shows "fulfill_htlc L i p hid x w = (w\<lparr>chans := (chans w)[ref := c]\<rparr>, Inr True)"
  using assms by (simp add: fulfill_htlc_def linked_def get_channel_with_def)

text \<open>Opening and funding a channel between different nodes.\<close>

definition demo_channel :: "string \<Rightarrow> node \<Rightarrow> node \<Rightarrow> channel" where
  "demo_channel txid self peer =
     (new_channel self peer DEFAULT_SIMULATION_CAPACITY_SAT)\<lparr>funding_txid := Some txid, funding_vout := Some 0\<rparr>"

definition opened_world :: "nat \<Rightarrow> nat \<Rightarrow> world \<Rightarrow> world" where
  "opened_world i j w = fst (open_channel i j DEFAULT_SIMULATION_CAPACITY_SAT w)"

lemma opened_world:
  "open_channel i j DEFAULT_SIMULATION_CAPACITY_SAT w = (opened_world i j w, length (chans w))"
  "chans (opened_world i j w) = chans w @ [new_channel (nodes w ! i) (nodes w ! j) DEFAULT_SIMULATION_CAPACITY_SAT]"
  "length (nodes (opened_world i j w)) = length (nodes w)"
  by (simp_all add: opened_world_def open_channel_def Let_def)

lemma nth_opened_world:
  assumes "i < length (nodes w)" "j < length (nodes w)" "i \<noteq> j"
  shows "nodes (opened_world i j w) ! k =
    (if k = j then link_channel (node_alias (nodes w ! i)) (length (chans w)) (nodes w ! j)
     else if k = i then link_channel (node_alias (nodes w ! j)) (length (chans w)) (nodes w ! i) else nodes w ! k)"
  using assms by (simp add: opened_world_def open_channel_def Let_def nth_update_node)

lemma open_and_fund_run:
  "open_and_fund L txid_of i j utxo out (w, s) =
     (case create_funding_transaction L utxo out (node_pubkey (nodes (opened_world i j w) ! i)) (node_pubkey (nodes (opened_world i j w) ! j))
         DEFAULT_SIMULATION_CAPACITY_SAT of
        Inl e \<Rightarrow> (Inl e, (opened_world i j w, s))
      | Inr (t, script) \<Rightarrow> (Inr (length (chans w), t, script),
          (set_funding (length (chans w)) (hexlify (txid_of t)) 0 (opened_world i j w), s)))"
  by (simp add: open_and_fund_def then_do_def on_world_def get_world_def lift_res_def opened_world(1) split: sum.split prod.split)

lemma open_and_fund_step:
  assumes "open_and_fund L txid_of i j utxo out (w, s) = (Inr (ref, t, script), (w', s'))"
    and "i < length (nodes w)" "j < length (nodes w)" "i \<noteq> j"
  shows "ref = length (chans w)" "s' = s"
    "chans w' = chans w @ [demo_channel (hexlify (txid_of t)) (nodes w ! i) (nodes w ! j)]"
    "script = create_multisig_2of2 L (node_pubkey (nodes w ! i)) (node_pubkey (nodes w ! j))"
    "nodes w' = nodes (opened_world i j w)"
proof -
  have pub: "node_pubkey (nodes (opened_world i j w) ! k) = node_pubkey (nodes w ! k)" for k
    by (simp add: nth_opened_world [OF assms(2-4)] link_channel_def)
  obtain t' script' where made: "create_funding_transaction L utxo out (node_pubkey (nodes w ! i)) (node_pubkey (nodes w ! j))
      DEFAULT_SIMULATION_CAPACITY_SAT = Inr (t', script')"
    using assms(1) by (auto simp: open_and_fund_run pub split: sum.splits)
  then have run: "ref = length (chans w)" "t' = t" "script' = script" "s' = s"
      "w' = set_funding (length (chans w)) (hexlify (txid_of t)) 0 (opened_world i j w)"
    using assms(1) made by (auto simp: open_and_fund_run pub)
  show "ref = length (chans w)" "s' = s" by (fact run)+
  show "chans w' = chans w @ [demo_channel (hexlify (txid_of t)) (nodes w ! i) (nodes w ! j)]" "nodes w' = nodes (opened_world i j w)"
    by (simp_all add: run set_funding_def opened_world(2) demo_channel_def)
  show "script = create_multisig_2of2 L (node_pubkey (nodes w ! i)) (node_pubkey (nodes w ! j))"
    using made by (auto simp: run create_funding_transaction_def Let_def rbind_eq_Inr)
qed

section \<open>The closing transaction\<close>

lemma signed_close_verifies:
  assumes "wallet_lib L" and "node_pubkey A = lib_pub L (node_secret A)" "node_pubkey B = lib_pub L (node_secret B)"
    and "length (node_pubkey A) < 65536" "length (node_pubkey B) < 65536"
    and "script = create_multisig_2of2 L (node_pubkey A) (node_pubkey B)" "script \<noteq> []"
    and "lib_outpoint L txid 0 = Inr op" and "BITCOIN_DUST_LIMIT_SAT \<le> x" "BITCOIN_DUST_LIMIT_SAT \<le> y"
  shows "\<exists>t. signed_close L txid A B x y script = Inr t \<and> total_out t = x + y \<and>
    verify_transaction_witness L E t 0 (p2wsh_address_spk L script) DEFAULT_SIMULATION_CAPACITY_SAT = Inr True"
proof -
  let ?b = "add_p2wpkh_output L y (node_pubkey B) (add_p2wpkh_output L x (node_pubkey A)
    \<lparr>b_inputs = [\<lparr>prevout = op, nSequence = 0xFFFFFFFF\<rparr>], b_outputs = [], b_witnesses = [], b_locktime = 0\<rparr>)"
  have input: "add_input L txid 0 0xFFFFFFFF (TransactionBuilder 0) =
      Inr \<lparr>b_inputs = [\<lparr>prevout = op, nSequence = 0xFFFFFFFF\<rparr>], b_outputs = [], b_witnesses = [], b_locktime = 0\<rparr>"
    by (simp add: add_input_def TransactionBuilder_def assms(8))
  let ?h = "lib_sighash L script (build ?b) 0 SIGHASH_ALL DEFAULT_SIMULATION_CAPACITY_SAT"
  let ?s = "\<lambda>n. lib_sign L (node_secret n) ?h @ [1]"
  define s1 s2 where "s1 = (if node_pubkey A < node_pubkey B then ?s A else ?s B)" and "s2 = (if node_pubkey A < node_pubkey B then ?s B else ?s A)"
  define t where "t = build (add_witness_stack (witness_multisig_2of2 s1 s2 script) ?b)"
  have sign: "sign_sighash L k ?h 1 = Inr (lib_sign L k ?h @ [1])" for k by (simp add: sign_sighash_def)
  have run: "signed_close L txid A B x y script = Inr t"
    using assms(7) by (simp add: signed_close_def create_cooperative_close_transaction_def input sign Let_def t_def s1_def s2_def)
  have t: "vin t = vin (build ?b)" "vout t = vout (build ?b)" "nLockTime t = nLockTime (build ?b)" "wit t = [witness_multisig_2of2 s1 s2 script]"
    by (simp_all add: t_def build_def add_witness_stack_def add_p2wpkh_output_def)
  have "valid_sig L (spend_ctx script t 0 DEFAULT_SIMULATION_CAPACITY_SAT) (lib_pub L k) (lib_sign L k ?h @ [1])" for k
    by (rule wallet_lib.signed_valid [OF assms(1) sign t(1-3)])
  then have "valid_sig L (spend_ctx script t 0 DEFAULT_SIMULATION_CAPACITY_SAT) (min (node_pubkey A) (node_pubkey B)) s1 \<and>
      valid_sig L (spend_ctx script t 0 DEFAULT_SIMULATION_CAPACITY_SAT) (max (node_pubkey A) (node_pubkey B)) s2"
    by (auto simp: s1_def s2_def min_def max_def assms(2,3))
  moreover have "total_out t = x + y"
    using assms(9,10) by (simp add: t(2) total_out_def build_def add_p2wpkh_output_def)
  ultimately show ?thesis
    using run multisig_spend_verifies [OF assms(1,4,5,6), where t = t and k = 0 and ?s1.0 = s1 and ?s2.0 = s2] t(4) by simp
qed

section \<open>The route\<close>

definition demo_route :: payment_route where
  "demo_route = \<lparr>hops = [\<lparr>hop_sender = ''Alice'', hop_receiver = ''Bob'', hop_amount = 25026, hop_fee = 26, hop_locktime = 100 + DEFAULT_CLTV_DELTA_BLOCKS\<rparr>,
      \<lparr>hop_sender = ''Bob'', hop_receiver = ''Dave'', hop_amount = 25000, hop_fee = 0, hop_locktime = 100\<rparr>],
     total_amount_sat = 25026, total_fee_sat = 26\<rparr>"

definition fresh_channel :: "string \<Rightarrow> string \<Rightarrow> channel \<Rightarrow> bool" where
  "fresh_channel a b c \<longleftrightarrow> is_open c \<and> sender_alias c = a \<and> receiver_alias c = b \<and> balance_sender_sat c = 100000 \<and>
     balance_receiver_sat c = 0 \<and> active_htlcs c = [] \<and> channel_id c = ''chan_'' @ a @ ''_'' @ b \<and> capacity_sat c = 100000 \<and>
     store c = empty_store"

lemma demo_path:
  assumes "fresh_channel ''Alice'' ''Bob'' (heap ! ab)" and "fresh_channel ''Bob'' ''Dave'' (heap ! bd)"
  shows "find_path heap (add_channel heap bd (add_channel heap ab [])) demo_query = Inr demo_route"
proof -
  define adj where "adj = [(''Alice'', [(''Bob'', ab)]), (''Bob'', [(''Alice'', ab), (''Dave'', bd)]), (''Dave'', [(''Bob'', bd)])]"
  have adj: "add_channel heap bd (add_channel heap ab []) = adj"
    using assms by (simp add: add_channel_def ensure_node_def set_edge_def adj_of_def Let_def fresh_channel_def adj_def)
  have cap: "get_capacity heap adj ''Alice'' ''Bob'' = 100000" "get_capacity heap adj ''Bob'' ''Alice'' = 0"
      "get_capacity heap adj ''Bob'' ''Dave'' = 100000" "get_capacity heap adj ''Dave'' ''Bob'' = 0"
    using assms by (simp_all add: get_capacity_def adj_of_def adj_def fresh_channel_def)
  have nb: "dict_keys (adj_of adj ''Alice'') = [''Bob'']" "dict_keys (adj_of adj ''Bob'') = [''Alice'', ''Dave'']"
      "dict_get adj ''Alice'' \<noteq> None" "dict_get adj ''Dave'' \<noteq> None"
    by (simp_all add: adj_of_def adj_def dict_keys_def)
  have fee: "calculate_routing_fee 25000 DEFAULT_ROUTING_BASE_FEE_SAT DEFAULT_ROUTING_FEE_RATE_PPM = 26"
    by code_simp
  have amount: "rq_amount demo_query = 25000" "rq_source demo_query = ''Alice''" "rq_target demo_query = ''Dave''" "rq_base_locktime demo_query = 100"
    "rq_cltv_delta demo_query = DEFAULT_CLTV_DELTA_BLOCKS" "rq_base_fee demo_query = DEFAULT_ROUTING_BASE_FEE_SAT"
    "rq_fee_ppm demo_query = DEFAULT_ROUTING_FEE_RATE_PPM"
    by (simp_all add: demo_query_def DEFAULT_SIMULATION_PAYMENT_SAT_def)
  have push: "push_neighbors heap adj demo_query 0 ''Alice'' [''Alice''] [] = [(1, ''Bob'', [''Alice'', ''Bob''])]"
    "push_neighbors heap adj demo_query (Suc 0) ''Bob'' [''Alice'', ''Bob''] [] = [(2, ''Dave'', [''Alice'', ''Bob'', ''Dave''])]"
    by (simp_all add: push_neighbors_def nb amount cap heappush_def)
  show ?thesis
    using nb(3,4) by (simp add: find_path_def find_route_def adj amount push cap fee demo_route_def)
qed

section \<open>The opened demonstration\<close>

definition demo_ready :: "btclib \<Rightarrow> demo_setup \<Rightarrow> world \<Rightarrow> bool" where
  "demo_ready L su w \<longleftrightarrow> linked w (su_alice su) ''Bob'' (su_ab su) \<and> linked w (su_bob su) ''Dave'' (su_bd su) \<and> su_ab su \<noteq> su_bd su \<and>
     su_dave su < length (nodes w) \<and> node_alias (nodes w ! su_alice su) = ''Alice'' \<and> node_alias (nodes w ! su_bob su) = ''Bob'' \<and>
     fresh_channel ''Alice'' ''Bob'' (chans w ! su_ab su) \<and> fresh_channel ''Bob'' ''Dave'' (chans w ! su_bd su) \<and>
     su_script_ab su = create_multisig_2of2 L (node_pubkey (nodes w ! su_alice su)) (node_pubkey (nodes w ! su_bob su))"

lemma node_at_alias: "node_at w a = Some i \<Longrightarrow> i < length (nodes w) \<and> node_alias (nodes w ! i) = a"
  by (auto simp: node_at_def find_Some_iff)

lemma fresh_demo_channel:
  "node_alias self = a \<Longrightarrow> node_alias peer = b \<Longrightarrow> fresh_channel a b (demo_channel txid self peer)"
  by (simp add: fresh_channel_def demo_channel_def new_channel_def DEFAULT_SIMULATION_CAPACITY_SAT_def spec_defs)

lemma find_node_Inr: "find_node a t = (Inr i, t') \<longleftrightarrow> node_at (fst t) a = Some i \<and> t' = t"
  by (auto simp: find_node_def split: option.splits)

lemma node_utxo_world: "node_utxo net F repr L base i t = (r, t') \<Longrightarrow> fst t' = fst t"
  by (auto simp: node_utxo_def then_do_def get_world_def on_net_def split: prod.splits sum.splits)

lemma then_doE:
  assumes "then_do m f t = (Inr y, t'')"
  obtains x t' where "m t = (Inr x, t')" "f x t' = (Inr y, t'')"
  using assms by (auto simp: then_do_Inr)

lemma open_demo_ready:
  assumes "open_demo net F repr L txid_of base (w, s) = (Inr su, (w', s'))"
  shows "demo_ready L su w' \<and> length (nodes w') = length (nodes w) \<and>
    (\<forall>k. node_secret (nodes w' ! k) = node_secret (nodes w ! k) \<and> node_pubkey (nodes w' ! k) = node_pubkey (nodes w ! k)) \<and>
    (\<exists>t. funding_txid (chans w' ! su_ab su) = Some (hexlify (txid_of t))) \<and>
    node_at w ''Alice'' = Some (su_alice su) \<and> node_at w ''Bob'' = Some (su_bob su) \<and> node_at w ''Dave'' = Some (su_dave su) \<and>
    (\<forall>k. node_alias (nodes w' ! k) = node_alias (nodes w ! k) \<and> node_channels (nodes w' ! k) =
      (if k = su_alice su then dict_set ''Bob'' (su_ab su) (node_channels (nodes w ! k))
       else if k = su_bob su then dict_set ''Dave'' (su_bd su) (dict_set ''Alice'' (su_ab su) (node_channels (nodes w ! k)))
       else if k = su_dave su then dict_set ''Bob'' (su_bd su) (node_channels (nodes w ! k)) else node_channels (nodes w ! k)))"
proof -
  obtain a b d s1 s2 ua va ub vb ab tx_ab script_ab w1 s3 bd tx_bd script_bd where
    at: "node_at w ''Alice'' = Some a" "node_at w ''Bob'' = Some b" "node_at w ''Dave'' = Some d" and
    ab: "open_and_fund L txid_of a b ua va (w, s2) = (Inr (ab, tx_ab, script_ab), (w1, s3))" and
    bd: "open_and_fund L txid_of b d ub vb (w1, s3) = (Inr (bd, tx_bd, script_bd), (w', s'))" and
    su: "su = \<lparr>su_alice = a, su_bob = b, su_dave = d, su_ab = ab, su_bd = bd, su_tx_ab = tx_ab, su_script_ab = script_ab, su_tx_bd = tx_bd\<rparr>"
    using assms by (auto simp: open_demo_def lift_res_def find_node_Inr elim!: then_doE dest!: node_utxo_world)
  have a: "a < length (nodes w)" "node_alias (nodes w ! a) = ''Alice''" and b: "b < length (nodes w)" "node_alias (nodes w ! b) = ''Bob''"
    and d: "d < length (nodes w)" "node_alias (nodes w ! d) = ''Dave''"
    using at by (simp_all add: node_at_alias)
  have ne: "a \<noteq> b" "b \<noteq> d" "a \<noteq> d" using a b d by auto
  note w1 = open_and_fund_step [OF ab a(1) b(1) ne(1)]
  note n1 = nth_opened_world [OF a(1) b(1) ne(1), folded w1(5)]
  have len: "length (nodes w1) = length (nodes w)" by (simp add: w1(5) opened_world)
  note w2 = open_and_fund_step [OF bd, unfolded len, OF b(1) d(1) ne(2)]
  note n2 = nth_opened_world [of b w1 d, unfolded len, OF b(1) d(1) ne(2), folded w2(5)]
  have chans: "chans w' = chans w @ [demo_channel (hexlify (txid_of tx_ab)) (nodes w ! a) (nodes w ! b),
      demo_channel (hexlify (txid_of tx_bd)) (nodes w1 ! b) (nodes w1 ! d)]"
    by (simp add: w1(3) w2(3))
  have refs: "ab = length (chans w)" "bd = Suc (length (chans w))"
    using w1(1) w2(1) by (simp_all add: w1(3))
  have len': "length (nodes w') = length (nodes w)" by (simp add: w2(5) opened_world len)
  have alias1: "node_alias (nodes w1 ! k) = node_alias (nodes w ! k)" for k by (simp add: n1)
  have fresh: "fresh_channel ''Alice'' ''Bob'' (chans w' ! ab)" "fresh_channel ''Bob'' ''Dave'' (chans w' ! bd)"
    using a b d by (simp_all add: chans refs nth_append fresh_demo_channel alias1)
  have pub1: "node_pubkey (nodes w1 ! k) = node_pubkey (nodes w ! k)" "node_secret (nodes w1 ! k) = node_secret (nodes w ! k)" for k
    by (simp_all add: n1 link_channel_def)
  have pub: "node_pubkey (nodes w' ! k) = node_pubkey (nodes w ! k)" "node_secret (nodes w' ! k) = node_secret (nodes w ! k)" for k
    by (simp_all add: n2 pub1 link_channel_def)
  have linked: "linked w' a ''Bob'' ab" "linked w' b ''Dave'' bd"
    using a b d ne by (simp_all add: linked_def len' chans refs n2 n1 w1(3))
  have txid: "funding_txid (chans w' ! ab) = Some (hexlify (txid_of tx_ab))"
    by (simp add: chans refs nth_append demo_channel_def)
  have "demo_ready L su w'"
    using linked fresh a b d ne refs w1(4) by (simp add: demo_ready_def su len' pub n2 n1 link_channel_def)
  moreover have "node_alias (nodes w' ! k) = node_alias (nodes w ! k)" for k by (simp add: n2 alias1 link_channel_def)
  moreover have "node_channels (nodes w' ! k) =
      (if k = a then dict_set ''Bob'' ab (node_channels (nodes w ! k))
       else if k = b then dict_set ''Dave'' bd (dict_set ''Alice'' ab (node_channels (nodes w ! k)))
       else if k = d then dict_set ''Bob'' bd (node_channels (nodes w ! k)) else node_channels (nodes w ! k))" for k
    using ne a b d refs by (simp add: n2 n1 alias1 link_channel_def w1(3))
  ultimately show ?thesis using txid at by (auto simp: len' pub su)
qed

section \<open>The payment\<close>

lemma offer_fresh:
  assumes "fresh_channel a b c" "a \<noteq> []" "a \<noteq> b" "h = new_htlc hid hash amount lock a" "amount \<le> 100000"
  shows "\<exists>c'. add_htlc c h (Some a) = Inr c' \<and> get_balance c' a = 100000 - amount \<and> get_balance c' b = 0 \<and>
    active_htlcs c' = [(hid, h)] \<and> sender_alias c' = a \<and> receiver_alias c' = b"
proof -
  have c: "is_open c" "sender_alias c = a" "receiver_alias c = b" "active_htlcs c = []" "get_balance c a = 100000" "get_balance c b = 0"
    using assms(1,3) by (simp_all add: fresh_channel_def get_balance_def)
  obtain c' where "add_htlc c h (Some a) = Inr c'" "get_balance c' a = get_balance c a - amount"
      "\<forall>x. x \<noteq> a \<longrightarrow> get_balance c' x = get_balance c x" "active_htlcs c' = dict_set hid h (active_htlcs c)"
      "sender_alias c' = sender_alias c" "receiver_alias c' = receiver_alias c"
    using add_htlc_by_party [OF c(1) _ assms(2,4)] c(2,5) assms(5) by auto
  then show ?thesis using c assms(3) by simp
qed

lemma add_htlc_funding: "add_htlc c h off = Inr c' \<Longrightarrow> funding_txid c' = funding_txid c"
  by (auto simp: add_htlc_def Let_def split: if_splits)

lemma add_htlc_keeps:
  "add_htlc c h off = Inr c' \<Longrightarrow> is_open c' \<and> channel_id c' = channel_id c \<and> capacity_sat c' = capacity_sat c \<and> store c' = store c"
  by (auto simp: add_htlc_def Let_def spec_defs split: if_splits)

lemma redeem_htlc_keeps:
  "redeem_htlc L c hid x = Inr (c', h) \<Longrightarrow> is_open c' = is_open c \<and> channel_id c' = channel_id c \<and> capacity_sat c' = capacity_sat c \<and>
    store c' = store c \<and> sender_alias c' = sender_alias c \<and> receiver_alias c' = receiver_alias c \<and>
    active_htlcs c' = dict_del hid (active_htlcs c)"
  by (auto simp: redeem_htlc_def drop_htlc_def Let_def spec_defs split: option.splits if_splits)

text \<open>A channel after the payment over it.\<close>

definition settled_channel :: "string \<Rightarrow> string \<Rightarrow> channel \<Rightarrow> bool" where
  "settled_channel a b c \<longleftrightarrow> is_open c \<and> sender_alias c = a \<and> receiver_alias c = b \<and> balance_sender_sat c = 75000 \<and>
     balance_receiver_sat c = 25000 \<and> active_htlcs c = [] \<and> channel_id c = ''chan_'' @ a @ ''_'' @ b \<and> capacity_sat c = 100000 \<and>
     store c = empty_store"

lemma settled_after:
  assumes "fresh_channel a b c" and "a \<noteq> b" and "add_htlc c h off = Inr c1" and "redeem_htlc L c1 hid x = Inr (c2, g)"
    and "active_htlcs c1 = [(hid, h)]" and "sender_alias c1 = a" and "receiver_alias c1 = b"
    and "get_balance c2 a = 75000" and "get_balance c2 b = 25000"
  shows "settled_channel a b c2"
  using assms(1,2,5-) add_htlc_keeps [OF assms(3)] redeem_htlc_keeps [OF assms(4)]
  by (simp add: settled_channel_def fresh_channel_def get_balance_def)

lemma redeem_fresh:
  assumes "active_htlcs c = [(hid, new_htlc hid hash amount lock a)]" "sender_alias c = a" "receiver_alias c = b" "a \<noteq> b" "a \<noteq> []"
    and "lib_x L x = Some p" "lib_b2x L (sha256 p) = hash" and "get_balance c a = k" "get_balance c b = 0"
  shows "\<exists>c' h. redeem_htlc L c hid x = Inr (c', h) \<and> get_balance c' a = k \<and> get_balance c' b = amount \<and>
    dict_get (active_htlcs c') hid = None"
proof -
  have "dict_get (active_htlcs c) hid = Some (new_htlc hid hash amount lock a)" "{sender_alias c, receiver_alias c} = {a, b}"
    using assms(1-3) by simp_all
  from redeem_by_other [OF this assms(4-7)] show ?thesis using assms(8,9) by auto
qed

definition demo_settled :: "demo_setup \<Rightarrow> world \<Rightarrow> bool" where
  "demo_settled su w \<longleftrightarrow>
     get_balance (chans w ! su_ab su) ''Alice'' = 75000 \<and> get_balance (chans w ! su_ab su) ''Bob'' = 25000 \<and>
     get_balance (chans w ! su_bd su) ''Bob'' = 75000 \<and> get_balance (chans w ! su_bd su) ''Dave'' = 25000 \<and>
     dict_get (active_htlcs (chans w ! su_ab su)) ''htlc_ab_1'' = None \<and> dict_get (active_htlcs (chans w ! su_bd su)) ''htlc_bd_1'' = None"

lemma create_commitment_Inr:
  assumes "lib_outpoint L txid out = Inr op"
  shows "\<exists>t. create_commitment_transaction L txid out p q x y hs n = Inr t \<and> wit t = []"
proof -
  have "b_witnesses (add_htlc_outputs L hs b) = b_witnesses b" for b
    by (induction hs arbitrary: b) (auto simp: add_htlc_outputs_def add_p2wsh_output_def)
  then show ?thesis
    by (simp add: create_commitment_transaction_def add_input_def TransactionBuilder_def assms Let_def build_def add_p2wpkh_output_def)
qed

lemma sign_commitment_Inr: "wit t = [] \<Longrightarrow> \<exists>t'. sign_commitment_transaction L t 0 script capacity k1 k2 = Inr t'"
  by (simp add: sign_commitment_transaction_def sign_sighash_def Let_def split_beta)

lemma pay_demo_settles:
  assumes "wallet_lib L" and ready: "demo_ready L su w" "su_script_ab su \<noteq> []"
    and hex: "\<And>b. lib_x L (lib_b2x L b) = Some b" "\<And>b. bytes_fromhex (lib_b2x L b) = Inr b"
    and txid: "funding_txid (chans w ! su_ab su) = Some txid" "lib_outpoint L txid 0 = Inr op"
    and keys: "\<And>k. k < length (nodes w) \<Longrightarrow> node_pubkey (nodes w ! k) = lib_pub L (node_secret (nodes w ! k)) \<and> length (node_pubkey (nodes w ! k)) < 65536"
    and rev: "generate_revocation_secret E random2 = Inr sp2" "generate_revocation_secret E random3 = Inr sp3"
    and height: "get_block_height net base s = (Inr height, s')"
  shows "\<exists>commit close w'. pay_demo net L E base random1 random2 random3 su (w, s) = (Inr (demo_route, commit, close), (w', s')) \<and>
    demo_settled su w' \<and> (same_nodes w w' \<and> length (chans w') = length (chans w) \<and>
      settled_channel ''Alice'' ''Bob'' (chans w' ! su_ab su) \<and> settled_channel ''Bob'' ''Dave'' (chans w' ! su_bd su)) \<and>
    total_out close = DEFAULT_SIMULATION_CAPACITY_SAT \<and>
    verify_transaction_witness L E commit 0 (p2wsh_address_spk L (su_script_ab su)) DEFAULT_SIMULATION_CAPACITY_SAT = Inr True \<and>
    verify_transaction_witness L E close 0 (p2wsh_address_spk L (su_script_ab su)) DEFAULT_SIMULATION_CAPACITY_SAT = Inr True"
proof -
  define a b d ab bd where n: "a = su_alice su" "b = su_bob su" "d = su_dave su" "ab = su_ab su" "bd = su_bd su"
  have link: "linked w a ''Bob'' ab" "linked w b ''Dave'' bd" and ne: "ab \<noteq> bd" and d: "d < length (nodes w)"
    and fresh: "fresh_channel ''Alice'' ''Bob'' (chans w ! ab)" "fresh_channel ''Bob'' ''Dave'' (chans w ! bd)"
    and name: "node_alias (nodes w ! a) = ''Alice''" "node_alias (nodes w ! b) = ''Bob''"
    and script: "su_script_ab su = create_multisig_2of2 L (node_pubkey (nodes w ! a)) (node_pubkey (nodes w ! b))"
    using ready(1) by (simp_all add: demo_ready_def n)
  let ?x = "lib_b2x L random1" and ?hash = "lib_b2x L (sha256 random1)"
  let ?h1 = "new_htlc ''htlc_ab_1'' ?hash 25000 (height + DEFAULT_HTLC_LOCKTIME_T1_DELTA) ''Alice''"
  let ?h2 = "new_htlc ''htlc_bd_1'' ?hash 25000 (height + DEFAULT_HTLC_LOCKTIME_T2_DELTA) ''Bob''"
  obtain w1 where w1: "create_invoice L d random1 w = (w1, (?x, ?hash))" "same_nodes w w1" "chans w1 = chans w"
    using invoice_step [OF d] by blast
  obtain c1 where c1: "add_htlc (chans w ! ab) ?h1 (Some ''Alice'') = Inr c1" "get_balance c1 ''Alice'' = 75000" "get_balance c1 ''Bob'' = 0"
      "active_htlcs c1 = [(''htlc_ab_1'', ?h1)]" "sender_alias c1 = ''Alice''" "receiver_alias c1 = ''Bob''"
    using offer_fresh [OF fresh(1) _ _ refl, where amount = 25000 and hid = "''htlc_ab_1''" and hash = ?hash
        and lock = "height + DEFAULT_HTLC_LOCKTIME_T1_DELTA"] by auto
  obtain c2 where c2: "add_htlc (chans w ! bd) ?h2 (Some ''Bob'') = Inr c2" "get_balance c2 ''Bob'' = 75000" "get_balance c2 ''Dave'' = 0"
      "active_htlcs c2 = [(''htlc_bd_1'', ?h2)]" "sender_alias c2 = ''Bob''" "receiver_alias c2 = ''Dave''"
    using offer_fresh [OF fresh(2) _ _ refl, where amount = 25000 and hid = "''htlc_bd_1''" and hash = ?hash
        and lock = "height + DEFAULT_HTLC_LOCKTIME_T2_DELTA"] by auto
  note x = hex(1) [of random1]
  obtain c1' g1 where d1: "redeem_htlc L c1 ''htlc_ab_1'' ?x = Inr (c1', g1)" "get_balance c1' ''Alice'' = 75000" "get_balance c1' ''Bob'' = 25000"
      "dict_get (active_htlcs c1') ''htlc_ab_1'' = None"
    using redeem_fresh [OF c1(4,5,6) _ _ x refl c1(2,3)] by auto
  obtain c2' g2 where d2: "redeem_htlc L c2 ''htlc_bd_1'' ?x = Inr (c2', g2)" "get_balance c2' ''Bob'' = 75000" "get_balance c2' ''Dave'' = 25000"
      "dict_get (active_htlcs c2') ''htlc_bd_1'' = None"
    using redeem_fresh [OF c2(4,5,6) _ _ x refl c2(2,3)] by auto
  have len: "ab < length (chans w)" "bd < length (chans w)" using link by (simp_all add: linked_def)
  have link1: "linked w1 a ''Bob'' ab" using linked_same [OF w1(2) _ link(1)] w1(3) by simp
  have alias1: "node_alias (nodes w1 ! a) = ''Alice''" using w1(2) name by (simp add: same_nodes_def)
  obtain w2 where w2: "route_htlc_payment L E a ''Bob'' 25000 ?hash (height + DEFAULT_HTLC_LOCKTIME_T1_DELTA) ''htlc_ab_1'' random2 w1 = (w2, Inr True)"
      "same_nodes w1 w2" "chans w2 = (chans w)[ab := c1]"
    using route_step [OF link1 alias1 [symmetric] _ rev(1), of "''htlc_ab_1''" ?hash 25000 "height + DEFAULT_HTLC_LOCKTIME_T1_DELTA" c1 L]
      c1(1) w1(3) by auto
  have s02: "same_nodes w w2" using same_nodes_trans [OF w1(2) w2(2)] .
  have link2: "linked w2 b ''Dave'' bd" using linked_same [OF s02 _ link(2)] w2(3) by simp
  have alias2: "node_alias (nodes w2 ! b) = ''Bob''" using s02 name by (simp add: same_nodes_def)
  obtain w3 where w3: "route_htlc_payment L E b ''Dave'' 25000 ?hash (height + DEFAULT_HTLC_LOCKTIME_T2_DELTA) ''htlc_bd_1'' random3 w2 = (w3, Inr True)"
      "same_nodes w2 w3" "chans w3 = (chans w)[ab := c1, bd := c2]"
    using route_step [OF link2 alias2 [symmetric] _ rev(2), of "''htlc_bd_1''" ?hash 25000 "height + DEFAULT_HTLC_LOCKTIME_T2_DELTA" c2 L]
      c2(1) w2(3) ne by auto
  have s03: "same_nodes w w3" using same_nodes_trans [OF s02 w3(2)] .
  have link3: "linked w3 b ''Dave'' bd" "linked w3 a ''Bob'' ab"
    using linked_same [OF s03 _ link(2)] linked_same [OF s03 _ link(1)] w3(3) by simp_all
  define w4 where "w4 = w3\<lparr>chans := (chans w3)[bd := c2']\<rparr>"
  have w4: "fulfill_htlc L b ''Dave'' ''htlc_bd_1'' ?x w3 = (w4, Inr True)"
    using fulfill_step [OF link3(1)] d2(1) w3(3) len by (simp add: w4_def)
  have link4: "linked w4 a ''Bob'' ab" using linked_same [OF _ _ link3(2), of w4] by (simp add: w4_def)
  define w5 where "w5 = w4\<lparr>chans := (chans w4)[ab := c1']\<rparr>"
  have w5: "fulfill_htlc L a ''Bob'' ''htlc_ab_1'' ?x w4 = (w5, Inr True)"
    using fulfill_step [OF link4] d1(1) w3(3) len ne by (simp add: w5_def w4_def)
  have settled: "demo_settled su w5"
    using d1 d2 len ne w3(3) by (simp add: demo_settled_def w5_def w4_def n [symmetric])
  have "settled_channel ''Alice'' ''Bob'' c1'" "settled_channel ''Bob'' ''Dave'' c2'"
    using settled_after [OF fresh(1) _ c1(1) d1(1) c1(4,5,6) d1(2,3)] settled_after [OF fresh(2) _ c2(1) d2(1) c2(4,5,6) d2(2,3)] by simp_all
  then have after: "same_nodes w w5 \<and> length (chans w5) = length (chans w) \<and>
      settled_channel ''Alice'' ''Bob'' (chans w5 ! su_ab su) \<and> settled_channel ''Bob'' ''Dave'' (chans w5 ! su_bd su)"
    using s03 len ne w3(3) by (simp add: w5_def w4_def n [symmetric])
  define A B where nodes: "A = nodes w2 ! a" "B = nodes w2 ! b"
  have same: "node_pubkey A = node_pubkey (nodes w ! a)" "node_secret A = node_secret (nodes w ! a)"
      "node_pubkey B = node_pubkey (nodes w ! b)" "node_secret B = node_secret (nodes w ! b)"
    using s02 by (simp_all add: nodes same_nodes_def)
  have pubs: "node_pubkey A = lib_pub L (node_secret A)" "node_pubkey B = lib_pub L (node_secret B)"
      "length (node_pubkey A) < 65536" "length (node_pubkey B) < 65536"
    using keys link unfolding same linked_def by blast+
  have script': "su_script_ab su = create_multisig_2of2 L (node_pubkey A) (node_pubkey B)" by (simp add: script same)
  obtain t where t: "create_commitment_transaction L txid 0 (node_pubkey A) (node_pubkey B) 75000 0
        [(25000, create_htlc L (node_pubkey A) (node_pubkey B) (sha256 random1) (height + DEFAULT_HTLC_LOCKTIME_T1_DELTA))] 0 = Inr t" "wit t = []"
    using create_commitment_Inr [OF txid(2)] by blast
  obtain commit where commit: "sign_commitment_transaction L t 0 (su_script_ab su) DEFAULT_SIMULATION_CAPACITY_SAT (node_secret A) (node_secret B) = Inr commit"
    using sign_commitment_Inr [OF t(2)] by blast
  have commit_ok: "verify_transaction_witness L E commit 0 (p2wsh_address_spk L (su_script_ab su)) DEFAULT_SIMULATION_CAPACITY_SAT = Inr True"
    using commitment_verifies [OF assms(1) disjI1 [OF refl] _ _ _ commit] pubs script' by simp
  obtain close where close: "signed_close L txid A B 75000 25000 (su_script_ab su) = Inr close" "total_out close = 75000 + 25000"
      "verify_transaction_witness L E close 0 (p2wsh_address_spk L (su_script_ab su)) DEFAULT_SIMULATION_CAPACITY_SAT = Inr True"
    using signed_close_verifies [OF assms(1) pubs script' ready(2) txid(2), of 75000 25000 E] by (auto simp: BITCOIN_DUST_LIMIT_SAT_def)
  have funding: "str_or (funding_txid (chans w2 ! ab)) [] = txid"
    using add_htlc_funding [OF c1(1)] txid(1) w2(3) len(1) by (simp add: n str_or_def)
  have "pay_demo net L E base random1 random2 random3 su (w, s) = (Inr (demo_route, commit, close), (w5, s'))"
    using demo_path [OF fresh] w1(1,3) height w2(1) w3(1) w4 w5 commit close(1) t(1) funding hex
    by (simp add: pay_demo_def Let_def then_do_def on_world_def on_net_def lift_res_def get_world_def n [symmetric] nodes [symmetric]
        DEFAULT_SIMULATION_CAPACITY_SAT_def DEFAULT_SIMULATION_PAYMENT_SAT_def)
  then show ?thesis using settled after commit_ok close(2,3) by (simp add: DEFAULT_SIMULATION_CAPACITY_SAT_def)
qed

lemma simulate_runs:
  assumes "wallet_lib L" and "\<forall>b. lib_x L (lib_b2x L b) = Some b \<and> bytes_fromhex (lib_b2x L b) = Inr b"
    and "\<forall>t. \<exists>op. lib_outpoint L (hexlify (txid_of t)) 0 = Inr op" and "\<forall>p q. create_multisig_2of2 L p q \<noteq> []"
    and "\<forall>k < length (nodes w). node_pubkey (nodes w ! k) = lib_pub L (node_secret (nodes w ! k)) \<and> length (node_pubkey (nodes w ! k)) < 65536"
    and "generate_revocation_secret E random2 = Inr sp2" and "generate_revocation_secret E random3 = Inr sp3"
    and "open_demo net F repr L txid_of base (w, s) = (Inr su, (w1, s1))"
    and "announce_all live fuel net clock sleep base serialize su s1 = Some s2"
    and "get_block_height net base s2 = (Inr height, s3)"
  shows "\<exists>commit close w'.
    run_simulate_demo live fuel net clock sleep F repr L E txid_of serialize base random1 random2 random3 (w, s) =
      Some (Inr (demo_route, commit, close), (w', s3)) \<and>
    demo_settled su w' \<and> (same_nodes w1 w' \<and> length (chans w') = length (chans w1) \<and>
      settled_channel ''Alice'' ''Bob'' (chans w' ! su_ab su) \<and> settled_channel ''Bob'' ''Dave'' (chans w' ! su_bd su)) \<and>
    total_out close = DEFAULT_SIMULATION_CAPACITY_SAT \<and>
    verify_transaction_witness L E commit 0 (p2wsh_address_spk L (su_script_ab su)) DEFAULT_SIMULATION_CAPACITY_SAT = Inr True \<and>
    verify_transaction_witness L E close 0 (p2wsh_address_spk L (su_script_ab su)) DEFAULT_SIMULATION_CAPACITY_SAT = Inr True"
proof -
  note opened = open_demo_ready [OF assms(8)]
  obtain t where "funding_txid (chans w1 ! su_ab su) = Some (hexlify (txid_of t))" using opened by blast
  moreover obtain op where "lib_outpoint L (hexlify (txid_of t)) 0 = Inr op" using assms(3) by blast
  moreover have "su_script_ab su \<noteq> []" using opened assms(4) by (simp add: demo_ready_def)
  ultimately have "\<exists>commit close w'. pay_demo net L E base random1 random2 random3 su (w1, s2) = (Inr (demo_route, commit, close), (w', s3)) \<and>
      demo_settled su w' \<and> (same_nodes w1 w' \<and> length (chans w') = length (chans w1) \<and>
        settled_channel ''Alice'' ''Bob'' (chans w' ! su_ab su) \<and> settled_channel ''Bob'' ''Dave'' (chans w' ! su_bd su)) \<and>
      total_out close = DEFAULT_SIMULATION_CAPACITY_SAT \<and>
      verify_transaction_witness L E commit 0 (p2wsh_address_spk L (su_script_ab su)) DEFAULT_SIMULATION_CAPACITY_SAT = Inr True \<and>
      verify_transaction_witness L E close 0 (p2wsh_address_spk L (su_script_ab su)) DEFAULT_SIMULATION_CAPACITY_SAT = Inr True"
    using opened assms(2,5) by (intro pay_demo_settles [OF assms(1) _ _ _ _ _ _ _ assms(6,7,10)]) auto
  then show ?thesis by (simp add: run_simulate_demo_def assms(8,9))
qed

section \<open>Properties\<close>

text \<open>Property C37: the demonstrated payment completes.  When the opening found its coins, a live announcement ended and the block height
  was read, the demonstration returns: the route goes over Bob for a fee of 26, both channels end with 75000 on the payer's and 25000 on the
  payee's side and no HTLC, and both the commitment and the closing transaction spend the funding output, the latter paying out
  the whole capacity.\<close>

theorem payment_completes:
  assumes "wallet_lib L" and "\<forall>b. lib_x L (lib_b2x L b) = Some b \<and> bytes_fromhex (lib_b2x L b) = Inr b"
    and "\<forall>t. \<exists>op. lib_outpoint L (hexlify (txid_of t)) 0 = Inr op" and "\<forall>p q. create_multisig_2of2 L p q \<noteq> []"
    and "\<forall>k < length (nodes w). node_pubkey (nodes w ! k) = lib_pub L (node_secret (nodes w ! k)) \<and> length (node_pubkey (nodes w ! k)) < 65536"
    and "generate_revocation_secret E random2 = Inr sp2" and "generate_revocation_secret E random3 = Inr sp3"
    and "open_demo net F repr L txid_of base (w, s) = (Inr su, (w1, s1))"
    and "announce_all live fuel net clock sleep base serialize su s1 = Some s2"
    and "get_block_height net base s2 = (Inr height, s3)"
  shows "\<exists>route commit close w'.
    run_simulate_demo live fuel net clock sleep F repr L E txid_of serialize base random1 random2 random3 (w, s) =
      Some (Inr (route, commit, close), (w', s3)) \<and>
    route_path (hops route) = [''Alice'', ''Bob'', ''Dave''] \<and> total_fee_sat route = 26 \<and>
    get_balance (chans w' ! su_ab su) ''Alice'' = 75000 \<and> get_balance (chans w' ! su_ab su) ''Bob'' = 25000 \<and>
    get_balance (chans w' ! su_bd su) ''Bob'' = 75000 \<and> get_balance (chans w' ! su_bd su) ''Dave'' = 25000 \<and>
    dict_get (active_htlcs (chans w' ! su_ab su)) ''htlc_ab_1'' = None \<and> dict_get (active_htlcs (chans w' ! su_bd su)) ''htlc_bd_1'' = None \<and>
    verify_transaction_witness L E commit 0 (p2wsh_address_spk L (su_script_ab su)) DEFAULT_SIMULATION_CAPACITY_SAT = Inr True \<and>
    verify_transaction_witness L E close 0 (p2wsh_address_spk L (su_script_ab su)) DEFAULT_SIMULATION_CAPACITY_SAT = Inr True \<and>
    total_out close = DEFAULT_SIMULATION_CAPACITY_SAT"
proof -
  obtain commit close w' where "run_simulate_demo live fuel net clock sleep F repr L E txid_of serialize base random1 random2 random3 (w, s) =
      Some (Inr (demo_route, commit, close), (w', s3))" "demo_settled su w'" "total_out close = DEFAULT_SIMULATION_CAPACITY_SAT"
      "verify_transaction_witness L E commit 0 (p2wsh_address_spk L (su_script_ab su)) DEFAULT_SIMULATION_CAPACITY_SAT = Inr True"
      "verify_transaction_witness L E close 0 (p2wsh_address_spk L (su_script_ab su)) DEFAULT_SIMULATION_CAPACITY_SAT = Inr True"
    using simulate_runs [OF assms, of random1] by blast
  then show ?thesis
    by (intro exI [of _ demo_route] exI [of _ commit] exI [of _ close] exI [of _ w']) (simp add: demo_settled_def demo_route_def)
qed

section \<open>Witness\<close>

text \<open>A server that only answers the block height, and three nodes.\<close>

definition height_net :: "unit net" where
  "height_net rq s = (if rq = Get ESPLORA_TIP_HEIGHT_ENDPOINT then Inr ''100'' else Inl HTTPError, s)"

definition no_floats :: "unit floats" where
  "no_floats = \<lparr>fl_of_json = (\<lambda>v. Inl TypeError), fl_trunc = (\<lambda>s. Inl ValueError), fl_default = ()\<rparr>"

definition three_nodes :: world where
  "three_nodes = \<lparr>chans = [], nodes = [plain_node ''Alice'', plain_node ''Bob'', plain_node ''Dave'']\<rparr>"

lemma height_net_call: "rq \<noteq> Get ESPLORA_TIP_HEIGHT_ENDPOINT \<Longrightarrow> call height_net rq parse s = (Inl NetworkError, s)"
  by (simp add: call_def retried_def attempt_def height_net_def retry_def numeral_2_eq_2)

lemma height_net_height: "get_block_height height_net [] s = (Inr 100, s)"
proof -
  have "py_int (strip ''100'') = Inr 100" by code_simp
  then show ?thesis
    by (simp add: get_block_height_def call_def retried_def attempt_def height_net_def retry_def numeral_2_eq_2)
qed

lemma height_net_utxo: "get_utxo_for_node height_net F repr L [] pubkey address s = (Inr (derived_utxo L pubkey (replicate 32 0)), s)"
proof -
  have "Get (ESPLORA_TIP_HASH_ENDPOINT) \<noteq> Get ESPLORA_TIP_HEIGHT_ENDPOINT"
    "Get (ESPLORA_ADDRESS_ENDPOINT @ ''/'' @ address @ ''/utxo'') \<noteq> Get ESPLORA_TIP_HEIGHT_ENDPOINT"
    by (simp_all add: ESPLORA_TIP_HASH_ENDPOINT_def ESPLORA_TIP_HEIGHT_ENDPOINT_def ESPLORA_ADDRESS_ENDPOINT_def)
  then show ?thesis
    by (simp add: get_utxo_for_node_def get_address_utxos_def tip_utxo_def get_tip_hash_def height_net_call)
qed

lemma three_nodes_at: "node_at three_nodes ''Alice'' = Some 0" "node_at three_nodes ''Bob'' = Some 1" "node_at three_nodes ''Dave'' = Some 2"
  by code_simp+

lemma wire_open_and_fund:
  assumes "i < length (nodes w)" "j < length (nodes w)" "i \<noteq> j"
  shows "\<exists>r w'. open_and_fund wire_lib txid_of i j (fst (derived_utxo wire_lib p tip)) out (w, s) = (Inr r, (w', s)) \<and>
    length (nodes w') = length (nodes w)"
proof -
  have "create_funding_transaction wire_lib (fst (derived_utxo wire_lib p tip)) out q q' c \<noteq> Inl e" for q q' c e
    by (simp add: create_funding_transaction_def add_input_def derived_utxo_def wire_lib_def unhexlify_hexlify Let_def)
  then show ?thesis
    by (auto simp: open_and_fund_run opened_world set_funding_def split: sum.split)
qed

lemma three_nodes_open: "\<exists>su w1. open_demo height_net F repr wire_lib txid_of [] (three_nodes, ()) = (Inr su, (w1, ()))"
proof -
  let ?u = "derived_utxo wire_lib [] (replicate 32 0)"
  have len: "length (nodes three_nodes) = 3" "node_pubkey (nodes three_nodes ! 0) = []" "node_pubkey (nodes three_nodes ! 1) = []"
    by (simp_all add: three_nodes_def plain_node_def)
  obtain r1 w1 where 1: "open_and_fund wire_lib txid_of 0 1 (fst ?u) 0 (three_nodes, ()) = (Inr r1, (w1, ()))" "length (nodes w1) = 3"
    using wire_open_and_fund [of 0 three_nodes 1] len by fastforce
  then obtain r2 w2 where 2: "open_and_fund wire_lib txid_of 1 2 (fst ?u) 0 (w1, ()) = (Inr r2, (w2, ()))"
    using wire_open_and_fund [of 1 w1 2] by fastforce
  have utxo: "?u = (fst ?u, 0)" by (simp add: derived_utxo_def)
  show ?thesis
    using 1(1) 2 utxo len
    by (cases r1; cases r2) (simp add: open_demo_def then_do_def find_node_def three_nodes_at node_utxo_def get_world_def on_net_def height_net_utxo lift_res_def derived_utxo_def)
qed

lemma three_nodes_facts:
  "generate_revocation_secret line_curve (replicate 31 0 @ [1]) = Inr (replicate 31 0 @ [1], 2 # replicate 31 0 @ [1])"
  "\<forall>t :: tx. \<exists>op. lib_outpoint wire_lib (hexlify []) 0 = Inr op"
  "\<forall>p q. create_multisig_2of2 wire_lib p q \<noteq> []"
  "\<forall>k < length (nodes three_nodes). node_pubkey (nodes three_nodes ! k) = lib_pub wire_lib (node_secret (nodes three_nodes ! k)) \<and>
    length (node_pubkey (nodes three_nodes ! k)) < 65536"
  "announce_all False 0 height_net clock sleep base serialize su s = Some s"
proof -
  show "generate_revocation_secret line_curve (replicate 31 0 @ [1]) = Inr (replicate 31 0 @ [1], 2 # replicate 31 0 @ [1])" by code_simp
qed (simp_all add: wire_lib_def unhexlify_hexlify create_multisig_2of2_def Let_def encode_script_def three_nodes_def plain_node_def
    less_Suc_eq numeral_3_eq_3 announce_all_def)

theorem payment_completes_witness:
  "\<exists>route commit close w'.
    run_simulate_demo False 0 height_net (\<lambda>s. (0, s)) (\<lambda>d s. s) no_floats (\<lambda>v. []) wire_lib line_curve (\<lambda>t. []) (\<lambda>t. []) [] [7]
      (replicate 31 0 @ [1]) (replicate 31 0 @ [1]) (three_nodes, ()) = Some (Inr (route, commit, close), (w', ())) \<and>
    total_fee_sat route = 26 \<and> total_out close = 100000"
proof -
  obtain su w1 where opened: "open_demo height_net no_floats (\<lambda>v. []) wire_lib (\<lambda>t. []) [] (three_nodes, ()) = (Inr su, (w1, ()))"
    using three_nodes_open by blast
  show ?thesis
    using payment_completes [OF wire_wallet_lib _ three_nodes_facts(2-4,1,1) opened three_nodes_facts(5) height_net_height]
    by (simp add: unhexlify_hexlify DEFAULT_SIMULATION_CAPACITY_SAT_def) blast
qed

end
