(* ===== verification/Breach_Demos.thy ===== *)
theory Breach_Demos
  imports Simulation Watchtower
begin

text \<open>
  The two demonstrations of a punished breach, \<open>cli/demos/breach.py\<close> and \<open>cli/demos/watchtower.py\<close>: a revoked commitment is published,
  and the penalty key derived from the revealed secret sweeps its revocable output, by the peer or by the watchtower.  What is
  printed is left out.
\<close>

section \<open>The steps both share\<close>

text \<open>\<open>b"\0" * 70\<close>, in place of a signature.\<close>

definition dummy_sig :: bytes where
  "dummy_sig = replicate 70 0"

record revoked_state =
  rv_secret :: bytes
  rv_pubkey :: bytes
  rv_script :: bytes
  rv_txid :: string

definition revoked_commitment ::
    "btclib \<Rightarrow> 'p eclib \<Rightarrow> (tx \<Rightarrow> bytes) \<Rightarrow> string \<Rightarrow> int \<Rightarrow> bytes \<Rightarrow> bytes \<Rightarrow> bytes \<Rightarrow> revoked_state res" where
  "revoked_commitment L E txid_of txid out apub bpub random =
     rbind (generate_revocation_secret E random) (\<lambda>(secret, point).
     rbind (derive_revocation_pubkey E bpub point) (\<lambda>revocation_pubkey.
     let script = create_revocable_output_script L revocation_pubkey apub DEFAULT_TO_SELF_DELAY_BLOCKS
     in rbind (create_asymmetric_commitment_transaction L txid out apub bpub revocation_pubkey 80000 20000 144 [] 0) (\<lambda>t.
        Inr \<lparr>rv_secret = secret, rv_pubkey = revocation_pubkey, rv_script = script, rv_txid = hexlify (txid_of t)\<rparr>)))"

text \<open>The signature of the sweep with the key derived from the revealed secret, over a sweep with the dummy signature.\<close>

definition justice_signature :: "btclib \<Rightarrow> 'p eclib \<Rightarrow> node \<Rightarrow> string \<Rightarrow> bytes \<Rightarrow> bytes \<Rightarrow> bytes res" where
  "justice_signature L E bob revoked_txid secret script =
     rbind (derive_revocation_privkey E (take 32 (node_secret bob)) secret) (\<lambda>key.
     rbind (create_breach_remedy_transaction L revoked_txid 0 (node_pubkey bob) DEFAULT_SIMULATION_CAPACITY_SAT dummy_sig script) (\<lambda>dummy.
       sign_sighash L key (lib_sighash L script dummy 0 SIGHASH_ALL DEFAULT_SIMULATION_CAPACITY_SAT) 1))"

section \<open>The peer punishes\<close>




section \<open>The watchtower punishes\<close>

definition run_watchtower_demo ::
    "'s net \<Rightarrow> 'f floats \<Rightarrow> (json \<Rightarrow> string) \<Rightarrow> btclib \<Rightarrow> 'p eclib \<Rightarrow> aesgcm \<Rightarrow> (tx \<Rightarrow> bytes) \<Rightarrow> string \<Rightarrow> bytes \<Rightarrow> bytes \<Rightarrow>
      ('s, (tx \<times> bool) option) action" where
  "run_watchtower_demo net F repr L E A txid_of base random nonce =
     then_do (find_node ''Alice'') (\<lambda>a. then_do (find_node ''Bob'') (\<lambda>b.
     then_do (node_utxo net F repr L base a) (\<lambda>(txid, out).
     then_do get_world (\<lambda>w. let alice = nodes w ! a; bob = nodes w ! b in
     then_do (lift_res (revoked_commitment L E txid_of txid out (node_pubkey alice) (node_pubkey bob) random)) (\<lambda>rv.
     then_do (lift_res (justice_signature L E bob (rv_txid rv) (rv_secret rv) (rv_script rv))) (\<lambda>sig.
     then_do (lift_res (register_justice_package L A nonce
         \<lparr>j_txid = rv_txid rv, j_sweeper = hexlify (node_pubkey bob), j_amount = DEFAULT_SIMULATION_CAPACITY_SAT, j_sig = hexlify sig,
          j_revocation = hexlify (rv_pubkey rv), j_local = hexlify (node_pubkey alice), j_delay = DEFAULT_TO_SELF_DELAY_BLOCKS, j_vout = 0\<rparr>
         WatchtowerSession)) (\<lambda>(hint, s).
     then_do (lift_res (scan_transaction L A (rv_txid rv) \<lparr>session = s, swept_transactions = []\<rparr>)) (\<lambda>(found, daemon).
       case found of
         None \<Rightarrow> lift_res (Inr None)
       | Some t \<Rightarrow>
           then_do (lift_res (verify_transaction_witness L E t 0 (create_p2wsh L (rv_script rv)) DEFAULT_SIMULATION_CAPACITY_SAT)) (\<lambda>valid.
             lift_res (Inr (Some (t, valid))))))))))))"

section \<open>The penalty key\<close>

text \<open>The products of the derivation and their sum do not vanish, for secrets \<open>x\<close> and \<open>y\<close> with points \<open>P\<close> and \<open>C\<close>.\<close>

definition usable_penalty :: "bytes \<Rightarrow> bytes \<Rightarrow> int \<Rightarrow> int \<Rightarrow> bool" where
  "usable_penalty P C x y \<longleftrightarrow>
     hash_scalar (P @ C) * x mod SECP256K1_ORDER \<noteq> 0 \<and> hash_scalar (C @ P) * y mod SECP256K1_ORDER \<noteq> 0 \<and>
     (hash_scalar (P @ C) * x + hash_scalar (C @ P) * y) mod SECP256K1_ORDER \<noteq> 0"

text \<open>The keys of the wallet library are the points of the curve.\<close>

definition same_keys :: "btclib \<Rightarrow> 'p eclib \<Rightarrow> bool" where
  "same_keys L E \<longleftrightarrow> (\<forall>k. length k = 32 \<and> 0 < uint_be k \<and> uint_be k < SECP256K1_ORDER \<longrightarrow> ec_point_mul E (uint_be k) = Inr (lib_pub L k))"

context curve_group
begin

lemma penalty_key:
  assumes P: "ec_point_mul E (x mod SECP256K1_ORDER) = Inr P" and C: "ec_point_mul E (y mod SECP256K1_ORDER) = Inr C"
    and ok: "usable_penalty P C x y" and secrets: "x = uint_be (take 32 base)" "y = uint_be (take 32 secret)"
  shows "\<exists>r R. derive_revocation_privkey E base secret = Inr r \<and> derive_revocation_pubkey E P C = Inr R \<and>
    length r = 32 \<and> 0 < uint_be r \<and> uint_be r < SECP256K1_ORDER \<and> ec_point_mul E (uint_be r) = Inr R"
proof -
  let ?a = "hash_scalar (P @ C)" and ?b = "hash_scalar (C @ P)"
  let ?r = "(?a * x + ?b * y) mod SECP256K1_ORDER"
  have nz: "?a \<noteq> 0" "?b \<noteq> 0" "x mod SECP256K1_ORDER \<noteq> 0" "y mod SECP256K1_ORDER \<noteq> 0" "?r \<noteq> 0"
    using ok by (auto simp: usable_penalty_def mod_mult_right_eq [of ?a x, symmetric] mod_mult_right_eq [of ?b y, symmetric] simp del: mod_mult_right_eq)
  have pubs: "pub x = Inr P" "pub y = Inr C"
    using P C nz(3,4) by (simp_all add: point_mul pub_mod)
  obtain p1 p2 where "pub (?a * x) = Inr p1" "pub (?b * y) = Inr p2"
    using ok pub_ok unfolding usable_penalty_def by blast
  then have "derive_revocation_pubkey E P C = pub (?a * x + ?b * y)"
    by (rule revocation_keys [OF pubs nz(1,2)])
  moreover have "ec_point_mul E ?r = pub (?a * x + ?b * y)"
    using nz(5) by (simp add: point_mul pub_mod)
  moreover have "0 < ?r" "?r < SECP256K1_ORDER"
    using nz(5) pos_mod_sign [OF order_pos, of "?a * x + ?b * y"] by (simp_all add: order_le_neq_trans)
  moreover obtain r where r: "to_bytes_be 32 ?r = Inr r" "length r = 32" "uint_be r = ?r"
    using to_bytes_be_ok [of ?r 32] \<open>0 < ?r\<close> \<open>?r < SECP256K1_ORDER\<close> order_less to_bytes_be_roundtrip by fastforce
  moreover have "derive_revocation_privkey E base secret = to_bytes_be 32 ?r"
  proof -
    have "(?a * (x mod SECP256K1_ORDER) + ?b * (y mod SECP256K1_ORDER)) mod SECP256K1_ORDER = ?r"
      by (intro mod_add_cong mod_mult_right_eq)
    then show ?thesis
      using P C by (simp only: derive_revocation_privkey_def secrets [symmetric] Let_def rbind_simps)
  qed
  moreover obtain R where "pub (?a * x + ?b * y) = Inr R" using pub_ok nz(5) by blast
  ultimately show ?thesis by auto
qed

lemma revocation_secret_point:
  assumes "generate_revocation_secret E random = Inr (secret, C)" and "length random = 32"
  shows "ec_point_mul E (uint_be (take 32 secret) mod SECP256K1_ORDER) = Inr C \<and> length secret = 32"
proof -
  have one: "1 mod SECP256K1_ORDER = 1" by (simp add: SECP256K1_ORDER_def)
  show ?thesis
    using assms by (auto simp: generate_revocation_secret_def Let_def rbind_eq_Inr length_to_bytes_be to_bytes_be_roundtrip one split: if_splits)
qed

end

section \<open>The sweep verifies\<close>

text \<open>What both demonstrations need of the parties and of the random secret.\<close>

definition breach_ready :: "btclib \<Rightarrow> 'p eclib \<Rightarrow> node \<Rightarrow> node \<Rightarrow> bytes \<Rightarrow> bool" where
  "breach_ready L E alice bob random \<longleftrightarrow> length random = 32 \<and> length (node_pubkey alice) < 65536 \<and> (\<forall>k. length (lib_pub L k) < 65536) \<and>
     ec_point_mul E (uint_be (take 32 (node_secret bob)) mod SECP256K1_ORDER) = Inr (node_pubkey bob) \<and>
     (\<exists>secret C. generate_revocation_secret E random = Inr (secret, C) \<and>
        usable_penalty (node_pubkey bob) C (uint_be (take 32 (node_secret bob))) (uint_be (take 32 secret)))"

lemma create_breach_remedy_Inr:
  "lib_outpoint L txid n = Inr op \<Longrightarrow> \<exists>t. create_breach_remedy_transaction L txid n pub amount sig script = Inr t \<and>
    (BITCOIN_DUST_LIMIT_SAT \<le> amount \<longrightarrow> total_out t = amount) \<and> map prevout (vin t) = [op]"
  by (simp add: create_breach_remedy_transaction_def add_input_def TransactionBuilder_def Let_def total_out_def non_dust_def)

lemma create_asymmetric_Inr:
  "lib_outpoint L txid n = Inr op \<Longrightarrow> \<exists>t. create_asymmetric_commitment_transaction L txid n p q r 80000 20000 d [] k = Inr t \<and>
    hd (vout t) = \<lparr>nValue = 80000, scriptPubKey = p2wsh_address_spk L (create_revocable_output_script L r p d)\<rparr>"
  by (simp add: create_asymmetric_commitment_transaction_def add_input_def Let_def BITCOIN_DUST_LIMIT_SAT_def add_p2wsh_output_def
      add_p2wpkh_output_def add_htlc_outputs_def TransactionBuilder_def build_def)

lemma revoked_and_signed:
  assumes "curve_group E" and "same_keys L E" and ready: "breach_ready L E alice bob random"
    and ops: "lib_outpoint L txid out = Inr op" "\<forall>t. \<exists>op. lib_outpoint L (hexlify (txid_of t)) 0 = Inr op"
  shows "\<exists>rv key sig t0 c. revoked_commitment L E txid_of txid out (node_pubkey alice) (node_pubkey bob) random = Inr rv \<and>
    create_asymmetric_commitment_transaction L txid out (node_pubkey alice) (node_pubkey bob) (rv_pubkey rv) 80000 20000 144 [] 0 = Inr c \<and>
    hd (vout c) = \<lparr>nValue = 80000, scriptPubKey = p2wsh_address_spk L (rv_script rv)\<rparr> \<and> rv_txid rv = hexlify (txid_of c) \<and>
    derive_revocation_privkey E (take 32 (node_secret bob)) (rv_secret rv) = Inr key \<and>
    rv_pubkey rv = lib_pub L key \<and> rv_script rv = create_revocable_output_script L (lib_pub L key) (node_pubkey alice) DEFAULT_TO_SELF_DELAY_BLOCKS \<and>
    create_breach_remedy_transaction L (rv_txid rv) 0 (node_pubkey bob) DEFAULT_SIMULATION_CAPACITY_SAT dummy_sig (rv_script rv) = Inr t0 \<and>
    sign_sighash L key (lib_sighash L (rv_script rv) t0 0 SIGHASH_ALL DEFAULT_SIMULATION_CAPACITY_SAT) 1 = Inr sig \<and>
    justice_signature L E bob (rv_txid rv) (rv_secret rv) (rv_script rv) = Inr sig"
proof -
  obtain secret C where sec: "generate_revocation_secret E random = Inr (secret, C)"
    and ok: "usable_penalty (node_pubkey bob) C (uint_be (take 32 (node_secret bob))) (uint_be (take 32 secret))"
    and bob: "ec_point_mul E (uint_be (take 32 (node_secret bob)) mod SECP256K1_ORDER) = Inr (node_pubkey bob)"
    and len: "length random = 32"
    using ready by (auto simp: breach_ready_def)
  have C: "ec_point_mul E (uint_be (take 32 secret) mod SECP256K1_ORDER) = Inr C"
    using curve_group.revocation_secret_point [OF assms(1) sec len] by (rule conjunct1)
  have base: "uint_be (take 32 (node_secret bob)) = uint_be (take 32 (take 32 (node_secret bob)))" by simp
  obtain key R where key: "derive_revocation_privkey E (take 32 (node_secret bob)) secret = Inr key"
      "derive_revocation_pubkey E (node_pubkey bob) C = Inr R" "ec_point_mul E (uint_be key) = Inr R"
      "length key = 32" "0 < uint_be key" "uint_be key < SECP256K1_ORDER"
    using curve_group.penalty_key [OF assms(1) bob C ok base refl] by blast
  have R: "R = lib_pub L key" using assms(2) key(3-6) by (simp add: same_keys_def)
  define script where "script = create_revocable_output_script L R (node_pubkey alice) DEFAULT_TO_SELF_DELAY_BLOCKS"
  obtain t where t: "create_asymmetric_commitment_transaction L txid out (node_pubkey alice) (node_pubkey bob) R 80000 20000 144 [] 0 = Inr t"
      "hd (vout t) = \<lparr>nValue = 80000, scriptPubKey = p2wsh_address_spk L script\<rparr>"
    using create_asymmetric_Inr [OF ops(1)] unfolding script_def DEFAULT_TO_SELF_DELAY_BLOCKS_def by blast
  obtain op' where "lib_outpoint L (hexlify (txid_of t)) 0 = Inr op'" using ops(2) by blast
  then obtain t0 where t0: "create_breach_remedy_transaction L (hexlify (txid_of t)) 0 (node_pubkey bob) DEFAULT_SIMULATION_CAPACITY_SAT dummy_sig script = Inr t0"
    using create_breach_remedy_Inr by blast
  let ?rv = "\<lparr>rv_secret = secret, rv_pubkey = R, rv_script = script, rv_txid = hexlify (txid_of t)\<rparr>"
  have "revoked_commitment L E txid_of txid out (node_pubkey alice) (node_pubkey bob) random = Inr ?rv"
    by (simp add: revoked_commitment_def sec key(2) t(1) Let_def script_def)
  moreover obtain sig where "sign_sighash L key (lib_sighash L script t0 0 SIGHASH_ALL DEFAULT_SIMULATION_CAPACITY_SAT) 1 = Inr sig"
    by (simp add: sign_sighash_def)
  ultimately show ?thesis
    using key(1) t0 t R by (intro exI [of _ ?rv] exI [of _ key] exI [of _ sig] exI [of _ t0] exI [of _ t]) (simp add: justice_signature_def script_def)
qed

lemma breach_ready_lengths:
  "breach_ready L E alice bob random \<Longrightarrow> length (lib_pub L key) < 65536 \<and> length (node_pubkey alice) < 65536 \<and> length random = 32"
  by (simp add: breach_ready_def)







text \<open>The watchtower's demonstration ends with the same sweep, found under the hint.\<close>

lemma register_justice_Inr:
  "hex_to_bytes L (j_txid j) = Inr b \<Longrightarrow> \<exists>hint s'. register_justice_package L A nonce j s = Inr (hint, s')"
  by (simp add: register_justice_package_def derive_watchtower_hint_def encrypt_justice_payload_def Let_def)

lemma watchtower_demo_sweeps:
  assumes "curve_group E" and "wallet_lib L" and "same_keys L E" and "aead A" and "length nonce = 12"
    and "node_at w ''Alice'' = Some a" "node_at w ''Bob'' = Some b" "node_utxo net F repr L base a (w, s) = (Inr (txid, out), (w, s'))"
    and ready: "breach_ready L E (nodes w ! a) (nodes w ! b) random"
    and "lib_outpoint L txid out = Inr op" and "\<forall>t. \<exists>op. lib_outpoint L (hexlify (txid_of t)) 0 = Inr op"
    and hex: "\<forall>b. hex_to_bytes L (hexlify b) = Inr b"
  shows "\<exists>t. run_watchtower_demo net F repr L E A txid_of base random nonce (w, s) = (Inr (Some (t, True)), (w, s'))"
proof -
  let ?a = "nodes w ! a" and ?b = "nodes w ! b"
  obtain rv key sig t0 c where rv: "revoked_commitment L E txid_of txid out (node_pubkey ?a) (node_pubkey ?b) random = Inr rv"
      "rv_script rv = create_revocable_output_script L (lib_pub L key) (node_pubkey ?a) DEFAULT_TO_SELF_DELAY_BLOCKS"
      "create_breach_remedy_transaction L (rv_txid rv) 0 (node_pubkey ?b) DEFAULT_SIMULATION_CAPACITY_SAT dummy_sig (rv_script rv) = Inr t0"
      "sign_sighash L key (lib_sighash L (rv_script rv) t0 0 SIGHASH_ALL DEFAULT_SIMULATION_CAPACITY_SAT) 1 = Inr sig"
      "justice_signature L E ?b (rv_txid rv) (rv_secret rv) (rv_script rv) = Inr sig"
    and txid: "rv_txid rv = hexlify (txid_of c)" and pubkey: "rv_pubkey rv = lib_pub L key"
    using revoked_and_signed [OF assms(1,3) ready assms(10,11)] by blast
  define j where "j = \<lparr>j_txid = rv_txid rv, j_sweeper = hexlify (node_pubkey ?b), j_amount = DEFAULT_SIMULATION_CAPACITY_SAT, j_sig = hexlify sig,
    j_revocation = hexlify (rv_pubkey rv), j_local = hexlify (node_pubkey ?a), j_delay = DEFAULT_TO_SELF_DELAY_BLOCKS, j_vout = 0\<rparr>"
  have fields: "j_txid j = rv_txid rv" "j_sweeper j = hexlify (node_pubkey ?b)" "j_amount j = DEFAULT_SIMULATION_CAPACITY_SAT" "j_sig j = hexlify sig"
      "j_revocation j = hexlify (rv_pubkey rv)" "j_local j = hexlify (node_pubkey ?a)" "j_delay j = DEFAULT_TO_SELF_DELAY_BLOCKS" "j_vout j = 0"
    by (simp_all add: j_def)
  obtain tb where "hex_to_bytes L (rv_txid rv) = Inr tb" using txid hex by metis
  then obtain hint d where d: "register_justice_package L A nonce j WatchtowerSession = Inr (hint, d)"
    using register_justice_Inr [of L j tb A nonce WatchtowerSession] fields(1) by auto
  have "\<exists>t. scan_transaction L A (j_txid j) \<lparr>session = d, swept_transactions = []\<rparr> = Inr (Some t, \<lparr>session = d, swept_transactions = []\<rparr>
        \<lparr>swept_transactions := swept_transactions \<lparr>session = d, swept_transactions = []\<rparr> @ [t]\<rparr>) \<and>
      verify_transaction_witness L E t 0 (p2wsh_address_spk L (rv_script rv)) DEFAULT_SIMULATION_CAPACITY_SAT = Inr True"
    by (rule tower_sweeps [where pre = "[]" and post = "[]" and ?s0.0 = WatchtowerSession and nonce = nonce and key = key and sig = sig and ?sig0.0 = dummy_sig
          and ?t0.0 = t0 and local_pubkey = "node_pubkey ?a" and sweeper = "node_pubkey ?b", OF assms(4,2,5)])
      (use breach_ready_lengths [OF ready, of key] rv(2,3,4) in
        \<open>simp_all add: register_all_def d fields hex pubkey DEFAULT_TO_SELF_DELAY_BLOCKS_def\<close>)
  then obtain t where t: "scan_transaction L A (rv_txid rv) \<lparr>session = d, swept_transactions = []\<rparr> = Inr (Some t, \<lparr>session = d, swept_transactions = [t]\<rparr>)"
      "verify_transaction_witness L E t 0 (create_p2wsh L (rv_script rv)) DEFAULT_SIMULATION_CAPACITY_SAT = Inr True"
    by (auto simp: fields wallet_lib.p2wsh_address [OF assms(2)])
  then show ?thesis
    using assms(6-8) rv(1,5) d [unfolded j_def]
    by (intro exI [of _ t]) (simp add: run_watchtower_demo_def then_do_def find_node_def get_world_def lift_res_def Let_def)
qed

section \<open>Properties\<close>


section \<open>Witness\<close>















end
