(* ===== verification/Protocol_Demos.thy ===== *)
theory Protocol_Demos
  imports Breach_Demos PTLC Eltoo Anchors Swaps Onion_Json
begin

text \<open>
  The demonstrations of the protocols, \<open>cli/demos/eltoo.py\<close>, \<open>ptlc.py\<close>, \<open>anchors.py\<close>, \<open>swaps.py\<close> and \<open>sphinx.py\<close>, and their registry,
  \<open>controller.py\<close>.  Each returns what it would show; the text around it is left out.  The nodes are only read.
\<close>

section \<open>Eltoo\<close>

definition run_eltoo_demo ::
    "'s net \<Rightarrow> 'f floats \<Rightarrow> (json \<Rightarrow> string) \<Rightarrow> btclib \<Rightarrow> (tx \<Rightarrow> bytes) \<Rightarrow> string \<Rightarrow> ('s, (tx \<times> tx) option) action" where
  "run_eltoo_demo net F repr L txid_of base =
     then_do (find_node ''Alice'') (\<lambda>a. then_do (find_node ''Bob'') (\<lambda>b.
     then_do get_world (\<lambda>w. let alice = nodes w ! a; bob = nodes w ! b;
         script = create_multisig_2of2 L (node_pubkey alice) (node_pubkey bob) in
     then_do (node_utxo net F repr L base a) (\<lambda>(txid, out).
     let state1 = \<lparr>state_number = 1, sender_balance = 80000, receiver_balance = 20000\<rparr>;
         state2 = \<lparr>state_number = 2, sender_balance = 50000, receiver_balance = 50000\<rparr>;
         secs = Some (node_secret alice, node_secret bob) in
     then_do (lift_res (validate_eltoo_override state1 state2)) (\<lambda>ok.
     if ok then
       then_do (lift_res (create_eltoo_update_transaction L txid out state2 script [] [] secs)) (\<lambda>update.
       then_do (lift_res (create_eltoo_settlement_transaction L (hexlify (txid_of update)) 0 (node_pubkey alice) (node_pubkey bob)
           state2 [] [] script secs)) (\<lambda>settle.
         lift_res (Inr (Some (update, settle)))))
     else lift_res (Inr None))))))"

section \<open>Adaptor signatures\<close>

text \<open>Both assertions as exceptions; the verdict of the Schnorr verification is only shown.\<close>

definition assert_res :: "bool \<Rightarrow> unit res" where
  "assert_res b = (if b then Inr () else Inl AssertionError)"

definition ptlc_demo :: "'p eclib \<Rightarrow> node \<Rightarrow> bytes \<Rightarrow> (adaptor_signature \<times> bytes \<times> bool) res" where
  "ptlc_demo E alice random =
     (let (secret_scalar, msg_hash) = generate_secret random in
      rbind (ec_point_mul E (uint_be secret_scalar)) (\<lambda>point.
      rbind (create_adaptor_signature E (KeyBytes (node_secret alice)) point msg_hash) (\<lambda>a.
      rbind (assert_res (verify_adaptor_signature E a (node_pubkey alice) msg_hash (Some point))) (\<lambda>_.
      rbind (adapt_signature a (KeyBytes secret_scalar)) (\<lambda>final_sig.
      rbind (r_prime a) (\<lambda>R.
      let schnorr_valid = verify_schnorr_signature E (node_pubkey alice) msg_hash R (KeyBytes final_sig) in
      rbind (extract_adaptor_secret (SigAdaptor a) (SigBytes final_sig)) (\<lambda>extracted.
      rbind (assert_res (extracted = secret_scalar)) (\<lambda>_.
        Inr (a, final_sig, schnorr_valid)))))))))"

definition run_ptlc_demo :: "'p eclib \<Rightarrow> bytes \<Rightarrow> ('s, adaptor_signature \<times> bytes \<times> bool) action" where
  "run_ptlc_demo E random = then_do (find_node ''Alice'') (\<lambda>a. then_do get_world (\<lambda>w. lift_res (ptlc_demo E (nodes w ! a) random)))"

section \<open>Anchors\<close>

definition DEFAULT_CPFP_FEE_BUMP_SAT :: int where "DEFAULT_CPFP_FEE_BUMP_SAT = 1000"

text \<open>The parent, the signed child and the verdict on the witness of its anchor input.\<close>

definition anchors_demo :: "btclib \<Rightarrow> 'p eclib \<Rightarrow> (tx \<Rightarrow> bytes) \<Rightarrow> node \<Rightarrow> node \<Rightarrow> string \<Rightarrow> int \<Rightarrow> (tx \<times> tx \<times> bool) res" where
  "anchors_demo L E txid_of alice bob txid out =
     rbind (create_anchor_commitment_transaction L txid out (node_pubkey alice) (node_pubkey bob) 70000 30000) (\<lambda>(parent, local_script, remote_script).
     let wallet_funding_sat = 10000;
         child = (\<lambda>sig wallet_sig. create_cpfp_fee_bump_transaction L (hexlify (txid_of parent)) 2 (node_pubkey alice)
           DEFAULT_CPFP_FEE_BUMP_SAT local_script sig (Some txid) out wallet_funding_sat (Some wallet_sig)) in
     rbind (child dummy_sig dummy_sig) (\<lambda>dummy.
     rbind (sign_sighash L (node_secret alice) (lib_sighash L local_script dummy 0 SIGHASH_ALL ANCHOR_OUTPUT_SAT) 1) (\<lambda>sig.
     rbind (sign_sighash L (node_secret alice)
         (lib_sighash L (create_p2wpkh_scriptCode L (node_pubkey alice)) dummy 1 SIGHASH_ALL wallet_funding_sat) 1) (\<lambda>wallet_sig.
     rbind (child sig wallet_sig) (\<lambda>t.
     rbind (verify_transaction_witness L E t 0 (create_p2wsh L local_script) ANCHOR_OUTPUT_SAT) (\<lambda>valid.
       Inr (parent, t, valid)))))))"

definition run_anchors_demo ::
    "'s net \<Rightarrow> 'f floats \<Rightarrow> (json \<Rightarrow> string) \<Rightarrow> btclib \<Rightarrow> 'p eclib \<Rightarrow> (tx \<Rightarrow> bytes) \<Rightarrow> string \<Rightarrow> ('s, tx \<times> tx \<times> bool) action" where
  "run_anchors_demo net F repr L E txid_of base =
     then_do (find_node ''Alice'') (\<lambda>a. then_do (find_node ''Bob'') (\<lambda>b.
     then_do (node_utxo net F repr L base a) (\<lambda>(txid, out).
     then_do get_world (\<lambda>w. lift_res (anchors_demo L E txid_of (nodes w ! a) (nodes w ! b) txid out)))))"

section \<open>Swaps\<close>

definition verify_ecdsa_signature :: "btclib \<Rightarrow> bytes \<Rightarrow> bytes \<Rightarrow> bytes \<Rightarrow> bool" where
  "verify_ecdsa_signature L pubkey sighash witness_sig =
     (let der_sig = (if 1 < length witness_sig then butlast witness_sig else witness_sig)
      in lib_ecdsa_verify L pubkey sighash der_sig)"

text \<open>The swap, the signed lockup transaction, the verdict on its signature and the fee of the advertised lease.\<close>

definition swaps_demo ::
    "btclib \<Rightarrow> node \<Rightarrow> node \<Rightarrow> string \<Rightarrow> int \<Rightarrow> bytes \<Rightarrow> (submarine_swap \<times> tx \<times> bool \<times> int) res" where
  "swaps_demo L alice bob txid out random =
     (let (image, hash) = generate_secret random;
          swap = new_swap ''swap_loop_in_001'' LOOP_IN DEFAULT_SIMULATION_CAPACITY_SAT hash DEFAULT_HTLC_LOCKTIME_T1_DELTA;
          script = create_submarine_swap_script L (node_pubkey alice) (node_pubkey bob) hash DEFAULT_HTLC_LOCKTIME_T1_DELTA in
      rbind (create_submarine_swap_funding_tx L txid out (node_pubkey alice) DEFAULT_SIMULATION_CAPACITY_SAT script) (\<lambda>l1_tx.
      let sighash = lib_sighash L (create_p2wpkh_scriptCode L (node_pubkey alice)) l1_tx 0 SIGHASH_ALL DEFAULT_SIMULATION_CAPACITY_SAT in
      rbind (sign_sighash L (node_secret alice) sighash 1) (\<lambda>sig.
      let valid = verify_ecdsa_signature L (node_pubkey alice) sighash sig in
      rbind (add_input L txid out 0xFFFFFFFF (TransactionBuilder 0)) (\<lambda>b.
      let signed = build (add_witness_stack [sig, node_pubkey alice] (add_p2wsh_output L DEFAULT_SIMULATION_CAPACITY_SAT script b));
          ad = LiquidityAd ''BobRouting'' (hexlify (node_pubkey bob))
      in Inr (swap, signed, valid, calculate_lease_fee ad 1000000)))))"

definition run_swaps_demo ::
    "'s net \<Rightarrow> 'f floats \<Rightarrow> (json \<Rightarrow> string) \<Rightarrow> btclib \<Rightarrow> string \<Rightarrow> bytes \<Rightarrow> ('s, submarine_swap \<times> tx \<times> bool \<times> int) action" where
  "run_swaps_demo net F repr L base random =
     then_do (find_node ''Alice'') (\<lambda>a. then_do (find_node ''Bob'') (\<lambda>b.
     then_do (node_utxo net F repr L base a) (\<lambda>(txid, out).
     then_do get_world (\<lambda>w. lift_res (swaps_demo L (nodes w ! a) (nodes w ! b) txid out random)))))"

section \<open>Onions\<close>

text \<open>The payloads Bob and, if there is a packet for him, Dave unwrap; \<open>str(secret)\<close> is the key's WIF text.\<close>

definition demo_hops :: "int \<Rightarrow> hop list" where
  "demo_hops height =
     [(''Bob'', ''Dave'', DEFAULT_SIMULATION_PAYMENT_SAT, height + DEFAULT_HTLC_LOCKTIME_T1_DELTA),
      (''Dave'', [], DEFAULT_SIMULATION_PAYMENT_SAT, height + DEFAULT_HTLC_LOCKTIME_T2_DELTA)]"

definition demo_keys :: "node \<Rightarrow> node \<Rightarrow> (string, pubkey_arg) pydict" where
  "demo_keys bob dave = [(''Bob'', PubBytes (node_pubkey bob)), (''Dave'', PubBytes (node_pubkey dave))]"

definition sphinx_demo ::
    "btclib \<Rightarrow> 'p eclib \<Rightarrow> stream_cipher \<Rightarrow> node \<Rightarrow> node \<Rightarrow> int \<Rightarrow> bytes \<Rightarrow> (sphinx_payload \<times> sphinx_payload option) res" where
  "sphinx_demo L E stream bob dave height session_key =
     rbind (create_onion_packet L E (demo_hops height) (demo_keys bob dave) session_key [[], []]) (\<lambda>packet.
     rbind (unwrap_onion_packet L E stream packet (lib_wif_text L (node_secret bob)) []) (\<lambda>(bob_payload, dave_packet).
     case dave_packet of
       None \<Rightarrow> Inr (bob_payload, None)
     | Some p \<Rightarrow>
         rbind (unwrap_onion_packet L E stream p (lib_wif_text L (node_secret dave)) []) (\<lambda>(dave_payload, final_packet).
           Inr (bob_payload, Some dave_payload))))"

definition run_sphinx_demo ::
    "'s net \<Rightarrow> btclib \<Rightarrow> 'p eclib \<Rightarrow> stream_cipher \<Rightarrow> string \<Rightarrow> bytes \<Rightarrow> ('s, sphinx_payload \<times> sphinx_payload option) action" where
  "run_sphinx_demo net L E stream base session_key =
     then_do (find_node ''Bob'') (\<lambda>b. then_do (find_node ''Dave'') (\<lambda>d.
     then_do (on_net (get_block_height net base)) (\<lambda>height.
     then_do get_world (\<lambda>w. lift_res (sphinx_demo L E stream (nodes w ! b) (nodes w ! d) height session_key)))))"

section \<open>The registry\<close>

datatype demo_handler =
    Run_simulate_demo
  | Run_breach_demo
  | Run_watchtower_demo
  | Run_eltoo_demo
  | Run_sphinx_demo
  | Run_ptlc_demo
  | Run_anchors_demo
  | Run_swaps_demo

record demo_command =
  demo_name :: string
  demo_description :: string
  demo_handler :: demo_handler

type_synonym demos = "(string, demo_command) pydict"

definition register :: "string \<Rightarrow> string \<Rightarrow> demo_handler \<Rightarrow> demos \<Rightarrow> demos" where
  "register name description h d =
     dict_set name \<lparr>demo_name = name, demo_description = description, demo_handler = h\<rparr> d"

definition DemoController :: demos where
  "DemoController =
     register ''swaps'' ''Atomic Submarine Swaps & BOLT #7 Liquidity Advertisements'' Run_swaps_demo
     (register ''anchors'' ''Anchor Outputs (330 sat) & CPFP Fee Bumping Engine'' Run_anchors_demo
     (register ''ptlc'' ''PTLC & Schnorr Adaptor Signature Execution Protocol'' Run_ptlc_demo
     (register ''sphinx'' ''Sphinx Multi-Layer ECDH Onion Encrypted Routing Protocol'' Run_sphinx_demo
     (register ''eltoo'' ''Eltoo (LN-Symmetric) Floating Sequence State Update Protocol'' Run_eltoo_demo
     (register ''watchtower'' ''Watchtower Encrypted Hint Registration & Autonomous Breach Sweep'' Run_watchtower_demo
     (register ''breach'' ''Poon-Dryja Revocation & Breach Remedy Penalty'' Run_breach_demo
     (register ''simulate'' ''Multi-Hop Micropayment Routing & Pathfinding Simulation'' Run_simulate_demo [])))))))"

text \<open>\<open>call_handler h x\<close> calls a handler.\<close>

definition get_demo :: "string \<Rightarrow> demos \<Rightarrow> demo_command res" where
  "get_demo name d = (case dict_get d name of None \<Rightarrow> Inl KeyError | Some c \<Rightarrow> Inr c)"

definition run_demo :: "(demo_handler \<Rightarrow> 'x \<Rightarrow> 'y res) \<Rightarrow> string \<Rightarrow> 'x \<Rightarrow> demos \<Rightarrow> 'y res" where
  "run_demo call_handler name x d = (case dict_get d name of None \<Rightarrow> Inl KeyError | Some c \<Rightarrow> call_handler (demo_handler c) x)"

definition list_demos :: "demos \<Rightarrow> demo_command list" where
  "list_demos d = map snd d"

section \<open>What the demonstrations show\<close>

lemma eltoo_demo_verifies:
  assumes "wallet_lib L" and "node_pubkey alice = lib_pub L (node_secret alice)" "node_pubkey bob = lib_pub L (node_secret bob)"
    and "length (node_pubkey alice) < 65536" "length (node_pubkey bob) < 65536"
    and "script = create_multisig_2of2 L (node_pubkey alice) (node_pubkey bob)" "script \<noteq> []"
    and "node_at w ''Alice'' = Some a" "node_at w ''Bob'' = Some b" "alice = nodes w ! a" "bob = nodes w ! b"
    and "run_eltoo_demo net F repr L txid_of base (w, s) = (Inr r, t')"
  shows "\<exists>update settle. r = Some (update, settle) \<and> nLockTime update = ELTOO_BASE_LOCKTIME + 2 \<and> map nValue (vout settle) = [50000, 50000] \<and>
    verify_transaction_witness L E update 0 (create_p2wsh L script) 100000 = Inr True \<and>
    verify_transaction_witness L E settle 0 (create_p2wsh L script) 100000 = Inr True"
proof -
  let ?s = "\<lparr>state_number = 2, sender_balance = 50000, receiver_balance = 50000\<rparr> :: eltoo_state"
  obtain txid out update settle where update: "create_eltoo_update_transaction L txid out ?s script [] [] (Some (node_secret alice, node_secret bob)) = Inr update"
    and settle: "create_eltoo_settlement_transaction L (hexlify (txid_of update)) 0 (node_pubkey alice) (node_pubkey bob) ?s [] [] script
        (Some (node_secret alice, node_secret bob)) = Inr settle" and r: "r = Some (update, settle)"
    using assms(6,8-12) by (auto simp: run_eltoo_demo_def Let_def find_node_Inr get_world_def lift_res_def validate_eltoo_override_def elim!: then_doE dest!: node_utxo_world)
  show ?thesis
    using eltoo_update_verifies [OF assms(1) _ _ _ update, of E] eltoo_settlement_verifies [OF assms(1) _ _ _ assms(7) settle, of E] assms(2-6) r
    by (simp add: eltoo_locktime_def)
qed

lemma sign_verify_ecdsa:
  assumes "wallet_lib L" and "sign_sighash L k h 1 = Inr sig" and "lib_sign L k h \<noteq> []"
  shows "verify_ecdsa_signature L (lib_pub L k) h sig"
proof -
  have "sig = lib_sign L k h @ [1]" using assms(2) by (simp add: sign_sighash_def)
  moreover have "1 < length (lib_sign L k h @ [1 :: byte])" using assms(3) by simp
  ultimately show ?thesis by (simp add: verify_ecdsa_signature_def wallet_lib.verify_sign [OF assms(1)])
qed

lemma swaps_demo_valid:
  assumes "wallet_lib L" and "node_pubkey alice = lib_pub L (node_secret alice)" and "\<And>h. lib_sign L (node_secret alice) h \<noteq> []"
    and "swaps_demo L alice bob txid out random = Inr (swap, t, valid, fee)"
  shows "valid \<and> fee = 2500 \<and> swap_status swap = PENDING \<and> vout t = [\<lparr>nValue = DEFAULT_SIMULATION_CAPACITY_SAT, scriptPubKey =
    p2wsh_address_spk L (create_htlc L (node_pubkey alice) (node_pubkey bob) (sha256 random) DEFAULT_HTLC_LOCKTIME_T1_DELTA)\<rparr>]"
proof -
  have fee: "calculate_lease_fee (LiquidityAd n k) 1000000 = 2500" for n k by code_simp
  have dust: "BITCOIN_DUST_LIMIT_SAT \<le> DEFAULT_SIMULATION_CAPACITY_SAT"
    by (simp add: BITCOIN_DUST_LIMIT_SAT_def DEFAULT_SIMULATION_CAPACITY_SAT_def)
  show ?thesis
    using assms(4) sign_verify_ecdsa [OF assms(1) _ assms(3)]
    by (auto simp: swaps_demo_def generate_secret_def Let_def rbind_eq_Inr new_swap_def assms(2)
        create_submarine_swap_script_def add_p2wsh_output_def fee dust dest!: add_input_InrD)
qed

text \<open>The child's anchor input verifies, and the child pays the fee it is to bump; the parent pays out 660 more than it has.\<close>

lemma cpfp_with_wallet:
  assumes "create_cpfp_fee_bump_transaction L p n key fee script sig (Some wtxid) wn amount (Some wsig) = Inr t"
    and "wtxid \<noteq> []" "0 < amount" "wsig \<noteq> []"
  shows "\<exists>op op'. vin t = [\<lparr>prevout = op, nSequence = SEQUENCE_CLTV_ENABLE_MASK\<rparr>, \<lparr>prevout = op', nSequence = SEQUENCE_CLTV_ENABLE_MASK\<rparr>] \<and>
    lib_outpoint L p n = Inr op \<and> lib_outpoint L wtxid wn = Inr op' \<and> nLockTime t = 0 \<and>
    vout t = (if 0 < ANCHOR_OUTPUT_SAT + amount - fee
      then [\<lparr>nValue = ANCHOR_OUTPUT_SAT + amount - fee, scriptPubKey = lib_cscript L [Op OP_0, Push (lib_Hash160 L key)]\<rparr>] else []) \<and>
    wit t = [[sig, script], [wsig, key]]"
  using assms
  by (auto simp: create_cpfp_fee_bump_transaction_def has_wallet_utxo_def add_input_def TransactionBuilder_def rbind_eq_Inr Let_def build_def
      add_witness_stack_def add_output_def)

lemma anchors_demo_verifies:
  assumes "wallet_lib L" and "node_pubkey alice = lib_pub L (node_secret alice)" "length (node_pubkey alice) < 65536" and "txid \<noteq> []"
    and "anchors_demo L E txid_of alice bob txid out = Inr (parent, t, valid)"
  shows "valid \<and> 10330 - total_out t = DEFAULT_CPFP_FEE_BUMP_SAT \<and> total_out parent = 100660"
proof -
  obtain script s2 dummy sig wsig where parent: "create_anchor_commitment_transaction L txid out (node_pubkey alice) (node_pubkey bob) 70000 30000 = Inr (parent, script, s2)"
    and dummy: "create_cpfp_fee_bump_transaction L (hexlify (txid_of parent)) 2 (node_pubkey alice) DEFAULT_CPFP_FEE_BUMP_SAT script dummy_sig
        (Some txid) out 10000 (Some dummy_sig) = Inr dummy"
    and sig: "sign_sighash L (node_secret alice) (lib_sighash L script dummy 0 SIGHASH_ALL ANCHOR_OUTPUT_SAT) 1 = Inr sig"
    and wsig: "sign_sighash L (node_secret alice) (lib_sighash L (create_p2wpkh_scriptCode L (node_pubkey alice)) dummy 1 SIGHASH_ALL 10000) 1 = Inr wsig"
    and t: "create_cpfp_fee_bump_transaction L (hexlify (txid_of parent)) 2 (node_pubkey alice) DEFAULT_CPFP_FEE_BUMP_SAT script sig
        (Some txid) out 10000 (Some wsig) = Inr t"
    and valid: "verify_transaction_witness L E t 0 (create_p2wsh L script) ANCHOR_OUTPUT_SAT = Inr valid"
    using assms(5) by (auto simp: anchors_demo_def rbind_eq_Inr Let_def)
  have nonempty: "dummy_sig \<noteq> []" "wsig \<noteq> []" using wsig by (auto simp: dummy_sig_def sign_sighash_def)
  have script: "script = create_anchor_script L (lib_pub L (node_secret alice))"
    using parent by (auto simp: create_anchor_commitment_transaction_def rbind_eq_Inr Let_def assms(2))
  have same: "vin t = vin dummy" "vout t = vout dummy" "nLockTime t = nLockTime dummy"
    using cpfp_with_wallet [OF t assms(4) _ nonempty(2)] cpfp_with_wallet [OF dummy assms(4) _ nonempty(1)] by auto
  have fields: "wit t = [[sig, script], [wsig, node_pubkey alice]]" "length (vin t) = 2" "\<forall>i < 2. nSequence (vin t ! i) = SEQUENCE_CLTV_ENABLE_MASK"
      "total_out t = 9330"
    using cpfp_with_wallet [OF t assms(4) _ nonempty(2)]
    by (auto simp: less_2_cases_iff total_out_def ANCHOR_OUTPUT_SAT_def DEFAULT_CPFP_FEE_BUMP_SAT_def)
  have "valid_sig L (spend_ctx script t 0 ANCHOR_OUTPUT_SAT) (lib_pub L (node_secret alice)) sig"
    using wallet_lib.signed_valid [OF assms(1) sig same] .
  then have "execute L (spend_ctx script t 0 ANCHOR_OUTPUT_SAT) [sig] = Inr True"
    using assms(2,3) fields by (subst execute_anchor [OF wallet_lib.axioms(1) [OF assms(1)], where pubkey = "lib_pub L (node_secret alice)"])
      (auto simp: script suffix_def in_range_def SEQUENCE_CLTV_ENABLE_MASK_def)
  then have "verify_transaction_witness L E t 0 (p2wsh_address_spk L script) ANCHOR_OUTPUT_SAT = Inr True"
    by (intro wallet_lib.verify_p2wsh_address [OF assms(1), where stack = "[sig]"]) (simp_all add: fields)
  then show ?thesis
    using valid fields(4) anchor_commitment_overspends [OF parent]
    by (simp add: wallet_lib.p2wsh_address [OF assms(1)] DEFAULT_CPFP_FEE_BUMP_SAT_def BITCOIN_DUST_LIMIT_SAT_def)
qed

text \<open>
  Apart from scalars that vanish, the adaptor demonstration runs through exactly for secrets below the group order: a larger one comes
  back reduced and fails the last assertion.
\<close>

definition ptlc_generic :: "'p eclib \<Rightarrow> node \<Rightarrow> bytes \<Rightarrow> bytes \<Rightarrow> bool" where
  "ptlc_generic E alice random T \<longleftrightarrow>
     (let key = KeyBytes (node_secret alice); m = sha256 random in
      (adaptor_nonce (take 32 (node_secret alice)) m T + uint_be random) mod SECP256K1_ORDER \<noteq> 0 \<and>
      (\<forall>a s R. create_adaptor_signature E key T m = Inr a \<and> adapt_signature a (KeyBytes random) = Inr s \<and> r_prime a = Inr R \<longrightarrow>
         adaptor_challenge R (node_pubkey alice) m * private_scalar key mod SECP256K1_ORDER \<noteq> 0 \<and> s_prime a \<noteq> Inr 0 \<and> uint_be s \<noteq> 0))"

lemma create_adaptor_point: "create_adaptor_signature E key T m = Inr a \<Longrightarrow> adaptor_point a None = adaptor_point a (Some T)"
  by (auto simp: create_adaptor_signature_def create_adaptor_def rbind_eq_Inr Let_def adaptor_point_def)

lemma ptlc_demo_outcome:
  assumes "curve_group E" and "private_scalar (KeyBytes (node_secret alice)) \<noteq> 0"
    and "ec_point_mul E (private_scalar (KeyBytes (node_secret alice))) = Inr (node_pubkey alice)"
    and "length random = 32" and t: "uint_be random mod SECP256K1_ORDER \<noteq> 0"
    and T: "ec_point_mul E (uint_be random) = Inr T" and generic: "ptlc_generic E alice random T"
  shows "if uint_be random < SECP256K1_ORDER then \<exists>a s. ptlc_demo E alice random = Inr (a, s, True)
    else ptlc_demo E alice random = Inl AssertionError"
proof -
  let ?key = "KeyBytes (node_secret alice)" and ?m = "sha256 random" and ?t = "uint_be random"
  have kt: "(adaptor_nonce (take 32 (node_secret alice)) ?m T + ?t) mod SECP256K1_ORDER \<noteq> 0"
    using generic by (simp add: ptlc_generic_def Let_def)
  obtain a s R where a: "create_adaptor_signature E ?key T ?m = Inr a" "r_prime a = Inr R" "adapt_signature a (KeyInt ?t) = Inr s"
      "extract_adaptor_secret (SigAdaptor a) (SigBytes s) = to_bytes_be 32 (?t mod SECP256K1_ORDER)"
    and ok: "adaptor_challenge R (node_pubkey alice) ?m * private_scalar ?key mod SECP256K1_ORDER = 0 \<or> s_prime a = Inr 0 \<or>
        verify_adaptor_signature E a (node_pubkey alice) ?m None"
      "adaptor_challenge R (node_pubkey alice) ?m * private_scalar ?key mod SECP256K1_ORDER = 0 \<or> uint_be s = 0 \<or>
        verify_schnorr_signature E (node_pubkey alice) ?m R (KeyBytes s)"
    using adaptor_completes [OF assms(1,2) t assms(3) T _ kt] by auto
  have same: "adapt_signature a (KeyBytes random) = Inr s" using a(3) assms(4) by (simp add: adapt_signature_def)
  then have "adaptor_challenge R (node_pubkey alice) ?m * private_scalar ?key mod SECP256K1_ORDER \<noteq> 0" "s_prime a \<noteq> Inr 0" "uint_be s \<noteq> 0"
    using generic a(1,2) by (auto simp: ptlc_generic_def Let_def)
  then have verified: "verify_adaptor_signature E a (node_pubkey alice) ?m (Some T)" "verify_schnorr_signature E (node_pubkey alice) ?m R (KeyBytes s)"
    using ok create_adaptor_point [OF a(1)] by (simp_all add: verify_adaptor_signature_def)
  obtain b where b: "to_bytes_be 32 (?t mod SECP256K1_ORDER) = Inr b" "uint_be b = ?t mod SECP256K1_ORDER" "length b = 32"
    using scalar_bytes_ok by blast
  have "b = random \<longleftrightarrow> ?t < SECP256K1_ORDER"
  proof
    assume "b = random"
    then have "?t mod SECP256K1_ORDER = ?t" using b(2) by simp
    then show "?t < SECP256K1_ORDER" using pos_mod_bound [OF order_pos, of ?t] by argo
  next
    assume "?t < SECP256K1_ORDER"
    then show "b = random" using b(2,3) assms(4) by (intro uint_be_inj) (simp_all add: mod_pos_pos_trivial)
  qed
  moreover have "ptlc_demo E alice random = rbind (assert_res (b = random)) (\<lambda>_. Inr (a, s, True))"
    using a(1,2,4) same verified T b(1) by (simp add: ptlc_demo_def generate_secret_def assert_res_def Let_def)
  ultimately show ?thesis by (simp add: assert_res_def)
qed

text \<open>Both payloads arrive, by the delivery of onions.\<close>

lemma sphinx_demo_delivers:
  assumes "onion E stream" and "ec_point_mul E (uint_be (take 32 session_key)) = Inr (lib_pub L session_key)"
    and "derive_hops L E (demo_keys bob dave) (demo_hops height) [[], []] (uint_be (take 32 session_key) mod SECP256K1_ORDER) (lib_pub L session_key) = Inr derived"
    and "\<forall>i < 2. blinded (uint_be (take 32 session_key) mod SECP256K1_ORDER) (take i derived) mod SECP256K1_ORDER \<noteq> 0"
    and "\<forall>i < 2. onion.route_node E L (demo_keys bob dave) (demo_hops height ! i) ([[], []] ! i)
      ([lib_wif_text L (node_secret bob), lib_wif_text L (node_secret dave)] ! i)"
    and "\<forall>i < 2. length (utf8_encode (fst (wrap_json_layers (drop i (zip (demo_hops height) (map snd derived)))))) \<noteq> 1300"
  shows "sphinx_demo L E stream bob dave height session_key =
    Inr (\<lparr>sp_next_hop = ''Dave'', sp_amount_sat = 25000, sp_cltv_locktime = height + 144\<rparr>,
      Some \<lparr>sp_next_hop = [], sp_amount_sat = 25000, sp_cltv_locktime = height + 100\<rparr>)"
proof -
  have len: "length (demo_hops height) = 2" by (simp add: demo_hops_def)
  obtain packets where p: "create_onion_packet L E (demo_hops height) (demo_keys bob dave) session_key [[], []] = Inr (packets ! 0)"
    and un: "\<forall>i < 2. \<forall>random. unwrap_onion_packet L E stream (packets ! i) ([lib_wif_text L (node_secret bob), lib_wif_text L (node_secret dave)] ! i) random =
      Inr (case demo_hops height ! i of (node_name, next_hop, amount, cltv) \<Rightarrow> \<lparr>sp_next_hop = next_hop, sp_amount_sat = amount, sp_cltv_locktime = cltv\<rparr>,
           if i + 1 < 2 then Some (packets ! (i + 1)) else None)"
    using onion.json_onion_delivers [OF assms(1) _ _ assms(2,3), unfolded len, OF _ _ assms(4,5,6)] by auto
  have "unwrap_onion_packet L E stream (packets ! 0) (lib_wif_text L (node_secret bob)) [] =
      Inr (\<lparr>sp_next_hop = ''Dave'', sp_amount_sat = 25000, sp_cltv_locktime = height + 144\<rparr>, Some (packets ! 1))"
    and "unwrap_onion_packet L E stream (packets ! 1) (lib_wif_text L (node_secret dave)) [] =
      Inr (\<lparr>sp_next_hop = [], sp_amount_sat = 25000, sp_cltv_locktime = height + 100\<rparr>, None)"
    using un [rule_format, of 0 "[]"] un [rule_format, of 1 "[]"]
    by (simp_all add: demo_hops_def DEFAULT_SIMULATION_PAYMENT_SAT_def DEFAULT_HTLC_LOCKTIME_T1_DELTA_def DEFAULT_HTLC_LOCKTIME_T2_DELTA_def)
  then show ?thesis by (simp add: sphinx_demo_def p)
qed

lemma registered_demos:
  "map demo_name (list_demos DemoController) = [''simulate'', ''breach'', ''watchtower'', ''eltoo'', ''sphinx'', ''ptlc'', ''anchors'', ''swaps'']"
  "run_demo call_handler name x d = rbind (get_demo name d) (\<lambda>c. call_handler (demo_handler c) x)"
  "get_demo name (register name description h d) = Inr \<lparr>demo_name = name, demo_description = description, demo_handler = h\<rparr>"
  by (code_simp, simp_all add: run_demo_def get_demo_def register_def split: option.split)

end
