(* ===== verification/Commands.thy ===== *)
theory Commands
  imports Protocol_Demos Shachain
begin

text \<open>
  The commands of \<open>cli/app.py\<close>: \<open>info\<close>, \<open>funds\<close> and \<open>status\<close> as the figures and rows they print, \<open>simulate\<close> with the saving and the status at its
  end, and \<open>shachain_demo\<close>.  The totals of \<open>funds\<close> are shown to add up, and the demonstrated payment to survive a restart; the funding command, which
  saves without having loaded, forgets the channels stored before.  Formatting is left out; a report that lost the network for one node goes on
  with the next.
\<close>

section \<open>Status\<close>

record status_row =
  row_channel :: string
  row_sender :: string
  row_receiver :: string
  row_capacity :: int
  row_sender_sat :: int
  row_receiver_sat :: int
  row_txid :: string
  row_state :: channel_state
  row_htlcs :: nat

definition status_row_of :: "channel \<Rightarrow> status_row" where
  "status_row_of c =
     \<lparr>row_channel = channel_id c, row_sender = sender_alias c, row_receiver = receiver_alias c, row_capacity = capacity_sat c,
      row_sender_sat = balance_sender_sat c, row_receiver_sat = balance_receiver_sat c,
      row_txid = (case funding_txid c of
          Some txid \<Rightarrow> if txid \<noteq> [] then take 16 txid @ ''...'' else ''Off-Chain Simulated''
        | None \<Rightarrow> ''Off-Chain Simulated''),
      row_state = channel_status c, row_htlcs = length (active_htlcs c)\<rparr>"

text \<open>The loop over the channels of all nodes with the set of identifiers already shown.\<close>

definition status_step :: "channel \<Rightarrow> string list \<times> status_row list \<Rightarrow> string list \<times> status_row list" where
  "status_step c = (\<lambda>(processed, rows).
     if channel_id c \<in> set processed then (processed, rows) else (channel_id c # processed, rows @ [status_row_of c]))"

definition status_rows :: "world \<Rightarrow> status_row list" where
  "status_rows w = snd (fold status_step (linked_channels w) ([], []))"

section \<open>Funds and info\<close>

text \<open>\<open>len\<close> of a decoded answer.\<close>

fun json_len :: "json \<Rightarrow> nat res" where
  "json_len (JList vs) = Inr (length vs)"
| "json_len (JObj ps) = Inr (length ps)"
| "json_len (JStr s) = Inr (length s)"
| "json_len v = Inl TypeError"

definition network_trouble :: "py_error \<Rightarrow> bool" where
  "network_trouble e \<longleftrightarrow> e \<in> {NetworkError, HTTPError, ValueError}"

text \<open>Balance and number of coins of a node; \<open>None\<close> is the row of an error.\<close>

definition onchain_row :: "'s net \<Rightarrow> 'f floats \<Rightarrow> string \<Rightarrow> node \<Rightarrow> 's \<Rightarrow> (int \<times> int \<times> nat) option res \<times> 's" where
  "onchain_row net F base n s =
     (case get_address_balance net F base (node_address n) s of
        (Inl e, s') \<Rightarrow> (if network_trouble e then Inr None else Inl e, s')
      | (Inr (c, u), s') \<Rightarrow>
          (case get_address_utxos net base (node_address n) s' of (r, s'') \<Rightarrow>
             (case rbind r json_len of
                Inl e \<Rightarrow> (if network_trouble e then Inr None else Inl e, s'')
              | Inr k \<Rightarrow> (Inr (Some (c, u, k)), s''))))"

fun onchain_rows :: "'s net \<Rightarrow> 'f floats \<Rightarrow> string \<Rightarrow> node list \<Rightarrow> 's \<Rightarrow> (string \<times> (int \<times> int \<times> nat) option) list res \<times> 's" where
  "onchain_rows net F base [] s = (Inr [], s)"
| "onchain_rows net F base (n # ns) s =
     (case onchain_row net F base n s of
        (Inl e, s') \<Rightarrow> (Inl e, s')
      | (Inr row, s') \<Rightarrow>
          (case onchain_rows net F base ns s' of
             (Inl e, s'') \<Rightarrow> (Inl e, s'')
           | (Inr rows, s'') \<Rightarrow> (Inr ((node_alias n, row) # rows), s'')))"

record funds_report =
  l1_rows :: "(string \<times> (int \<times> int \<times> nat) option) list"
  portfolio :: "(string \<times> int \<times> int \<times> int) list"
  total_confirmed :: int
  total_mempool :: int
  total_offchain :: int

definition row_confirmed :: "(int \<times> int \<times> nat) option \<Rightarrow> int" where
  "row_confirmed row = (case row of None \<Rightarrow> 0 | Some (c, u, k) \<Rightarrow> c)"

definition row_mempool :: "(int \<times> int \<times> nat) option \<Rightarrow> int" where
  "row_mempool row = (case row of None \<Rightarrow> 0 | Some (c, u, k) \<Rightarrow> u)"

definition portfolio_row :: "world \<Rightarrow> (string, int) pydict \<Rightarrow> node \<Rightarrow> string \<times> int \<times> int \<times> int" where
  "portfolio_row w node_onchain n =
     (let l1_bal = (case dict_get node_onchain (node_alias n) of None \<Rightarrow> 0 | Some b \<Rightarrow> b);
          l2_bal = get_node_offchain_balance w n
      in (node_alias n, l1_bal, l2_bal, l1_bal + l2_bal))"

definition report_of :: "world \<Rightarrow> (string \<times> (int \<times> int \<times> nat) option) list \<Rightarrow> funds_report" where
  "report_of w rows =
     (let node_onchain = fold (\<lambda>(a, row). dict_set a (row_confirmed row)) rows []
      in \<lparr>l1_rows = rows, portfolio = map (portfolio_row w node_onchain) (nodes w),
          total_confirmed = sum_list (map (row_confirmed \<circ> snd) rows), total_mempool = sum_list (map (row_mempool \<circ> snd) rows),
          total_offchain = sum_list (map (get_node_offchain_balance w) (nodes w))\<rparr>)"

definition funds_matrix :: "'s net \<Rightarrow> 'f floats \<Rightarrow> string \<Rightarrow> world \<Rightarrow> 's \<Rightarrow> funds_report res \<times> 's" where
  "funds_matrix net F base w s =
     (case onchain_rows net F base (nodes w) s of (r, s') \<Rightarrow> (rbind r (\<lambda>rows. Inr (report_of w rows)), s'))"

text \<open>\<open>info\<close>: height, tip and fee rate, unless one of the three calls failed, and the balances of every node.\<close>

definition network_status ::
    "'s net \<Rightarrow> 'f floats \<Rightarrow> string \<Rightarrow> 's \<Rightarrow> (int \<times> string \<times> 'f) option res \<times> 's" where
  "network_status net F base s =
     (case get_block_height net base s of
        (Inl e, s') \<Rightarrow> (if network_trouble e then Inr None else Inl e, s')
      | (Inr height, s') \<Rightarrow>
          (case get_tip_hash net base s' of
             (Inl e, s'') \<Rightarrow> (if network_trouble e then Inr None else Inl e, s'')
           | (Inr tip, s'') \<Rightarrow>
               (case get_recommended_fee_rate net F base 1 s'' of
                  (Inl e, s3) \<Rightarrow> (if network_trouble e then Inr None else Inl e, s3)
                | (Inr rate, s3) \<Rightarrow> (Inr (Some (height, tip, rate)), s3))))"

fun balance_lines ::
    "'s net \<Rightarrow> 'f floats \<Rightarrow> string \<Rightarrow> world \<Rightarrow> node list \<Rightarrow> 's \<Rightarrow> (string \<times> (int \<times> int) option \<times> int) list res \<times> 's" where
  "balance_lines net F base w [] s = (Inr [], s)"
| "balance_lines net F base w (n # ns) s =
     (case get_address_balance net F base (node_address n) s of (r, s') \<Rightarrow>
        (case r of
           Inl e \<Rightarrow>
             (if network_trouble e
              then (case balance_lines net F base w ns s' of
                      (ls, s'') \<Rightarrow> (rbind ls (\<lambda>ls. Inr ((node_alias n, None, get_node_offchain_balance w n) # ls)), s''))
              else (Inl e, s'))
         | Inr b \<Rightarrow>
             (case balance_lines net F base w ns s' of
                (ls, s'') \<Rightarrow> (rbind ls (\<lambda>ls. Inr ((node_alias n, Some b, get_node_offchain_balance w n) # ls)), s''))))"

definition info_panel ::
    "'s net \<Rightarrow> 'f floats \<Rightarrow> string \<Rightarrow> world \<Rightarrow> 's \<Rightarrow> ((int \<times> string \<times> 'f) option \<times> (string \<times> (int \<times> int) option \<times> int) list) res \<times> 's" where
  "info_panel net F base w s =
     (case network_status net F base s of
        (Inl e, s') \<Rightarrow> (Inl e, s')
      | (Inr st, s') \<Rightarrow>
          (case balance_lines net F base w (nodes w) s' of (ls, s'') \<Rightarrow> (rbind ls (\<lambda>ls. Inr (st, ls)), s'')))"

section \<open>The commands\<close>

text \<open>Reporting starts from the stored channels; a directory that cannot be read ends the command.\<close>

definition after_sync ::
    "disk \<Rightarrow> int \<Rightarrow> string \<Rightarrow> (world \<Rightarrow> 's \<Rightarrow> 'a res \<times> 's) \<Rightarrow> world \<Rightarrow> directory \<Rightarrow> 's \<Rightarrow> 'a res \<times> world \<times> directory \<times> 's" where
  "after_sync os now name report w d s =
     (case sync_nodes_with_storage os now name w d of
        (Inl e, w', d') \<Rightarrow> (Inl e, w', d', s)
      | (Inr _, w', d') \<Rightarrow> (case report w' s of (r, s') \<Rightarrow> (r, w', d', s')))"

definition info_command ::
    "'s net \<Rightarrow> 'f floats \<Rightarrow> string \<Rightarrow> disk \<Rightarrow> int \<Rightarrow> string \<Rightarrow> world \<Rightarrow> directory \<Rightarrow> 's \<Rightarrow>
      ((int \<times> string \<times> 'f) option \<times> (string \<times> (int \<times> int) option \<times> int) list) res \<times> world \<times> directory \<times> 's" where
  "info_command net F base os now name = after_sync os now name (info_panel net F base)"

definition funds_command ::
    "'s net \<Rightarrow> 'f floats \<Rightarrow> string \<Rightarrow> disk \<Rightarrow> int \<Rightarrow> string \<Rightarrow> world \<Rightarrow> directory \<Rightarrow> 's \<Rightarrow> funds_report res \<times> world \<times> directory \<times> 's" where
  "funds_command net F base os now name = after_sync os now name (funds_matrix net F base)"

definition status_command ::
    "disk \<Rightarrow> int \<Rightarrow> string \<Rightarrow> world \<Rightarrow> directory \<Rightarrow> 's \<Rightarrow> status_row list res \<times> world \<times> directory \<times> 's" where
  "status_command os now name = after_sync os now name (\<lambda>w s. (Inr (status_rows w), s))"

text \<open>The payment demonstration with the two functions it is handed: the nodes are saved, then loaded again and shown.\<close>

definition simulate_command ::
    "bool \<Rightarrow> nat \<Rightarrow> 's net \<Rightarrow> ('s \<Rightarrow> int \<times> 's) \<Rightarrow> (int \<Rightarrow> 's \<Rightarrow> 's) \<Rightarrow> 'f floats \<Rightarrow> (json \<Rightarrow> string) \<Rightarrow> btclib \<Rightarrow> 'p eclib \<Rightarrow>
      (tx \<Rightarrow> bytes) \<Rightarrow> (tx \<Rightarrow> bytes) \<Rightarrow> string \<Rightarrow> bytes \<Rightarrow> bytes \<Rightarrow> bytes \<Rightarrow> (json \<Rightarrow> string) \<Rightarrow> disk \<Rightarrow> int \<Rightarrow> string \<Rightarrow>
      world \<Rightarrow> directory \<Rightarrow> 's \<Rightarrow> (status_row list res \<times> world \<times> directory \<times> 's) option" where
  "simulate_command live fuel net clock sleep F repr L E txid_of serialize base random1 random2 random3 prt os now name w d s =
     map_option (\<lambda>(r, w', s').
       case rbind r (\<lambda>_. save_nodes_to_storage prt os name w' d) of
         Inl e \<Rightarrow> (Inl e, w', d, s')
       | Inr d' \<Rightarrow> status_command os now name w' d' s')
       (run_simulate_demo live fuel net clock sleep F repr L E txid_of serialize base random1 random2 random3 (w, s))"

section \<open>Shachain\<close>

text \<open>The receiver after a hundred secrets and the secret reconstructed.\<close>

definition shachain_demo :: "bytes \<Rightarrow> (receiver \<times> bytes) res" where
  "shachain_demo random =
     (let gen = ShachainGenerator random [] in
      rbind (fold_res (\<lambda>i r. rbind (generator_secret gen i) (\<lambda>sec. add_secret sec i r)) (map int [0..<100]) empty_receiver) (\<lambda>r.
      rbind (get_secret r 42) (\<lambda>reconstructed.
      rbind (generator_secret gen 42) (\<lambda>expected.
      rbind (assert_res (reconstructed = Some expected)) (\<lambda>_. Inr (r, expected))))))"

section \<open>The reports are consistent\<close>

text \<open>Every linked channel has one row, and no other.\<close>

lemma status_fold:
  assumes "distinct (map channel_id cs)" and "set processed = channel_id ` set cs"
  shows "\<exists>cs'. snd (fold status_step ds (processed, map status_row_of cs)) = map status_row_of cs' \<and> distinct (map channel_id cs') \<and>
    set cs' \<subseteq> set cs \<union> set ds \<and> channel_id ` set cs' = channel_id ` (set cs \<union> set ds)"
  using assms
proof (induction ds arbitrary: cs processed)
  case Nil
  then show ?case by auto
next
  case (Cons d ds)
  show ?case
  proof (cases "channel_id d \<in> set processed")
    case True
    with Cons.IH [OF Cons.prems] Cons.prems(2) show ?thesis by (fastforce simp: status_step_def)
  next
    case False
    with Cons.prems have "distinct (map channel_id (cs @ [d]))" "set (channel_id d # processed) = channel_id ` set (cs @ [d])" by auto
    from Cons.IH [OF this] False show ?thesis by (auto simp: status_step_def)
  qed
qed

lemma status_rows_channels:
  "\<exists>cs. status_rows w = map status_row_of cs \<and> distinct (map channel_id cs) \<and> set cs \<subseteq> set (linked_channels w) \<and>
    channel_id ` set cs = channel_id ` set (linked_channels w)"
  using status_fold [of "[]" "[]" "linked_channels w"] by (simp add: status_rows_def)

text \<open>The totals are the sums over the nodes, and the portfolio adds up to them: a node whose balance could not be read counts as nothing.\<close>

lemma onchain_rows_aliases: "onchain_rows net F base ns s = (Inr rows, s') \<Longrightarrow> map fst rows = map node_alias ns"
  by (induction net F base ns s arbitrary: rows s' rule: onchain_rows.induct) (auto split: prod.splits sum.splits)

lemma fold_dict_get:
  "distinct (map fst rows) \<Longrightarrow> (a, row) \<in> set rows \<Longrightarrow> dict_get (fold (\<lambda>(a, row). dict_set a (f row)) rows d) a = Some (f row)"
proof (induction rows arbitrary: d)
  case (Cons r rows)
  obtain b v where r: "r = (b, v)" by (cases r)
  have other: "dict_get (fold (\<lambda>(a, row). dict_set a (f row)) rows d) a = dict_get d a" if "a \<notin> fst ` set rows" for d
    using that by (induction rows arbitrary: d) auto
  show ?case
  proof (cases "(a, row) = r")
    case True
    then show ?thesis using Cons.prems(1) r other by auto
  next
    case False
    then show ?thesis using Cons r by auto
  qed
qed simp

lemma funds_add_up:
  assumes "funds_matrix net F base w s = (Inr report, s')" and "distinct (map node_alias (nodes w))"
  shows "sum_list (map (\<lambda>(a, l1, l2, t). t) (portfolio report)) = total_confirmed report + total_offchain report \<and>
    length (portfolio report) = length (nodes w)"
proof -
  obtain rows where rows: "onchain_rows net F base (nodes w) s = (Inr rows, s')" and report: "report = report_of w rows"
    using assms(1) by (auto simp: funds_matrix_def rbind_eq_Inr split: prod.splits)
  note aliases = onchain_rows_aliases [OF rows]
  define d where "d = fold (\<lambda>(a, row). dict_set a (row_confirmed row)) rows []"
  have len: "length rows = length (nodes w)" using arg_cong [OF aliases, of length] by simp
  have get: "dict_get d (node_alias (nodes w ! i)) = Some (row_confirmed (snd (rows ! i)))" if "i < length (nodes w)" for i
  proof -
    have "(node_alias (nodes w ! i), snd (rows ! i)) = rows ! i"
      using that len arg_cong [OF aliases, of "\<lambda>as. as ! i"] by (simp add: prod_eq_iff)
    then have "(node_alias (nodes w ! i), snd (rows ! i)) \<in> set rows" using that len by simp
    then show ?thesis using assms(2) aliases unfolding d_def by (intro fold_dict_get) simp_all
  qed
  have "map (\<lambda>n. case dict_get d (node_alias n) of None \<Rightarrow> 0 | Some b \<Rightarrow> b) (nodes w) = map (row_confirmed \<circ> snd) rows"
    using len get by (intro nth_equalityI) simp_all
  moreover have "sum_list (map (\<lambda>(a, l1, l2, t). t) (map (portfolio_row w d) ns)) =
      sum_list (map (\<lambda>n. case dict_get d (node_alias n) of None \<Rightarrow> 0 | Some b \<Rightarrow> b) ns) + sum_list (map (get_node_offchain_balance w) ns)" for ns
    by (induction ns) (simp_all add: portfolio_row_def Let_def)
  ultimately show ?thesis by (simp add: report report_of_def Let_def d_def [symmetric] comp_def)
qed

text \<open>
  The demonstration of the shachain runs through for every seed, but not for the reason it gives: it hands the indices out from 0 up, and the
  secret of index 0 is the seed, so that one slot holds everything.
\<close>

lemma seed_is_first_secret:
  assumes "length seed = 32"
  shows "derive_shachain_secret seed 0 = Inr seed" and "in_tree i \<Longrightarrow> can_derive 0 i"
proof -
  show "derive_shachain_secret seed 0 = Inr seed"
    using assms walk_zeros [of "rev [0..<48]" 0 seed] by (simp add: derive_shachain_secret_def)
  have "trailing_zeros 0 = 48" by code_simp
  then show "in_tree i \<Longrightarrow> can_derive 0 i" by (subst can_derive_interval) (auto simp: in_tree_def)
qed

lemma reveal_after_seed:
  assumes "length seed = 32" and "\<forall>i \<in> set is. in_tree i" and "elements r = [(0, hexlify seed)]"
  shows "fold_res (reveal seed) is r = Inr r"
  using assms(2)
proof (induction "is")
  case (Cons i "is")
  obtain p where p: "derive_shachain_secret seed i = Inr p" "length p = 32" using derive_secret_ok [OF assms(1), of i] Cons.prems by auto
  have "true_items seed (elements r)" by (simp add: true_items_def assms(3) seed_is_first_secret(1) [OF assms(1)])
  then have "check_derivable (elements r) p i = Inr True"
    using check_derivable_true [of seed "elements r" i p] seed_is_first_secret(2) [OF assms(1)] Cons.prems p(1) by (simp add: assms(3))
  then have "reveal seed i r = Inr r" using p by (simp add: reveal_def generator_secret_def add_secret_def)
  with Cons show ?case by simp
qed simp

lemma shachain_demo_ok:
  assumes "length random = 32"
  shows "\<exists>r expected. shachain_demo random = Inr (r, expected) \<and> elements r = [(0, hexlify random)] \<and> generator_secret random 42 = Inr expected"
proof -
  have gen: "ShachainGenerator random [] = random" using assms by (auto simp: ShachainGenerator_def)
  have tree: "in_tree 0" "in_tree 42" "\<forall>i \<in> set (map int [1..<100]). in_tree i" by (auto simp: in_tree_def)
  let ?r = "\<lparr>elements = [(0, hexlify random)], last_index = 0\<rparr>"
  have "prune [(0, hexlify random)] = [(0, hexlify random)]" by (simp add: prune_def prune_from_def dict_keys_def)
  then have first: "reveal random 0 empty_receiver = Inr ?r"
    using assms by (simp add: reveal_def generator_secret_def seed_is_first_secret(1) add_secret_def empty_receiver_def)
  have upt: "map int [0..<100] = 0 # map int [1..<100]" by (simp add: upt_conv_Cons)
  have all: "fold_res (reveal random) (map int [0..<100]) empty_receiver = Inr ?r"
    unfolding upt using first reveal_after_seed [OF assms tree(3), of ?r] by simp
  obtain e where e: "derive_shachain_secret random 42 = Inr e" using derive_secret_ok [OF assms tree(2)] by blast
  have "receiver_inv random {0} ?r"
    using tree(1) seed_is_first_secret [OF assms] by (auto simp: receiver_inv_def true_items_def wf_dict_def split: if_splits)
  from get_secret_true [OF this tree(2)] have "get_secret ?r 42 = Inr (Some e)"
    using seed_is_first_secret(2) [OF assms tree(2)] e by (auto split: if_splits)
  then show ?thesis
    using all e by (simp add: shachain_demo_def gen reveal_def [abs_def] generator_secret_def assert_res_def)
qed

text \<open>
  The funding command saves without having loaded: from a process that has just started, the state it writes holds the new channel alone,
  whatever was stored before.
\<close>

lemma fold_same_channel:
  assumes "\<forall>x \<in> set cs. x = c" and "cs \<noteq> []"
  shows "fold (\<lambda>c d. dict_set (channel_id c) c d) cs [] = [(channel_id c, c)]"
proof -
  have "\<forall>x \<in> set cs. x = c \<Longrightarrow> fold (\<lambda>c d. dict_set (channel_id c) c d) cs [(channel_id c, c)] = [(channel_id c, c)]" for cs
    by (induction cs) auto
  then show ?thesis using assms by (cases cs) auto
qed

lemma funding_forgets_stored_channels:
  assumes "fund_channel net L address serialize base prt os name funder counterparty capacity w d s = (Inr (Funded txid), w', d', s')"
    and "\<forall>n \<in> set (nodes w). node_channels n = []" and "funder \<noteq> counterparty"
  shows "\<exists>c. save_state prt os name \<lparr>channels_of = [(channel_id c, c)], preimages_of = []\<rparr> d = Inr d' \<and> funding_txid c = Some txid"
proof -
  obtain i j where at: "node_at w funder = Some i" "node_at w counterparty = Some j"
    using assms(1) by (auto simp: fund_channel_def split: option.splits)
  have ij: "i < length (nodes w)" "j < length (nodes w)" "i \<noteq> j" using node_at_alias [OF at(1)] node_at_alias [OF at(2)] assms(3) by auto
  obtain out where run: "w' = (fst (open_channel i j capacity w))\<lparr>chans := (chans (fst (open_channel i j capacity w)))[length (chans w) :=
        (chans (fst (open_channel i j capacity w)) ! length (chans w))\<lparr>funding_txid := Some txid, funding_vout := Some out\<rparr>]\<rparr>"
    and saved: "save_nodes_to_storage prt os name w' d = Inr d'"
    using assms(1) at by (auto simp: fund_channel_def open_channel_def Let_def split: sum.splits prod.splits if_splits)
  let ?c = "(new_channel (nodes w ! i) (nodes w ! j) capacity)\<lparr>funding_txid := Some txid, funding_vout := Some out\<rparr>"
  have c: "chans w' ! length (chans w) = ?c" by (simp add: run open_channel_def Let_def)
  have len: "length (nodes w') = length (nodes w)" by (simp add: run open_channel_def Let_def)
  have node: "node_channels (nodes w' ! k) = (if k = j then [(node_alias (nodes w ! i), length (chans w))]
      else if k = i then [(node_alias (nodes w ! j), length (chans w))] else [])" if "k < length (nodes w)" for k
    using ij that assms(2) by (simp add: run open_channel_def Let_def nth_update_node link_channel_def)
  have "\<forall>x \<in> set (linked_channels w'). x = ?c"
  proof
    fix x assume "x \<in> set (linked_channels w')"
    then obtain n where n: "n \<in> set (nodes w')" and x: "x \<in> snd ` set (node_peers w' n)" by (auto simp: linked_channels_def)
    from n obtain k where k: "k < length (nodes w)" "n = nodes w' ! k" by (metis in_set_conv_nth len)
    from x have "x \<in> (\<lambda>(a, k). chans w' ! k) ` set (node_channels n)" by (force simp: node_peers_def)
    then show "x = ?c" using node [OF k(1)] k(2) c by (auto split: if_splits)
  qed
  moreover have "linked_channels w' \<noteq> []"
    using ij node [of i] len nth_mem [of i "nodes w'"] by (force simp: linked_channels_def node_peers_def)
  ultimately have "save_nodes w' = \<lparr>channels_of = [(channel_id ?c, ?c)], preimages_of = []\<rparr>"
    by (simp add: save_nodes_def fold_same_channel del: channel.simps)
  then show ?thesis using saved by (intro exI [of _ ?c]) (simp add: save_nodes_to_storage_def)
qed

section \<open>The demonstration across a restart\<close>

lemma linked_after_sync:
  assumes "json_printer prt" and "mutual w" and "refs_ok w" and "inj_on channel_id (set (linked_channels w))"
    and "list_all wf_channel (linked_channels w)" and "with_suffix_tmp name \<noteq> name" and "can_write os" and "can_read os'"
    and "map node_alias (nodes w0) = map node_alias (nodes w)" and "refs_ok w0"
    and "\<And>i p. i < length (nodes w) \<Longrightarrow> peer_channel w0 i p = None \<or> peer_channel w0 i p = peer_channel w i p"
  shows "\<exists>d'. save_nodes_to_storage prt os name w d = Inr d' \<and>
    (\<exists>w1. sync_nodes_with_storage os' now name w0 d' = (Inr (), w1, d') \<and> set (linked_channels w1) = set (linked_channels w))"
proof -
  have saved: "snd ` set (channels_of (save_nodes w)) = set (linked_channels w)" "wf_dict (channels_of (save_nodes w))"
    using saved_channels [OF assms(4)] by (simp_all add: save_nodes_def)
  have "list_all (\<lambda>(k, c). wf_channel c) (channels_of (save_nodes w))" using assms(5) saved(1) by (force simp: list_all_iff)
  with saved(2) have wf: "wf_network (save_nodes w)" by (simp add: wf_network_def) (simp add: save_nodes_def)
  obtain d' where d': "save_state prt os name (save_nodes w) d = Inr d'" using assms(7) by (simp add: save_state_def)
  let ?w1 = "sync_nodes (save_nodes w) w0"
  have sync: "sync_nodes_with_storage os' now name w0 d' = (Inr (), ?w1, d')"
    using json_printer.save_load [OF assms(1) wf assms(6,8) d'] by (simp add: sync_nodes_with_storage_def)
  note s = sync_save [OF assms(2-4,9-11)]
  show ?thesis
  proof (cases "nodes w = []")
    case True
    then have "nodes w0 = []" using assms(9) by simp
    then have "nodes (fold sync_channel cs w0) = []" for cs
      by (induction cs rule: rev_induct) (simp_all add: sync_channel_def node_at_def split: option.split)
    with True sync d' show ?thesis by (simp add: save_nodes_to_storage_def sync_nodes_def linked_channels_def)
  next
    case False
    then have "refs_ok ?w1" "map node_alias (nodes ?w1) = map node_alias (nodes w)" using s [of 0] by simp_all
    moreover from this(2) have "length (nodes ?w1) = length (nodes w)" by (metis length_map)
    moreover have "(\<exists>i < length (nodes w). \<exists>p. peer_channel ?w1 i p = Some c) = (\<exists>i < length (nodes w). \<exists>p. peer_channel w i p = Some c)" for c
      by (intro ex_cong1 conj_cong refl) (simp add: s)
    ultimately have "set (linked_channels ?w1) = set (linked_channels w)" using assms(3) by (simp add: linked_channels_peers)
    with sync d' show ?thesis by (auto simp: save_nodes_to_storage_def)
  qed
qed

definition row_figures :: "status_row \<Rightarrow> string \<times> string \<times> int \<times> int \<times> int \<times> channel_state \<times> nat" where
  "row_figures r = (row_sender r, row_receiver r, row_capacity r, row_sender_sat r, row_receiver_sat r, row_state r, row_htlcs r)"

lemma settled_rows:
  assumes "settled_channel ''Alice'' ''Bob'' c1" and "settled_channel ''Bob'' ''Dave'' c2" and "set (linked_channels w) = {c1, c2}"
  shows "set (status_rows w) = {status_row_of c1, status_row_of c2} \<and> length (status_rows w) = 2"
proof -
  obtain cs where cs: "status_rows w = map status_row_of cs" "distinct (map channel_id cs)" "set cs \<subseteq> {c1, c2}"
      "channel_id ` set cs = {channel_id c1, channel_id c2}"
    using status_rows_channels [of w] assms(3) by auto
  have ids: "channel_id c1 \<noteq> channel_id c2" using assms(1,2) by (simp add: settled_channel_def)
  have set: "set cs = {c1, c2}"
  proof -
    have "channel_id c1 \<in> channel_id ` set cs" "channel_id c2 \<in> channel_id ` set cs" by (simp_all add: cs(4))
    then have "c1 \<in> set cs" "c2 \<in> set cs" using cs(3) ids by auto
    with cs(3) show ?thesis by blast
  qed
  have "c1 \<noteq> c2" using ids by auto
  moreover have "distinct cs" using cs(2) by (simp add: distinct_map)
  ultimately have "length cs = 2" using set distinct_card [of cs] by simp
  then show ?thesis
    using set by (simp add: cs(1))
qed

lemma settled_figures:
  "settled_channel ''Alice'' ''Bob'' c1 \<Longrightarrow> settled_channel ''Bob'' ''Dave'' c2 \<Longrightarrow>
   row_figures ` {status_row_of c1, status_row_of c2} = {(''Alice'', ''Bob'', 100000, 75000, 25000, CH_OPEN, 0), (''Bob'', ''Dave'', 100000, 75000, 25000, CH_OPEN, 0)}"
  by (simp add: row_figures_def status_row_of_def settled_channel_def spec_defs)

text \<open>The world of the demonstration at its end.\<close>

lemma demo_world:
  assumes "distinct (map node_alias (nodes w))" and "a < length (nodes w)" "b < length (nodes w)" "d < length (nodes w)"
    and "node_alias (nodes w ! a) = ''Alice''" "node_alias (nodes w ! b) = ''Bob''" "node_alias (nodes w ! d) = ''Dave''"
    and chan: "\<And>k. k < length (nodes w) \<Longrightarrow> node_channels (nodes w ! k) =
      (if k = a then [(''Bob'', ab)] else if k = b then [(''Alice'', ab), (''Dave'', bd)] else if k = d then [(''Bob'', bd)] else [])"
    and "ab < length (chans w)" "bd < length (chans w)"
    and "settled_channel ''Alice'' ''Bob'' (chans w ! ab)" "settled_channel ''Bob'' ''Dave'' (chans w ! bd)"
  shows "mutual w" and "refs_ok w" and "set (linked_channels w) = {chans w ! ab, chans w ! bd}"
proof -
  have ne: "a \<noteq> b" "b \<noteq> d" "a \<noteq> d" using assms(5-7) by auto
  have shared: "shares w a b ab" "shares w b a ab" "shares w b d bd" "shares w d b bd"
    using assms ne by (auto simp: shares_def settled_channel_def)
  show "mutual w"
    unfolding mutual_def
  proof (intro conjI allI impI)
    show "distinct (map node_alias (nodes w))" by (rule assms(1))
    fix i p ref assume "i < length (nodes w)" "dict_get (node_channels (nodes w ! i)) p = Some ref"
    then show "\<exists>j. node_alias (nodes w ! j) = p \<and> shares w i j ref"
      using shared assms(5-7) chan by (auto split: if_splits)
  qed
  show refs: "refs_ok w" using assms by (auto simp: refs_ok_def wf_dict_def split: if_splits)
  have peer: "peer_channel w i p = Some c \<longleftrightarrow>
      (i = a \<and> p = ''Bob'' \<and> c = chans w ! ab) \<or> (i = b \<and> p = ''Alice'' \<and> c = chans w ! ab) \<or>
      (i = b \<and> p = ''Dave'' \<and> c = chans w ! bd) \<or> (i = d \<and> p = ''Bob'' \<and> c = chans w ! bd)" if "i < length (nodes w)" for i p c
    using chan [OF that] ne by (auto simp: peer_channel_def node_peers_def)
  show "set (linked_channels w) = {chans w ! ab, chans w ! bd}"
  proof -
    have "peer_channel w a ''Bob'' = Some (chans w ! ab)" "peer_channel w b ''Dave'' = Some (chans w ! bd)"
      using peer [OF assms(2)] peer [OF assms(3)] by simp_all
    then have "{chans w ! ab, chans w ! bd} \<subseteq> set (linked_channels w)"
      using assms(2,3) unfolding linked_channels_peers [OF refs] by blast
    moreover have "c \<in> {chans w ! ab, chans w ! bd}" if c: "c \<in> set (linked_channels w)" for c
    proof -
      obtain i p where "i < length (nodes w)" "peer_channel w i p = Some c" using c unfolding linked_channels_peers [OF refs] by blast
      then show ?thesis using peer by auto
    qed
    ultimately show ?thesis by blast
  qed
qed

lemma demo_saved:
  assumes w: "mutual w" "refs_ok w" "set (linked_channels w) = {c1, c2}"
    and settled: "settled_channel ''Alice'' ''Bob'' c1" "settled_channel ''Bob'' ''Dave'' c2"
    and disk: "json_printer prt" "with_suffix_tmp name \<noteq> name" "can_write os" "can_read os'"
    and w0: "map node_alias (nodes w0) = map node_alias (nodes w)" "refs_ok w0"
      "\<And>i p. i < length (nodes w) \<Longrightarrow> peer_channel w0 i p = None \<or> peer_channel w0 i p = peer_channel w i p"
  shows "\<exists>d' w1 rows. save_nodes_to_storage prt os name w d = Inr d' \<and> status_command os' now name w0 d' t = (Inr rows, w1, d', t) \<and>
    set rows = {status_row_of c1, status_row_of c2} \<and> length rows = 2"
proof -
  have "inj_on channel_id (set (linked_channels w))" using settled by (auto simp: w(3) settled_channel_def)
  moreover have "list_all wf_channel (linked_channels w)"
    using settled by (auto simp: list_all_iff w(3) settled_channel_def wf_channel_def empty_store_def wf_dict_def)
  ultimately obtain d' w1 where "save_nodes_to_storage prt os name w d = Inr d'" "sync_nodes_with_storage os' now name w0 d' = (Inr (), w1, d')"
      "set (linked_channels w1) = set (linked_channels w)"
    using linked_after_sync [OF disk(1) w(1,2) _ _ disk(2-4) w0] by blast
  then show ?thesis
    using settled_rows [OF settled, of w1] w(3)
    by (intro exI [of _ d'] exI [of _ w1] exI [of _ "status_rows w1"]) (simp add: status_command_def after_sync_def)
qed

text \<open>
  Property C39: the demonstrated payment survives a restart.  The command \<open>simulate\<close>, started with nodes that have no channels and given
  that its channels can be opened (\<open>open_demo\<close>: the coins are found), that its polling ends (\<open>announce_all\<close>; at once without
  \<open>--live\<close>), that the block height can be queried, that the random numbers are usable secrets and that the disk can be read and
  written, under a file name that does not end in \<open>.tmp\<close>, saves its state and shows two open
  channels, from Alice to Bob and from Bob to Dave, with 75000 on the payer's and 25000 on the payee's side and no HTLC left in flight;
  and \<open>status\<close> in a new process, whose nodes have the same names and no channels, loads the state file and shows the same rows, with
  the identifiers and funding transactions.
\<close>

theorem payment_survives_restart:
  assumes "wallet_lib L" and "\<forall>b. lib_x L (lib_b2x L b) = Some b \<and> bytes_fromhex (lib_b2x L b) = Inr b"
    and "\<forall>t. \<exists>op. lib_outpoint L (hexlify (txid_of t)) 0 = Inr op" and "\<forall>p q. create_multisig_2of2 L p q \<noteq> []"
    and "\<forall>k < length (nodes w). node_pubkey (nodes w ! k) = lib_pub L (node_secret (nodes w ! k)) \<and> length (node_pubkey (nodes w ! k)) < 65536"
    and "generate_revocation_secret E random2 = Inr sp2" and "generate_revocation_secret E random3 = Inr sp3"
    and "open_demo net F repr L txid_of base (w, s) = (Inr su, (w1, s1))"
    and "announce_all live fuel net clock sleep base serialize su s1 = Some s2"
    and "get_block_height net base s2 = (Inr height, s3)"
    and "json_printer prt" and "with_suffix_tmp name \<noteq> name" and "can_write os" and "can_read os" and "can_read os'"
    and "distinct (map node_alias (nodes w))" and "list_all (\<lambda>n. node_channels n = []) (nodes w)"
    and "map node_alias (nodes w0) = map node_alias (nodes w)" and "list_all (\<lambda>n. node_channels n = []) (nodes w0)"
  shows "\<exists>rows w' d' rows' w''.
    simulate_command live fuel net clock sleep F repr L E txid_of serialize base random1 random2 random3 prt os now name w d s =
      Some (Inr rows, w', d', s3) \<and>
    status_command os' now' name w0 d' t = (Inr rows', w'', d', t) \<and>
    row_figures ` set rows = {(''Alice'', ''Bob'', 100000, 75000, 25000, CH_OPEN, 0), (''Bob'', ''Dave'', 100000, 75000, 25000, CH_OPEN, 0)} \<and>
    set rows' = set rows \<and> length rows = 2 \<and> length rows' = 2"
proof -
  note opened = open_demo_ready [OF assms(8)]
  let ?a = "su_alice su" and ?b = "su_bob su" and ?d = "su_dave su" and ?ab = "su_ab su" and ?bd = "su_bd su"
  obtain commit close w' where run: "run_simulate_demo live fuel net clock sleep F repr L E txid_of serialize base random1 random2 random3 (w, s) =
      Some (Inr (demo_route, commit, close), (w', s3))"
    and same: "same_nodes w1 w'" and lens: "length (chans w') = length (chans w1)"
    and settled: "settled_channel ''Alice'' ''Bob'' (chans w' ! ?ab)" "settled_channel ''Bob'' ''Dave'' (chans w' ! ?bd)"
    using simulate_runs [OF assms(1-10), of random1] by blast
  have at: "node_at w ''Alice'' = Some ?a" "node_at w ''Bob'' = Some ?b" "node_at w ''Dave'' = Some ?d"
    and len: "length (nodes w') = length (nodes w)" and named: "node_alias (nodes w' ! k) = node_alias (nodes w ! k)" for k
    using opened same by (simp_all add: same_nodes_def)
  have refs: "?ab < length (chans w')" "?bd < length (chans w')" using opened lens by (simp_all add: demo_ready_def linked_def)
  have aliases: "map node_alias (nodes w') = map node_alias (nodes w)" by (rule nth_equalityI) (simp_all add: len named)
  have chan: "node_channels (nodes w' ! k) = (if k = ?a then [(''Bob'', ?ab)] else if k = ?b then [(''Alice'', ?ab), (''Dave'', ?bd)]
      else if k = ?d then [(''Bob'', ?bd)] else [])" if "k < length (nodes w')" for k
    using opened same assms(17) that len by (simp add: same_nodes_def list_all_iff)
  note ends = at [THEN node_at_alias]
  note w' = demo_world [of w', unfolded aliases len named, OF assms(16) ends(1) [THEN conjunct1] ends(2) [THEN conjunct1] ends(3) [THEN conjunct1]
      ends(1) [THEN conjunct2] ends(2) [THEN conjunct2] ends(3) [THEN conjunct2] chan [unfolded len] refs settled]
  note disk = assms(11-13)
  have len0: "length (nodes w0) = length (nodes w)" using arg_cong [OF assms(18), of length] by simp
  have empty: "node_channels (nodes w0 ! k) = []" if "k < length (nodes w)" for k using assms(19) len0 that by (simp add: list_all_iff)
  have refs0: "refs_ok w0" using assms(16,18) empty len0 by (simp add: refs_ok_def)
  have old: "peer_channel w0 k p = None \<or> peer_channel w0 k p = peer_channel w' k p" if "k < length (nodes w')" for k p
    using empty that len by (simp add: peer_channel_def get_node_peers)
  obtain d' w2 rows where 1: "save_nodes_to_storage prt os name w' d = Inr d'" "status_command os now name w' d' s3 = (Inr rows, w2, d', s3)"
      "set rows = {status_row_of (chans w' ! ?ab), status_row_of (chans w' ! ?bd)}" "length rows = 2"
    using demo_saved [OF w' settled disk assms(14) refl w'(2) disjI2 [OF refl], of d now s3] by blast
  obtain w3 rows' where 2: "status_command os' now' name w0 d' t = (Inr rows', w3, d', t)" "set rows' = {status_row_of (chans w' ! ?ab), status_row_of (chans w' ! ?bd)}" "length rows' = 2"
    using demo_saved [OF w' settled disk assms(15) assms(18) [folded aliases] refs0 old, of d now' t] 1(1) by auto
  show ?thesis
    using 1 2 settled_figures [OF settled] by (intro exI [of _ rows] exI [of _ w2] exI [of _ d'] exI [of _ rows'] exI [of _ w3]) (simp add: simulate_command_def run)
qed

lemma payment_survives_restart_witness:
  "\<exists>rows w' d' rows' w''.
    simulate_command False 0 height_net (\<lambda>s. (0, s)) (\<lambda>d s. s) no_floats (\<lambda>v. []) wire_lib line_curve (\<lambda>t. []) (\<lambda>t. []) [] [7]
      (replicate 31 0 @ [1]) (replicate 31 0 @ [1]) dumps healthy 7 ''s.json'' three_nodes [] () = Some (Inr rows, w', d', ()) \<and>
    status_command healthy 8 ''s.json'' three_nodes d' () = (Inr rows', w'', d', ()) \<and> length rows' = 2"
proof -
  obtain su w1 where opened: "open_demo height_net no_floats (\<lambda>v. []) wire_lib (\<lambda>t. []) [] (three_nodes, ()) = (Inr su, (w1, ()))"
    using three_nodes_open by blast
  have suffix: "with_suffix_tmp ''s.json'' \<noteq> ''s.json''" by code_simp
  have disk: "can_write healthy" "can_read healthy" by (simp_all add: healthy_def)
  have start: "distinct (map node_alias (nodes three_nodes))" "list_all (\<lambda>n. node_channels n = []) (nodes three_nodes)"
    by (simp_all add: three_nodes_def plain_node_def)
  have hex: "\<forall>b. lib_x wire_lib (lib_b2x wire_lib b) = Some b \<and> bytes_fromhex (lib_b2x wire_lib b) = Inr b" by (simp add: unhexlify_hexlify)
  obtain rows w' d' rows' w'' where
    "simulate_command False 0 height_net (\<lambda>s. (0, s)) (\<lambda>d s. s) no_floats (\<lambda>v. []) wire_lib line_curve (\<lambda>t. []) (\<lambda>t. []) [] [7]
      (replicate 31 0 @ [1]) (replicate 31 0 @ [1]) dumps healthy 7 ''s.json'' three_nodes [] () = Some (Inr rows, w', d', ())"
    "status_command healthy 8 ''s.json'' three_nodes d' () = (Inr rows', w'', d', ())" "length rows' = 2"
    using payment_survives_restart [OF wire_wallet_lib hex three_nodes_facts(2-4,1,1) opened
        three_nodes_facts(5) [where clock = "\<lambda>s. (0, s)" and sleep = "\<lambda>d s. s" and serialize = "\<lambda>t. []"] height_net_height std_printer suffix
        disk(1,2,2) start refl start(2), where ?random1.0 = "[7]" and now = 7 and now' = 8 and d = "[]" and t = "()"]
    by (elim exE conjE) (rule that)
  then show ?thesis by blast
qed

end
