(* ===== verification/Servers.thy ===== *)
theory Servers
  imports Daemon
begin

text \<open>
  The command \<open>daemon\<close> of \<open>cli/app.py\<close>, and the event loop under the daemon: connections arrive, bytes arrive on them, and
  the tasks of their read loops take turns, in any order.  A turn goes from one start of the loop to the next.  Within it a task can
  also wait in \<open>drain\<close> after a PONG has been written; nothing of the turn is left by then, so this is the same as waiting at
  the next start of the loop.  Handlers are functions or coroutines that do not wait: a coroutine that gives up control in the middle of
  a message is outside the model, and so is a transport that is lost while bytes are pending.  The theorem shows that connections do not
  interfere: what becomes of one is what its own events make of it, whenever each handler keeps to the connection it is called for.
\<close>

section \<open>The event loop\<close>

text \<open>
  \<open>live\<close> are the connections whose task has not ended.  An event carries the name of the connection it belongs to; a new
  connection comes with a name that no task has had.
\<close>

datatype server_event = Incoming nat bytes bool | Arrive nat bytes bool | Turn nat

record ('h, 's) server =
  srv :: "('h, 's) daemon"
  live :: "nat list"

definition end_task :: "nat \<Rightarrow> ('h, 's) loop_result \<Rightarrow> ('h, 's) server \<Rightarrow> ('h, 's) server" where
  "end_task i r st =
     (case r of
        Suspended d \<Rightarrow> st\<lparr>srv := d\<rparr>
      | Ended d e \<Rightarrow> st\<lparr>srv := d, live := removeAll i (live st)\<rparr>)"

definition turn :: "('h, 's) caller \<Rightarrow> nat \<Rightarrow> ('h, 's) server \<Rightarrow> ('h, 's) server" where
  "turn call i st =
     (let d = srv st
      in if i \<notin> set (live st) then st
         else if running d \<and> is_active (conns d i) then
           (case read_iteration call i d of
              Suspend \<Rightarrow> st
            | Continue d' \<Rightarrow> st\<lparr>srv := d'\<rparr>
            | Break d' \<Rightarrow> end_task i (leave_loop i d' None) st
            | Throw e d' \<Rightarrow> end_task i (leave_loop i d' (Some e)) st)
         else end_task i (leave_loop i d None) st)"

text \<open>Nothing arrives after the end of a stream.\<close>

definition arrive :: "bytes \<Rightarrow> bool \<Rightarrow> connection \<Rightarrow> connection" where
  "arrive bs ended c = (if at_eof c then c else c\<lparr>reader := reader c @ bs, at_eof := ended\<rparr>)"

text \<open>A new connection object gets the name it comes with.\<close>

definition accept :: "nat \<Rightarrow> bytes \<Rightarrow> bool \<Rightarrow> ('h, 's) server \<Rightarrow> ('h, 's) server" where
  "accept i bs ended st =
     (let d = srv st; d' = handle_incoming_connection bs ended (d\<lparr>next_conn := i\<rparr>)
      in if server_open d \<and> i \<notin> set (tasks d)
         then st\<lparr>srv := d'\<lparr>next_conn := max (next_conn d) (next_conn d')\<rparr>, live := live st @ [i]\<rparr> else st)"

fun server_step :: "('h, 's) caller \<Rightarrow> server_event \<Rightarrow> ('h, 's) server \<Rightarrow> ('h, 's) server" where
  "server_step call (Incoming i bs ended) st = accept i bs ended st"
| "server_step call (Arrive i bs ended) st = st\<lparr>srv := update_conn i (arrive bs ended (conns (srv st) i)) (srv st)\<rparr>"
| "server_step call (Turn i) st = turn call i st"

definition run_server :: "('h, 's) caller \<Rightarrow> server_event list \<Rightarrow> ('h, 's) server \<Rightarrow> ('h, 's) server" where
  "run_server call evs st = fold (server_step call) evs st"

section \<open>The command\<close>

text \<open>\<open>daemon\<close>: a daemon without handlers serves until it is interrupted, and is then stopped.\<close>

definition daemon_command :: "string \<Rightarrow> server_event list \<Rightarrow> (unit, unit) daemon" where
  "daemon_command a evs =
     (let st = \<lparr>srv = daemon_start (NodeDaemon a ()), live = []\<rparr>
      in daemon_stop (srv (run_server (\<lambda>h i m d. (d, None)) evs st)))"

section \<open>Turns are the read loop\<close>

lemma turns_end_loop:
  assumes "peer_read_loop call n i (srv st) = Some (Ended d e)" and "i \<in> set (live st)"
  shows "\<exists>k. (turn call i ^^ k) st = st\<lparr>srv := d, live := removeAll i (live st)\<rparr>"
  using assms
proof (induction n arbitrary: st)
  case (Suc n)
  show ?case
  proof (cases "running (srv st) \<and> is_active (conns (srv st) i)")
    case True
    show ?thesis
    proof (cases "read_iteration call i (srv st)")
      case (Continue d')
      have "\<exists>k. (turn call i ^^ k) (st\<lparr>srv := d'\<rparr>) = st\<lparr>srv := d, live := removeAll i (live st)\<rparr>"
        using Suc.IH [of "st\<lparr>srv := d'\<rparr>"] Suc.prems True Continue by simp
      then obtain k where "(turn call i ^^ k) (turn call i st) = st\<lparr>srv := d, live := removeAll i (live st)\<rparr>"
        using Suc.prems True Continue by (auto simp: turn_def)
      then show ?thesis by (intro exI [of _ "Suc k"]) (simp add: funpow_swap1)
    qed (use Suc.prems True in \<open>auto simp: turn_def end_task_def intro!: exI [of _ 1]\<close>)
  next
    case False
    then show ?thesis using Suc.prems by (auto simp: turn_def end_task_def intro!: exI [of _ 1])
  qed
qed simp

section \<open>Stopping closes\<close>

text \<open>
  After the command nothing is served: no peers, no server, and every connection that had a task is closed, but for those whose name is
  no possible key.
\<close>

lemma leave_loop_no_peers:
  "peers d = [] \<Longrightarrow> leave_loop i d None =
    (let a = peer_alias (conns d i)
     in if json_true a \<and> \<not> hashable a then Ended d (Some TypeError) else Ended (update_conn i (conn_close (conns d i)) d) None)"
  by (simp add: leave_loop_def Let_def)

lemma stop_tasks:
  assumes "peers d = []"
  shows "let d' = fold (\<lambda>i d. case leave_loop i d None of Ended d' e \<Rightarrow> d' | Suspended d' \<Rightarrow> d') is d
    in peers d' = [] \<and> running d' = running d \<and> tasks d' = tasks d \<and> (\<forall>k. peer_alias (conns d' k) = peer_alias (conns d k)) \<and>
       (\<forall>k. closed (conns d k) \<longrightarrow> closed (conns d' k)) \<and> (\<forall>k \<in> set is. hashable (peer_alias (conns d k)) \<longrightarrow> closed (conns d' k))"
  using assms
proof (induction "is" arbitrary: d)
  case (Cons i "is")
  let ?d1 = "case leave_loop i d None of Ended d' e \<Rightarrow> d' | Suspended d' \<Rightarrow> d'"
  have 1: "peers ?d1 = []" "running ?d1 = running d" "tasks ?d1 = tasks d" "peer_alias (conns ?d1 k) = peer_alias (conns d k)"
    "closed (conns d k) \<Longrightarrow> closed (conns ?d1 k)" "hashable (peer_alias (conns d i)) \<Longrightarrow> closed (conns ?d1 i)" for k
    using Cons.prems by (simp_all add: leave_loop_no_peers Let_def conn_close_def)
  show ?case using Cons.IH [OF 1(1)] 1(2-) by (simp add: Let_def)
qed (simp add: Let_def)

lemma close_peers:
  "let d' = fold (\<lambda>(a, i) d. update_conn i (conn_close (conns d i)) d) ps d
   in running d' = running d \<and> tasks d' = tasks d"
  by (induction ps arbitrary: d) (simp_all add: Let_def split_beta)

lemma daemon_stop_closes:
  "\<not> running (daemon_stop d) \<and> \<not> server_open (daemon_stop d) \<and> peers (daemon_stop d) = [] \<and> tasks (daemon_stop d) = tasks d \<and>
   (\<forall>i \<in> set (tasks d). hashable (peer_alias (conns (daemon_stop d) i)) \<longrightarrow> closed (conns (daemon_stop d) i))"
proof -
  define d1 where "d1 = (fold (\<lambda>(a, i) d. update_conn i (conn_close (conns d i)) d) (peers d) (d\<lparr>running := False\<rparr>))\<lparr>peers := []\<rparr>"
  have d1: "peers d1 = []" "\<not> running d1" "tasks d1 = tasks d"
    using close_peers [of "peers d" "d\<lparr>running := False\<rparr>"] by (simp_all add: d1_def Let_def)
  have "daemon_stop d = (fold (\<lambda>i d. case leave_loop i d None of Ended d' e \<Rightarrow> d' | Suspended d' \<Rightarrow> d') (tasks d) d1)\<lparr>server_open := False\<rparr>"
    by (simp add: daemon_stop_def d1_def Let_def)
  then show ?thesis using stop_tasks [OF d1(1), of "tasks d"] d1(2,3) by (simp add: Let_def)
qed

lemma daemon_command_shuts_down:
  "\<not> running (daemon_command a evs) \<and> \<not> server_open (daemon_command a evs) \<and> peers (daemon_command a evs) = [] \<and>
   (\<forall>i \<in> set (tasks (daemon_command a evs)). hashable (peer_alias (conns (daemon_command a evs) i)) \<longrightarrow>
      closed (conns (daemon_command a evs) i))"
  unfolding daemon_command_def Let_def using daemon_stop_closes by metis

section \<open>Connections do not interfere\<close>

fun concerns :: "nat \<Rightarrow> server_event \<Rightarrow> bool" where
  "concerns i (Incoming j bs ended) = (j = i)"
| "concerns i (Arrive j bs ended) = (j = i)"
| "concerns i (Turn j) = (j = i)"

text \<open>
  What a connection's task and handlers read of the daemon: the connection itself, whether the daemon runs and accepts, whether the
  connection's name has been used, the registered handlers, and \<open>view i\<close> of the state of the handlers, the part that belongs
  to the connection.  The dictionary of peers is shared by all connections and not part of it.
\<close>

definition agree :: "(nat \<Rightarrow> 's \<Rightarrow> 'v) \<Rightarrow> nat \<Rightarrow> ('h, 's) daemon \<Rightarrow> ('h, 's) daemon \<Rightarrow> bool" where
  "agree view i d d' \<longleftrightarrow> conns d i = conns d' i \<and> running d = running d' \<and> server_open d = server_open d' \<and>
     (i \<in> set (tasks d) \<longleftrightarrow> i \<in> set (tasks d')) \<and> handlers d = handlers d' \<and> view i (app d) = view i (app d')"

lemma agree_simps [simp]:
  "agree view i (d\<lparr>peers := p\<rparr>) d' = agree view i d d'" "agree view i d (d'\<lparr>peers := p\<rparr>) = agree view i d d'"
  "agree view i d d"
  by (simp_all add: agree_def)

lemma agree_trans: "agree view i d d' \<Longrightarrow> agree view i d' d'' \<Longrightarrow> agree view i d d''"
  and agree_sym: "agree view i d d' \<Longrightarrow> agree view i d' d"
  by (simp_all add: agree_def)

lemma agree_update: "agree view i d d' \<Longrightarrow> agree view i (update_conn i c d) (update_conn i c d')"
  by (simp add: agree_def)

lemma agree_other: "j \<noteq> i \<Longrightarrow> agree view i (update_conn j c d) d' = agree view i d d'"
  by (simp add: agree_def)

fun same_iteration :: "(nat \<Rightarrow> 's \<Rightarrow> 'v) \<Rightarrow> nat \<Rightarrow> ('h, 's) iteration \<Rightarrow> ('h, 's) iteration \<Rightarrow> bool" where
  "same_iteration view i Suspend it = (it = Suspend)"
| "same_iteration view i (Continue d) it = (\<exists>d'. it = Continue d' \<and> agree view i d d')"
| "same_iteration view i (Break d) it = (\<exists>d'. it = Break d' \<and> agree view i d d')"
| "same_iteration view i (Throw e d) it = (\<exists>d'. it = Throw e d' \<and> agree view i d d')"

fun iteration_of :: "('h, 's) iteration \<Rightarrow> ('h, 's) daemon \<Rightarrow> ('h, 's) daemon" where
  "iteration_of Suspend d = d"
| "iteration_of (Continue d') d = d'"
| "iteration_of (Break d') d = d'"
| "iteration_of (Throw e d') d = d'"

text \<open>Both ends of a task agree on the exception, since it depends on the name of the connection only.\<close>

lemma leave_loop_Ended: "\<exists>d' e'. leave_loop i d e = Ended d' e'"
  by (simp add: leave_loop_def Let_def)

lemma own_leave:
  assumes "agree view i d d'" and "leave_loop i d e = Ended d1 e1" and "leave_loop i d' e = Ended d2 e2"
  shows "agree view i d1 d2"
  using assms by (auto simp: leave_loop_def Let_def agree_def split: if_splits)

lemma other_leave: "j \<noteq> i \<Longrightarrow> leave_loop j d e = Ended d1 e1 \<Longrightarrow> agree view i d1 d' = agree view i d d'"
  by (auto simp: leave_loop_def Let_def agree_def split: if_splits)

definition same_for :: "(nat \<Rightarrow> 's \<Rightarrow> 'v) \<Rightarrow> nat \<Rightarrow> ('h, 's) server \<Rightarrow> ('h, 's) server \<Rightarrow> bool" where
  "same_for view i st st' \<longleftrightarrow> agree view i (srv st) (srv st') \<and> (i \<in> set (live st) \<longleftrightarrow> i \<in> set (live st'))"

lemma own_end:
  assumes "same_for view i st st'" and "agree view i d d'"
  shows "same_for view i (end_task i (leave_loop i d e) st) (end_task i (leave_loop i d' e) st')"
proof -
  obtain d1 e1 d2 e2 where l: "leave_loop i d e = Ended d1 e1" "leave_loop i d' e = Ended d2 e2" using leave_loop_Ended by metis
  with own_leave [OF assms(2) l] show ?thesis by (simp add: end_task_def same_for_def)
qed

lemma other_end:
  assumes "same_for view i st st'" and "j \<noteq> i" and "agree view i d (srv st')"
  shows "same_for view i (end_task j (leave_loop j d e) st) st'"
proof -
  obtain d1 e1 where l: "leave_loop j d e = Ended d1 e1" using leave_loop_Ended by metis
  with other_leave [OF assms(2) l, of view] assms show ?thesis by (simp add: end_task_def same_for_def)
qed

lemma own_accept:
  "same_for view i st st' \<Longrightarrow> same_for view i (accept i bs ended st) (accept i bs ended st')"
  by (auto simp: same_for_def agree_def accept_def handle_incoming_connection_def new_conn_def create_task_def Let_def)

lemma other_accept:
  "same_for view i st st' \<Longrightarrow> j \<noteq> i \<Longrightarrow> same_for view i (accept j bs ended st) st'"
  by (auto simp: same_for_def agree_def accept_def handle_incoming_connection_def new_conn_def create_task_def Let_def)

subsection \<open>Handlers that keep to their connection\<close>

text \<open>
  A handler may send on the connection it is called for, close it, raise an exception, change the peers and the state of the handlers.
  What it does to its own connection, and the exception it raises, depend on what that connection sees; another connection sees nothing
  of it.
\<close>

locale local_handlers =
  fixes view :: "nat \<Rightarrow> 's \<Rightarrow> 'v" and call :: "('h, 's) caller"
  assumes call_own: "agree view i d d' \<Longrightarrow>
      agree view i (fst (call h i m d)) (fst (call h i m d')) \<and> snd (call h i m d) = snd (call h i m d')"
    and call_other: "j \<noteq> i \<Longrightarrow> agree view i (fst (call h j m d)) d"
begin

lemma own_handlers:
  "agree view i d d' \<Longrightarrow> same_iteration view i (run_handlers call hs i m d) (run_handlers call hs i m d')"
proof (induction hs arbitrary: d d')
  case (Cons h hs)
  show ?case using Cons.IH call_own [OF Cons.prems, of h m] by (auto split: prod.split option.split)
qed simp

lemma other_handlers:
  "j \<noteq> i \<Longrightarrow> agree view i (iteration_of (run_handlers call hs j m d) d0) d"
proof (induction hs arbitrary: d)
  case (Cons h hs)
  obtain d1 e where c: "call h j m d = (d1, e)" by force
  then have "agree view i d1 d" using call_other [OF Cons.prems, of h m d] by simp
  then show ?case using agree_trans [OF Cons.IH [OF Cons.prems, of d1]] by (cases e) (auto simp: c)
qed simp

lemma own_message:
  assumes "agree view i d d'"
  shows "same_iteration view i (handle_message call i m d) (handle_message call i m d')"
proof -
  have c: "conns d' i = conns d i" using assms by (simp add: agree_def)
  have h: "handlers d' = handlers d" using assms by (simp add: agree_def)
  have "same_iteration view i (dispatch call i m e) (dispatch call i m e')" if "agree view i e e'" for e e'
    using own_handlers [OF that] that by (simp add: dispatch_def agree_def)
  then show ?thesis using assms by (auto simp: handle_message_def Let_def c agree_update split: sum.split)
qed

lemma own_iteration:
  assumes "agree view i d d'"
  shows "same_iteration view i (read_iteration call i d) (read_iteration call i d')"
proof -
  have c: "conns d' i = conns d i" using assms by (simp add: agree_def)
  show ?thesis
    using assms own_message [OF agree_update [OF assms]]
    by (auto simp: read_iteration_def c agree_update split: prod.split received.split)
qed

lemma other_message:
  assumes "j \<noteq> i"
  shows "agree view i (iteration_of (handle_message call j m d) d0) d"
proof -
  have "agree view i (iteration_of (dispatch call j m e) d0) d" if "agree view i e d" for e
    using agree_trans [OF other_handlers [OF assms] that] by (simp add: dispatch_def)
  then show ?thesis using assms by (auto simp: handle_message_def Let_def agree_other split: sum.split)
qed

lemma other_iteration:
  assumes "j \<noteq> i"
  shows "agree view i (iteration_of (read_iteration call j d) d) d"
proof -
  have "agree view i (iteration_of (handle_message call j m (update_conn j c d)) d) d" for m c
    using agree_trans [OF other_message [OF assms]] assms by (simp add: agree_other)
  then show ?thesis using assms by (auto simp: read_iteration_def agree_other split: prod.split received.split)
qed

lemma own_turn:
  assumes "same_for view i st st'"
  shows "same_for view i (turn call i st) (turn call i st')"
proof -
  have a: "agree view i (srv st) (srv st')" and l: "i \<in> set (live st) \<longleftrightarrow> i \<in> set (live st')" using assms by (simp_all add: same_for_def)
  then have r: "running (srv st') = running (srv st)" "conns (srv st') i = conns (srv st) i" by (simp_all add: agree_def)
  have "same_for view i (st\<lparr>srv := d\<rparr>) (st'\<lparr>srv := d'\<rparr>)" if "agree view i d d'" for d d' using that l by (simp add: same_for_def)
  then show ?thesis
    using own_iteration [OF a] assms own_end [OF assms] own_end [OF assms a] l
    by (cases "read_iteration call i (srv st)") (auto simp: turn_def Let_def r)
qed

lemma other_turn:
  assumes "same_for view i st st'" and "j \<noteq> i"
  shows "same_for view i (turn call j st) st'"
proof -
  have a: "agree view i (srv st) (srv st')" using assms(1) by (simp add: same_for_def)
  then have "agree view i (iteration_of (read_iteration call j (srv st)) (srv st)) (srv st')"
    using agree_trans [OF other_iteration [OF assms(2)]] by blast
  then show ?thesis
    using assms a other_end [OF assms]
    by (cases "read_iteration call j (srv st)") (auto simp: turn_def Let_def same_for_def)
qed

lemma own_step:
  assumes "same_for view i st st'" and "concerns i ev"
  shows "same_for view i (server_step call ev st) (server_step call ev st')"
proof (cases ev)
  case (Arrive j bs ended)
  then show ?thesis using assms by (simp add: same_for_def agree_def)
qed (use assms own_turn own_accept in auto)

lemma other_step:
  assumes "same_for view i st st'" and "\<not> concerns i ev"
  shows "same_for view i (server_step call ev st) st'"
proof (cases ev)
  case (Arrive j bs ended)
  then show ?thesis using assms by (simp add: same_for_def agree_other)
qed (use assms other_turn other_accept in auto)

lemma same_run: "same_for view i st st' \<Longrightarrow> same_for view i (run_server call evs st) (run_server call (filter (concerns i) evs) st')"
  by (induction evs arbitrary: st st') (simp_all add: run_server_def own_step other_step)

end

text \<open>Handlers on a state of their own keep to their connection, and so do handlers that answer on it.\<close>

interpretation pure_handlers: local_handlers "\<lambda>_ _. ()" "app_handlers f" for f
  by unfold_locales (simp_all add: agree_def app_handlers_def)

text \<open>A handler that counts the messages of each connection, answers each, and refuses the third.\<close>

definition revoke_and_ack :: p2p_message where
  "revoke_and_ack = \<lparr>msg_type = MSG_REVOKE_AND_ACK, payload = []\<rparr>"

definition reply_handler :: "(unit, nat \<Rightarrow> nat) caller" where
  "reply_handler h i m d =
     (let n = Suc (app d i); d1 = d\<lparr>app := (app d)(i := n)\<rparr>
      in if 3 \<le> n then (d1, Some ValueError)
         else (case conn_send revoke_and_ack (conns d1 i) of
             Inl e \<Rightarrow> (d1, Some e)
           | Inr c \<Rightarrow> (update_conn i c d1, None)))"

interpretation reply_handlers: local_handlers "\<lambda>i s. s i" reply_handler
  by unfold_locales (auto simp: reply_handler_def agree_def Let_def split: sum.split)

text \<open>
  Property C40: connections do not interfere.  However the arrival of connections, of bytes and the turns of the read loops are
  interleaved, a connection ends up as the events that bear its name alone would leave it, the arrival of other connections left out too:
  the bytes unread and written, its name, whether it is active or closed, whether its task goes on, and the part of the handlers' state
  that belongs to it.  The handlers are any that do not wait and keep to the connection they are called for (\<open>local_handlers\<close>);
  they may answer on it, close it and raise exceptions.  The dictionary of peers is shared and not covered.
\<close>

theorem connections_do_not_interfere:
  assumes "local_handlers view call"
  shows "conns (srv (run_server call evs st)) i = conns (srv (run_server call (filter (concerns i) evs) st)) i \<and>
    (i \<in> set (live (run_server call evs st)) \<longleftrightarrow> i \<in> set (live (run_server call (filter (concerns i) evs) st))) \<and>
    view i (app (srv (run_server call evs st))) = view i (app (srv (run_server call (filter (concerns i) evs) st)))"
proof -
  have "same_for view i st st" by (simp add: same_for_def)
  from local_handlers.same_run [OF assms this, of evs] show ?thesis by (simp add: same_for_def agree_def)
qed

text \<open>
  One connection announces an HTLC and leaves, while another arrives, pings and leaves: the first was answered once and has ended, as if
  it had been alone.
\<close>

definition reply_server :: "(unit, nat \<Rightarrow> nat) server" where
  "reply_server = \<lparr>srv = daemon_start (register_handler MSG_UPDATE_ADD_HTLC () (NodeDaemon ''Bob'' (\<lambda>_. 0))), live = []\<rparr>"

lemma serialize_revoke_and_ack: "serialize_message revoke_and_ack = Inr [0, 133, 0, 2, 0x7B, 0x7D]"
  by (simp add: revoke_and_ack_def serialize_message_def MSG_REVOKE_AND_ACK_def to_bytes_be_def numeral_2_eq_2 utf8_char_def)

definition reply_frame :: bytes where
  "reply_frame = [0, 133, 0, 2, 0x7B, 0x7D]"

lemma reply_to_htlc:
  assumes "handlers d = [(MSG_UPDATE_ADD_HTLC, [()])]" and "app d = (\<lambda>_. 0)" and "conn_send revoke_and_ack c = Inr c'"
  shows "handle_message reply_handler 0 add_htlc_message (update_conn 0 c d) =
    Continue (update_conn 0 c' (d\<lparr>app := (\<lambda>_. 0)(0 := 1)\<rparr>))"
proof -
  have "dispatch reply_handler 0 add_htlc_message (update_conn 0 c d) =
      run_handlers reply_handler [()] 0 add_htlc_message (update_conn 0 c d)"
    by (simp add: dispatch_def assms(1))
  moreover have "reply_handler () 0 add_htlc_message (update_conn 0 c d) =
      (update_conn 0 c' (d\<lparr>app := (\<lambda>_. 0)(0 := 1)\<rparr>), None)"
    by (simp add: reply_handler_def assms(2,3) Let_def)
  ultimately show ?thesis by (simp add: handle_message_def MSG_UPDATE_ADD_HTLC_def MSG_INIT_def MSG_PING_def)
qed

lemma one_connection_ends:
  "let r = run_server reply_handler [Incoming 0 add_htlc_frame True, Turn 0, Turn 0] reply_server
   in written (conns (srv r) 0) = reply_frame \<and> closed (conns (srv r) 0) \<and> 0 \<notin> set (live r) \<and> app (srv r) 0 = 1"
proof -
  let ?c = "PeerConnection add_htlc_frame True (JStr [])" and ?e = "PeerConnection [] True (JStr [])"
  define d where "d = \<lparr>daemon_alias = ''Bob'', peers = [], handlers = [(MSG_UPDATE_ADD_HTLC, [()])], server_open = True, running = True,
    tasks = [0], conns = (\<lambda>_. ?e)(0 := ?c), next_conn = 1, app = (\<lambda>_ :: nat. 0 :: nat)\<rparr>"
  define e where "e = update_conn 0 (?e\<lparr>written := reply_frame\<rparr>) (d\<lparr>app := (\<lambda>_. 0)(0 := 1)\<rparr>)"
  have c: "conns d 0 = ?c" "running d" "handlers d = [(MSG_UPDATE_ADD_HTLC, [()])]" "app d = (\<lambda>_. 0)" by (simp_all add: d_def)
  have a: "accept 0 add_htlc_frame True reply_server = \<lparr>srv = d, live = [0]\<rparr>"
    by (simp add: reply_server_def accept_def handle_incoming_connection_def new_conn_def create_task_def daemon_start_def
        register_handler_def NodeDaemon_def d_def Let_def)
  have "receive ?c = (Received add_htlc_message, ?e)"
    using receive_frame [OF serialize_add_htlc, of ?c "[]"] by (simp add: PeerConnection_def)
  moreover have "conn_send revoke_and_ack ?e = Inr (?e\<lparr>written := reply_frame\<rparr>)"
    by (simp add: conn_send_def serialize_revoke_and_ack PeerConnection_def reply_frame_def)
  ultimately have "read_iteration reply_handler 0 d = Continue e"
    unfolding read_iteration_def c(1) e_def using reply_to_htlc [OF c(3,4)] by simp
  then have 1: "turn reply_handler 0 \<lparr>srv = d, live = [0]\<rparr> = \<lparr>srv = e, live = [0]\<rparr>"
    by (simp add: turn_def c PeerConnection_def)
  have e: "conns e 0 = ?e\<lparr>written := reply_frame\<rparr>" "running e" "app e 0 = 1" by (simp_all add: e_def c)
  have "leave_loop 0 (update_conn 0 (?e\<lparr>written := reply_frame, is_active := False\<rparr>) e) None =
      Ended (update_conn 0 (conn_close (?e\<lparr>written := reply_frame, is_active := False\<rparr>)) e) None"
    by (simp add: leave_loop_def PeerConnection_def)
  moreover have "receive (conns e 0) = (NoMessage, ?e\<lparr>written := reply_frame, is_active := False\<rparr>)"
    by (simp add: e receive_def readexactly_def PeerConnection_def)
  ultimately have 2: "turn reply_handler 0 \<lparr>srv = e, live = [0]\<rparr> =
      \<lparr>srv = update_conn 0 (conn_close (?e\<lparr>written := reply_frame, is_active := False\<rparr>)) e, live = []\<rparr>"
    using e(2) by (simp add: turn_def read_iteration_def end_task_def e(1) PeerConnection_def)
  show ?thesis by (simp add: run_server_def a 1 2 e(3) conn_close_def Let_def)
qed

lemma connections_do_not_interfere_witness:
  "let r = run_server reply_handler
       [Incoming 0 add_htlc_frame True, Incoming 1 [0, 18, 0] False, Turn 1, Turn 0, Arrive 1 [2, 0x7B, 0x7D] True, Turn 1, Turn 1, Turn 0]
       reply_server
   in written (conns (srv r) 0) = reply_frame \<and> closed (conns (srv r) 0) \<and> 0 \<notin> set (live r) \<and> app (srv r) 0 = 1"
  using connections_do_not_interfere [OF reply_handlers.local_handlers_axioms, of
      "[Incoming 0 add_htlc_frame True, Incoming 1 [0, 18, 0] False, Turn 1, Turn 0, Arrive 1 [2, 0x7B, 0x7D] True, Turn 1, Turn 1, Turn 0]"
      reply_server 0] one_connection_ends
  by (simp add: Let_def)

end
