(* ===== verification/Spec2Isabelle.thy ===== *)
theory Spec2Isabelle
  imports Channel_Ledger Anchors Eltoo Shachain Routing Node PTLC Onion_Json Daemon Watchtower Swaps Database App Commands Servers
begin

text \<open>
  Payment Communities: payment channels over Bitcoin, after the Python package \<open>payment_communities\<close>.  File names are relative to
  \<open>src/src/payment_communities/\<close>.

  \<^bold>\<open>The program.\<close>  Two parties fund an output that both must sign for (\<open>bitcoin/contracts.py\<close>, \<open>bitcoin/transaction.py\<close>) and then pay each
  other by exchanging commitment transactions (\<open>domain/channel.py\<close>).  Payments over several hops are hash time locked contracts along
  a route (\<open>domain/node.py\<close>, \<open>network/routing.py\<close>) whose instructions travel in onion packets (\<open>protocols/sphinx.py\<close>).  Old commitments
  are revoked by secrets (\<open>protocols/revocation.py\<close>, \<open>protocols/shachain.py\<close>), and a revoked one that is published is swept by the other
  party or by a watchtower (\<open>protocols/watchtower.py\<close>).  Variants are Eltoo states, point locked contracts with adaptor signatures, anchor
  outputs and submarine swaps (the other files of \<open>protocols/\<close>).  Signed transactions are checked by an interpreter of Bitcoin scripts
  (\<open>bitcoin/interpreter.py\<close>).  Around this stand a peer daemon and a client of a block explorer (\<open>network/\<close>), two storage engines
  (\<open>storage/\<close>) and a command line with demonstrations (\<open>cli/\<close>).

  \<^bold>\<open>How the model is built.\<close>  A class is a record, an enumeration a datatype, a method a function from the state to a result and a new
  state.  A call that may raise returns \<open>py_error + 'a\<close> (\<open>Inl\<close> the exception); messages of exceptions are dropped.  Dictionaries are
  insertion-ordered association lists, bytes lists of 8-bit words, integers \<open>int\<close> as in Python except on 32-bit words in SHA-256 and
  ChaCha20.  Objects shared between nodes and graphs are positions in a heap of channels.  Random bytes, the clock and the decisions of the
  operating system are arguments; so is every function of a package whose code is not in the repository, in the records named below.

  \<^bold>\<open>Foundations.\<close>
  \<^item> \<open>Prelude\<close>: exceptions (\<open>exceptions.py\<close>), byte and hexadecimal codecs, dictionaries, results, and the collections \<open>codec\<close>, \<open>dict\<close> and
    \<open>result\<close> of the facts the proofs simplify with.  \<open>Text\<close>: UTF-8, padding, slices.  \<open>Sha256\<close>: the hash of the standard library on words.
  \<^item> \<open>Bitcoin_Lib\<close>: transactions, and the record \<open>btclib\<close> of what is called of \<open>python-bitcoinlib\<close>.  \<open>Script_Codec\<close>: the law of script
    iteration (locale \<open>script_lib\<close>) and the wire format that satisfies it, interpreted as \<open>wire\<close>.
  \<^item> \<open>Curve_Lib\<close>: the curve functions of \<open>bitcoin/utils.py\<close> over the record \<open>eclib\<close> (package \<open>ecdsa\<close>), with the laws of a cyclic group (locale
    \<open>curve_group\<close>).  \<open>Stream_Cipher\<close>: HMAC, and ChaCha20 as an instance of the locale \<open>key_stream\<close>.
  \<^item> \<open>Json\<close>: \<open>dumps\<close> and \<open>loads\<close> with their round trip.  \<open>Model_Json\<close>: the JSON forms of the stored models.

  \<^bold>\<open>Channels and payments.\<close>
  \<^item> \<open>Domain_Core\<close>: \<open>domain/core/\<close> (specifications, \<open>Result\<close>, policies, decorators).
  \<^item> \<open>Channel\<close>: \<open>domain/channel.py\<close> and the revocation store; \<open>add_htlc\<close>, \<open>redeem_htlc\<close>, \<open>refund_htlc\<close>, \<open>revoke_prior_state\<close>,
    \<open>verify_commitment_not_revoked\<close>, \<open>close_cooperatively\<close>.  \<open>Channel_Ledger\<close>: they implement an abstract two-party escrow (\<open>ledger\<close>,
    \<open>abs_channel\<close>); in every state reached by admissible operations (offers of unsettled HTLCs of a non-negative amount under a fresh
    id, which the code does not check) the balances and the HTLCs in flight add up to the capacity (locale \<open>escrow\<close>).
  \<^item> \<open>Node\<close>: \<open>domain/node.py\<close>; \<open>network\<close> is the relation of worlds reachable by calls with such offers between different nodes, and what a
    channel conserves every node sees.
  \<^item> \<open>Routing\<close>: \<open>network/routing.py\<close>; the loop of the search is \<open>search\<close>, which terminates since a node enters \<open>visited\<close> once
    or the queue shrinks.  Returned routes are valid, and without fees they are the shortest.
  \<^item> \<open>Shachain\<close>: \<open>protocols/shachain.py\<close>; what a receiver knows, and in which order it is compact.

  \<^bold>\<open>Scripts and transactions.\<close>
  \<^item> \<open>Interpreter\<close>: \<open>bitcoin/interpreter.py\<close>.  \<open>Script_Semantics\<close>: the flat loop computes the structured semantics \<open>run_prog\<close>.  \<open>Contracts\<close>: every
    script of the package with all witnesses that spend it.
  \<^item> \<open>Taproot\<close>: \<open>bitcoin/taproot.py\<close> (BIP 340, tweaks, Bech32m).  \<open>Witness_Program\<close>: the three kinds of witness programs.
  \<^item> \<open>Transactions\<close>: \<open>bitcoin/transaction.py\<close>, the breach remedy and the PTLC settlement; values add up, and what honest parties sign verifies
    (locale \<open>wallet_lib\<close>, the law of signatures).
  \<^item> \<open>Anchors\<close>, \<open>Eltoo\<close>, \<open>PTLC\<close>, \<open>Swaps\<close>: the files of \<open>protocols/\<close> of these names, with \<open>swap_server.py\<close>; the states of
    the coordinator are reached by \<open>swap_step\<close>.
  \<^item> \<open>Sphinx\<close>, \<open>Onion_Json\<close>: the binary and the structured packets of \<open>protocols/sphinx.py\<close>; every packet is delivered (locale \<open>onion\<close>).
  \<^item> \<open>Watchtower\<close>: \<open>protocols/watchtower.py\<close> over an authenticated cipher (locale \<open>aead\<close>).

  \<^bold>\<open>Network, storage and commands.\<close>
  \<^item> \<open>Daemon\<close>: \<open>network/daemon.py\<close>; messages survive framing, a stream is dispatched in order.  \<open>Servers\<close>: the event loop under it, with
    connections, bytes and turns of the read loops in any order; connections do not interfere, for handlers that keep to their own
    (locale \<open>local_handlers\<close>).  \<open>Config\<close>: the settings of \<open>config.py\<close>.
    \<open>Client\<close>: \<open>network/client.py\<close> over a network that is a function with its own state, and \<open>floats\<close> for floating point.
  \<^item> \<open>Storage\<close>: \<open>storage/engine.py\<close> with every directory a crash can leave.  \<open>Database\<close>: \<open>storage/sqlite.py\<close> as tables; it implements an
    archive of plain maps.
  \<^item> \<open>App\<close>: loading, saving and funding of \<open>cli/app.py\<close>.  \<open>Commands\<close>: its reports, the payment command, and what of it survives a restart.  \<open>Simulation\<close>, \<open>Breach_Demos\<close>, \<open>Protocol_Demos\<close>: the files of
    \<open>cli/demos/\<close>, which compose the components above; the payment and the breach remedy each have an end-to-end theorem there.

  \<^bold>\<open>Interfaces.\<close>  A locale states what a client relies on and is interpreted where it is provided: \<open>escrow\<close> by the channel, \<open>priority_queue\<close> by
  the sorted queue of the search, \<open>script_lib\<close> and \<open>wallet_lib\<close> by the wire format, \<open>json_printer\<close> by \<open>dumps\<close>, \<open>key_stream\<close> by ChaCha20,
  \<open>kv_store\<close> by the tables of preimages and hints, \<open>local_handlers\<close> by handlers on a state of their own and by ones that answer.  The laws of packages outside the repository have stand-ins for instances: \<open>curve_group\<close> holds
  of the integers modulo the group order, \<open>aead\<close> of a tagged one-time pad.  They show that the hypotheses can hold, and witnesses compute with them.

  \<^bold>\<open>Fuel.\<close>  The parser of \<open>Json\<close> takes one unit per call and \<open>loads\<close> gives it twice the length of the text and two: \<open>value_fuel\<close> shows
  that more changes nothing.  The read loop of \<open>Daemon\<close> needs one unit per message and one for the end, as the theorem on dispatching shows.
  \<open>poll_tx_confirmation\<close> ends with more fuel than the timeout has milliseconds if time passes in every sleep (\<open>poll_tx_confirmation_ends\<close>);
  the payment demonstration, whose broadcast polls, is \<open>None\<close> while polling has not ended.  Every other loop is a total function.

  \<^bold>\<open>Not modelled.\<close>  Printing and formatting, option parsing, logging texts and exception messages.  The event loop and sockets under the
  daemon: a connection is the bytes that have arrived and whether the stream has ended, and the event loop is a list of events; a handler that waits in the middle of a message
  is left out.  Exceptions that functions of \<open>python-bitcoinlib\<close> and \<open>hashlib\<close> raise by themselves (an input index without an input in
  \<open>SignatureHash\<close>, a missing \<open>ripemd160\<close>), since they are total in \<open>btclib\<close>.  The commands of
  \<open>cli/app.py\<close> that only call one demonstration.  \<open>main.py\<close> and the \<open>__init__\<close> files, which re-export names, and the wrappers at the end of \<open>bitcoin/contracts.py\<close> and in
  \<open>bitcoin/utils.py\<close>, which call one function and stand for it.  Pydantic's coercions between types, texts with code points
  beyond 255, arithmetic of floats, SQLite's timestamps and indexes.  Constants of \<open>config.py\<close> that no code
  reads.  The tests and the documents of the repository.
\<close>

end
